(* ===== verification/Prelude.thy ===== *)
theory Prelude
  imports
    Main
    "HOL-Library.AList"
    "HOL-Library.Multiset"
    "HOL-Library.Word"
    "HOL-Library.List_Lexorder"
    "HOL-Library.Char_ord"
begin

text \<open>
  What the components of the development share: the names of the machine types, the parts of
  Rust's standard library the sources use (\<^verbatim>\<open>HashMap\<close>, \<^verbatim>\<open>Vec::retain\<close>, a few \<^verbatim>\<open>str\<close> methods)
  and the lemmas about them that carry the component proofs.

  Rust strings are byte sequences (UTF-8), and so is the type \<^typ>\<open>string\<close>; the order of
  \<^verbatim>\<open>HOL-Library.List_Lexorder\<close> over \<^verbatim>\<open>HOL-Library.Char_ord\<close> is the bytewise order of
  \<^verbatim>\<open>str\<close>'s \<^verbatim>\<open>Ord\<close>. A \<^verbatim>\<open>Result<T, E>\<close> is the sum \<open>'e + 't\<close> with the error on the left.
\<close>

section \<open>Machine types\<close>

type_synonym uuid = "128 word"
type_synonym u64 = "64 word"
type_synonym u8 = "8 word"
type_synonym u16 = "16 word"
type_synonym u32 = "32 word"
type_synonym i32 = "32 word"
type_synonym bytes = "u8 list"

text \<open>An \<^verbatim>\<open>i64\<close> of milliseconds since the epoch. The sources only carry such values.\<close>

type_synonym millis = int

type_synonym ('e, 'a) result = "'e + 'a"

text \<open>The definitions that the step-by-step proofs of a component unfold.\<close>

named_theorems handler_defs

section \<open>Hash maps of the standard library\<close>

text \<open>
  A \<^verbatim>\<open>HashMap\<close> is an association list with distinct keys. The order of the list has no meaning:
  every definition that iterates over a map takes the iteration order of the standard library
  as an argument \<open>iter\<close> that permutes the entries (\<open>hash_iter\<close> below), so a theorem holds for
  whatever order the hasher gives.
\<close>

type_synonym ('k, 'v) hash_map = "('k \<times> 'v) list"

definition hm_wf :: "('k, 'v) hash_map \<Rightarrow> bool" where
  "hm_wf m \<longleftrightarrow> distinct (map fst m)"

definition hm_get :: "('k, 'v) hash_map \<Rightarrow> 'k \<Rightarrow> 'v option" where
  "hm_get m k = map_of m k"

definition hm_contains_key :: "('k, 'v) hash_map \<Rightarrow> 'k \<Rightarrow> bool" where
  "hm_contains_key m k \<longleftrightarrow> hm_get m k \<noteq> None"

definition hm_insert :: "('k, 'v) hash_map \<Rightarrow> 'k \<Rightarrow> 'v \<Rightarrow> ('k, 'v) hash_map" where
  "hm_insert m k v = AList.update k v m"

definition hm_remove :: "('k, 'v) hash_map \<Rightarrow> 'k \<Rightarrow> ('k, 'v) hash_map" where
  "hm_remove m k = AList.delete k m"

definition hm_retain :: "('k \<Rightarrow> 'v \<Rightarrow> bool) \<Rightarrow> ('k, 'v) hash_map \<Rightarrow> ('k, 'v) hash_map" where
  "hm_retain p m = filter (\<lambda>(k, v). p k v) m"

definition hash_iter :: "(('k, 'v) hash_map \<Rightarrow> ('k \<times> 'v) list) \<Rightarrow> bool" where
  "hash_iter iter \<longleftrightarrow> (\<forall>m. mset (iter m) = mset m)"

lemma hm_wf_Nil [simp]: "hm_wf []"
  by (simp add: hm_wf_def)

lemma hm_wf_insert [simp]: "hm_wf m \<Longrightarrow> hm_wf (hm_insert m k v)"
  by (simp add: hm_wf_def hm_insert_def distinct_update)

lemma hm_wf_remove [simp]: "hm_wf m \<Longrightarrow> hm_wf (hm_remove m k)"
  by (simp add: hm_wf_def hm_remove_def distinct_delete)

lemma hm_wf_retain [simp]: "hm_wf m \<Longrightarrow> hm_wf (hm_retain p m)"
  by (induction m) (auto simp: hm_wf_def hm_retain_def)

lemma hm_get_Nil [simp]: "hm_get [] k = None"
  by (simp add: hm_get_def)

lemma hm_get_insert [simp]: "hm_get (hm_insert m k v) = (hm_get m)(k \<mapsto> v)"
  by (auto simp: hm_get_def hm_insert_def update_conv' fun_eq_iff)

lemma hm_get_remove [simp]: "hm_get (hm_remove m k) = (hm_get m)(k := None)"
  by (auto simp: hm_get_def hm_remove_def delete_conv' fun_eq_iff)

lemma hm_get_retain:
  "hm_wf m \<Longrightarrow>
   hm_get (hm_retain p m) k = (case hm_get m k of None \<Rightarrow> None | Some v \<Rightarrow> if p k v then Some v else None)"
proof (induction m)
  case Nil
  then show ?case by (simp add: hm_retain_def)
next
  case (Cons kv m)
  obtain k' v' where kv: "kv = (k', v')" by (cases kv)
  have "k' = k \<Longrightarrow> map_of m k = None"
    using Cons.prems by (auto simp: kv hm_wf_def map_of_eq_None_iff)
  moreover have "hm_wf m" using Cons.prems by (simp add: hm_wf_def)
  ultimately show ?case
    using Cons.IH by (auto simp: kv hm_get_def hm_retain_def split: option.splits)
qed

lemma hm_contains_key_dom: "hm_contains_key m k \<longleftrightarrow> k \<in> dom (hm_get m)"
  by (auto simp: hm_contains_key_def)

lemma dom_hm_get: "dom (hm_get m) = set (map fst m)"
  by (simp add: hm_get_def [abs_def] dom_map_of_conv_image_fst)

lemma hm_get_Some_iff: "hm_wf m \<Longrightarrow> hm_get m k = Some v \<longleftrightarrow> (k, v) \<in> set m"
  by (simp add: hm_get_def hm_wf_def)

lemma hm_remove_absent: "hm_get m k = None \<Longrightarrow> hm_remove m k = m"
  by (simp add: hm_get_def hm_remove_def map_of_eq_None_iff delete_idem)

lemma hash_iter_set: "hash_iter iter \<Longrightarrow> set (iter m) = set m"
  by (metis hash_iter_def set_mset_mset)

lemma hash_iter_mset: "hash_iter iter \<Longrightarrow> mset (iter m) = mset m"
  by (simp add: hash_iter_def)

lemma hash_iter_id: "hash_iter (\<lambda>m. m)"
  by (simp add: hash_iter_def)

lemma hash_iter_rev: "hash_iter rev"
  by (simp add: hash_iter_def)

section \<open>Strings of the standard library\<close>

definition starts_with :: "string \<Rightarrow> string \<Rightarrow> bool" where
  "starts_with s p \<longleftrightarrow> take (length p) s = p"

definition strip_prefix :: "string \<Rightarrow> string \<Rightarrow> string option" where
  "strip_prefix s p = (if starts_with s p then Some (drop (length p) s) else None)"

lemma starts_with_append [simp]: "starts_with (p @ s) p"
  by (simp add: starts_with_def)

lemma strip_prefix_append [simp]: "strip_prefix (p @ s) p = Some s"
  by (simp add: strip_prefix_def)

lemma strip_prefix_Some: "strip_prefix s p = Some t \<longleftrightarrow> s = p @ t"
  by (auto simp: strip_prefix_def starts_with_def) (metis append_take_drop_id)

text \<open>
  \<^verbatim>\<open>str::trim\<close> removes the characters with Unicode's \<^verbatim>\<open>White_Space\<close> property.
  \<open>white_space_prefix\<close> removes one such character, read as its UTF-8 bytes, from the front of
  a string; \<open>trim_is_empty s\<close> is \<^verbatim>\<open>s.trim().is_empty()\<close>, that is, every character is one.
\<close>

fun white_space_prefix :: "nat list \<Rightarrow> nat list option" where
  "white_space_prefix (a # b # c # r) =
     (if a \<in> {9, 10, 11, 12, 13, 32} then Some (b # c # r)
      else if a = 194 \<and> b \<in> {133, 160} then Some (c # r)
      else if a = 225 \<and> b = 154 \<and> c = 128 then Some r
      else if a = 226 \<and> b = 128 \<and> (128 \<le> c \<and> c \<le> 138 \<or> c \<in> {168, 169, 175}) then Some r
      else if a = 226 \<and> b = 129 \<and> c = 159 then Some r
      else if a = 227 \<and> b = 128 \<and> c = 128 then Some r
      else None)"
| "white_space_prefix [a, b] =
     (if a \<in> {9, 10, 11, 12, 13, 32} then Some [b]
      else if a = 194 \<and> b \<in> {133, 160} then Some []
      else None)"
| "white_space_prefix [a] = (if a \<in> {9, 10, 11, 12, 13, 32} then Some [] else None)"
| "white_space_prefix [] = None"

lemma white_space_prefix_shorter: "white_space_prefix s = Some r \<Longrightarrow> length r < length s"
  by (induction s rule: white_space_prefix.induct) (auto split: if_splits)

function all_white_space :: "nat list \<Rightarrow> bool" where
  "all_white_space s =
     (s = [] \<or> (case white_space_prefix s of None \<Rightarrow> False | Some r \<Rightarrow> all_white_space r))"
  by pat_completeness auto
termination
  by (relation "measure length") (auto dest: white_space_prefix_shorter)

declare all_white_space.simps [simp del]

definition trim_is_empty :: "string \<Rightarrow> bool" where
  "trim_is_empty s = all_white_space (map of_char s)"

lemma trim_is_empty_Nil [simp]: "trim_is_empty []"
  by (simp add: trim_is_empty_def all_white_space.simps)

section \<open>Results and options\<close>

definition is_ok :: "('e, 'a) result \<Rightarrow> bool" where
  "is_ok r = (case r of Inl _ \<Rightarrow> False | Inr _ \<Rightarrow> True)"

lemma is_ok_simps [simp]: "is_ok (Inr a)" "\<not> is_ok (Inl e)"
  by (simp_all add: is_ok_def)

lemma is_ok_iff: "is_ok r \<longleftrightarrow> (\<exists>a. r = Inr a)"
  by (cases r) simp_all

text \<open>
  Collecting an iterator of row results with the \<^verbatim>\<open>?\<close> operator: the loop stops at the first
  error, as \<^verbatim>\<open>for row in rows { v.push(row?); }\<close> does.
\<close>

fun collect_rows :: "('e, 'a) result list \<Rightarrow> ('e, 'a list) result" where
  "collect_rows [] = Inr []"
| "collect_rows (Inl e # rs) = Inl e"
| "collect_rows (Inr a # rs) =
     (case collect_rows rs of Inl e \<Rightarrow> Inl e | Inr as \<Rightarrow> Inr (a # as))"

lemma collect_rows_Inr [simp]: "collect_rows (map Inr as) = Inr as"
  by (induction as) simp_all

lemma collect_rows_Inr_iff: "collect_rows rs = Inr as \<longleftrightarrow> rs = map Inr as"
  by (induction rs arbitrary: as rule: collect_rows.induct) (auto split: sum.splits)

lemma collect_rows_Inl: "collect_rows rs = Inl e \<Longrightarrow> Inl e \<in> set rs"
  by (induction rs rule: collect_rows.induct) (auto split: sum.splits)

text \<open>The operator \<^verbatim>\<open>?\<close>: an error returns early.\<close>

definition bind_result :: "('e, 'a) result \<Rightarrow> ('a \<Rightarrow> ('e, 'b) result) \<Rightarrow> ('e, 'b) result" where
  "bind_result r f = (case r of Inl e \<Rightarrow> Inl e | Inr a \<Rightarrow> f a)"

lemma bind_result_simps [simp]: "bind_result (Inl e) f = Inl e" "bind_result (Inr a) f = f a"
  by (simp_all add: bind_result_def)

text \<open>The operator \<^verbatim>\<open>?\<close> on an operation with a state.\<close>

definition and_then :: "'w \<times> ('e, 'a) result \<Rightarrow> ('w \<Rightarrow> 'a \<Rightarrow> 'w \<times> ('e, 'b) result) \<Rightarrow> 'w \<times> ('e, 'b) result" where
  "and_then r f = (case r of (w, Inl e) \<Rightarrow> (w, Inl e) | (w, Inr a) \<Rightarrow> f w a)"

lemma and_then_simps [simp]: "and_then (w, Inl e) f = (w, Inl e)" "and_then (w, Inr a) f = f w a"
  by (simp_all add: and_then_def)

lemma and_then_assoc: "and_then (and_then r f) g = and_then r (\<lambda>w a. and_then (f w a) g)"
  by (auto simp: and_then_def split: prod.splits sum.splits)

lemma and_then_unit: "and_then r (\<lambda>w _. (w, Inr ())) = r"
  by (auto simp: and_then_def split: prod.splits sum.splits)

section \<open>Sorting\<close>

lemma sort_strict:
  fixes f :: "'a \<Rightarrow> 'o :: linorder"
  assumes "distinct (map f xs)"
  shows "sorted_wrt (\<lambda>a b. f b < f a) (rev (sort_key f xs))"
proof -
  have "distinct (map f (sort_key f xs))"
    using assms by (simp add: distinct_map inj_on_def)
  then have "sorted_wrt (<) (map f (sort_key f xs))"
    using strict_sorted_iff sorted_sort_key by blast
  then show ?thesis by (simp add: sorted_wrt_rev sorted_wrt_map)
qed

section \<open>The crate uuid\<close>

text \<open>
  The functions of the crate the sources use, as an argument of the definitions that use them:
  printing, parsing and the generation of random ids, here by the position of the use. The
  hypothesis \<open>uuid_ops\<close> states that an id is read back from its text and that the text is not
  blank.
\<close>

record UuidOps =
  to_string :: "uuid \<Rightarrow> string"
  parse_str :: "string \<Rightarrow> uuid option"
  new_v4 :: "nat \<Rightarrow> uuid"

definition uuid_ops :: "UuidOps \<Rightarrow> bool" where
  "uuid_ops u \<longleftrightarrow> (\<forall>i. parse_str u (to_string u i) = Some i \<and> \<not> trim_is_empty (to_string u i))"

lemma uuid_ops_parse: "uuid_ops u \<Longrightarrow> parse_str u (to_string u i) = Some i"
  by (simp add: uuid_ops_def)

lemma uuid_ops_nonblank: "uuid_ops u \<Longrightarrow> \<not> trim_is_empty (to_string u i)"
  by (simp add: uuid_ops_def)

lemma uuid_ops_nonempty: "uuid_ops u \<Longrightarrow> to_string u i \<noteq> []"
  using uuid_ops_nonblank [of u i] by auto

text \<open>An encoding of ids for examples: as many letters \<open>x\<close> as the id, followed by one more.\<close>

definition unary_uuid :: UuidOps where
  "unary_uuid = \<lparr>to_string = (\<lambda>i. replicate (Suc (unat i)) CHR ''x''),
     parse_str = (\<lambda>s. if s = [] then None else Some (of_nat (length s - 1))), new_v4 = (\<lambda>i. 0)\<rparr>"

lemma not_blank_x: "\<not> trim_is_empty (replicate (Suc n) CHR ''x'')"
proof -
  have "white_space_prefix (120 # s) = None" for s
    by (cases s rule: list.exhaust; cases "tl s") auto
  then show ?thesis by (simp add: trim_is_empty_def all_white_space.simps)
qed

lemma unary_uuid_ops: "uuid_ops unary_uuid"
  using not_blank_x by (simp add: uuid_ops_def unary_uuid_def)

end
