(* ===== verification/Cql.thy ===== *)
theory Cql
  imports Prelude
begin

text \<open>
  The statements \<^verbatim>\<open>chat-service\<close> and \<^verbatim>\<open>rabbit_consumer\<close> send to ScyllaDB and their driver.

  A statement of the sources is a string; here it is its syntax tree, a \<open>Stmt\<close>. The driver (the
  crate \<^verbatim>\<open>scylla\<close>) is an argument of everything that uses it, a \<open>Session\<close> with the operations the
  sources call; \<^verbatim>\<open>rows::<T>()\<close> is one operation for each of the five row types \<open>T\<close> they use.

  \<open>serves\<close> is the hypothesis under which theorems speak of what a query returns. It states the
  documented behaviour of CQL and of the driver for a database that answers: which statements are
  accepted, that \<^verbatim>\<open>SELECT\<close> returns the matching rows of the partition in clustering order, that
  \<^verbatim>\<open>INSERT\<close> and \<^verbatim>\<open>UPDATE\<close> write the named columns of the row with the given primary key, that a
  batch does all its statements. A \<open>Backend\<close> holds what it depends on: the keyspace the session
  was opened with, whether the driver takes a \<^verbatim>\<open>uuid::Uuid\<close> for a column of type \<^verbatim>\<open>timeuuid\<close>
  (\<^verbatim>\<open>CqlTimeuuid\<close> it always takes), the order of \<^verbatim>\<open>timeuuid\<close> values, and the contents of the
  tables of the keyspace \<^verbatim>\<open>affinity\<close>.
\<close>

section \<open>Statements\<close>

datatype CqlType = Text_t | Timeuuid_t | Timestamp_t

record TableDef =
  columns :: "(string \<times> CqlType) list"
  partition_key :: "string list"
  clustering_key :: "string list"

datatype Rel = Eq | Lt | Gt

text \<open>In an \<^verbatim>\<open>INSERT\<close>: a bind marker, or \<^verbatim>\<open>toTimestamp(now())\<close>.\<close>

datatype Term = Bind | Now

text \<open>
  \<open>Select cols ks table conds order limit\<close>, with \<open>order\<close> a column and whether it is \<^verbatim>\<open>DESC\<close>;
  \<open>Insert ks table cols terms\<close>; \<open>Update ks table set_cols where_cols\<close>, every value a bind marker.
\<close>

datatype Stmt =
    Select "string list" "string option" string "(string \<times> Rel) list" "(string \<times> bool) option" "nat option"
  | Insert "string option" string "string list" "Term list"
  | Update "string option" string "string list" "string list"
  | CreateKeyspace string
  | Use string
  | CreateTable string TableDef

text \<open>The values the sources bind, by their Rust type.\<close>

datatype Value = TextV string | UuidV uuid | TimeuuidV uuid | TimestampV millis | IntV i32

section \<open>The driver\<close>

record ('w, 'r, 'rows, 'p) Session =
  query_unpaged :: "'w \<Rightarrow> Stmt \<Rightarrow> Value list \<Rightarrow> 'w \<times> (string, 'r) result"
  prepare :: "'w \<Rightarrow> Stmt \<Rightarrow> 'w \<times> (string, 'p) result"
  execute_unpaged :: "'w \<Rightarrow> 'p \<Rightarrow> Value list \<Rightarrow> 'w \<times> (string, 'r) result"
  batch :: "'w \<Rightarrow> Stmt list \<Rightarrow> Value list list \<Rightarrow> 'w \<times> (string, unit) result"
  into_rows_result :: "'r \<Rightarrow> (string, 'rows) result"
  rows_conversation :: "'rows \<Rightarrow> (string, (string, string \<times> millis) result list) result"
  rows_history :: "'rows \<Rightarrow> (string, (string, uuid \<times> string \<times> string \<times> string \<times> millis) result list) result"
  rows_message ::
    "'rows \<Rightarrow> (string, (string, string \<times> uuid \<times> string \<times> string \<times> string \<times> millis) result list) result"
  rows_room_message :: "'rows \<Rightarrow> (string, (string, string \<times> uuid \<times> string \<times> string \<times> millis) result list) result"
  rows_id :: "'rows \<Rightarrow> (string, (string, string) result list) result"

section \<open>Documented behaviour of CQL\<close>

datatype Cell = CText string | CTimeuuid uuid | CTimestamp millis

type_synonym row = "string \<rightharpoonup> Cell"
type_synonym database = "string \<rightharpoonup> TableDef \<times> row list"

fun encode :: "bool \<Rightarrow> CqlType \<Rightarrow> Value \<Rightarrow> Cell option" where
  "encode uuid_ok Text_t (TextV s) = Some (CText s)"
| "encode uuid_ok Timeuuid_t (TimeuuidV u) = Some (CTimeuuid u)"
| "encode uuid_ok Timeuuid_t (UuidV u) = (if uuid_ok then Some (CTimeuuid u) else None)"
| "encode uuid_ok Timestamp_t (TimestampV t) = Some (CTimestamp t)"
| "encode uuid_ok _ _ = None"

fun encode_all :: "bool \<Rightarrow> CqlType list \<Rightarrow> Value list \<Rightarrow> Cell list option" where
  "encode_all uuid_ok [] [] = Some []"
| "encode_all uuid_ok (t # ts) (v # vs) =
     (case encode uuid_ok t v of
        None \<Rightarrow> None
      | Some c \<Rightarrow> map_option ((#) c) (encode_all uuid_ok ts vs))"
| "encode_all uuid_ok _ _ = None"

definition col_type :: "TableDef \<Rightarrow> string \<Rightarrow> CqlType option" where
  "col_type td c = map_of (columns td) c"

definition primary_key :: "TableDef \<Rightarrow> string list" where
  "primary_key td = partition_key td @ clustering_key td"

text \<open>The table a statement names, when its keyspace is the one of the database.\<close>

definition table_of :: "string option \<Rightarrow> database \<Rightarrow> string option \<Rightarrow> string \<Rightarrow> (TableDef \<times> row list) option" where
  "table_of session_ks db ks t =
     (if (case ks of Some k \<Rightarrow> Some k | None \<Rightarrow> session_ks) = Some ''affinity'' then db t else None)"

text \<open>The place of a cell in clustering order.\<close>

fun cell_key :: "(uuid \<Rightarrow> int) \<Rightarrow> Cell option \<Rightarrow> int list" where
  "cell_key tkey (Some (CText s)) = map of_char s"
| "cell_key tkey (Some (CTimeuuid u)) = [tkey u]"
| "cell_key tkey (Some (CTimestamp t)) = [t]"
| "cell_key tkey None = []"

definition clustering_place :: "(uuid \<Rightarrow> int) \<Rightarrow> TableDef \<Rightarrow> row \<Rightarrow> int list list" where
  "clustering_place tkey td r = map (\<lambda>c. cell_key tkey (r c)) (clustering_key td)"

fun rel_holds :: "(uuid \<Rightarrow> int) \<Rightarrow> Rel \<Rightarrow> Cell option \<Rightarrow> Cell \<Rightarrow> bool" where
  "rel_holds tkey Eq a b \<longleftrightarrow> a = Some b"
| "rel_holds tkey Lt a b \<longleftrightarrow> cell_key tkey a < cell_key tkey (Some b)"
| "rel_holds tkey Gt a b \<longleftrightarrow> cell_key tkey a > cell_key tkey (Some b)"

definition where_holds :: "(uuid \<Rightarrow> int) \<Rightarrow> (string \<times> Rel) list \<Rightarrow> Cell list \<Rightarrow> row \<Rightarrow> bool" where
  "where_holds tkey conds cells r =
     list_all (\<lambda>((c, rel), v). rel_holds tkey rel (r c) v) (zip conds cells)"

definition arrange :: "(uuid \<Rightarrow> int) \<Rightarrow> TableDef \<Rightarrow> (string \<times> bool) option \<Rightarrow> nat option \<Rightarrow> row list \<Rightarrow> row list" where
  "arrange tkey td order limit rows =
     (let asc = sort_key (clustering_place tkey td) rows;
          ordered = (case order of Some (c, desc) \<Rightarrow> if desc then rev asc else asc | None \<Rightarrow> asc)
      in case limit of None \<Rightarrow> ordered | Some n \<Rightarrow> take n ordered)"

text \<open>The column types and the rows of a result; the rejection of a statement is \<^const>\<open>None\<close>.\<close>

type_synonym result_set = "CqlType list \<times> Cell option list list"

fun cql_select ::
  "string option \<Rightarrow> bool \<Rightarrow> (uuid \<Rightarrow> int) \<Rightarrow> database \<Rightarrow> Stmt \<Rightarrow> Value list \<Rightarrow> result_set option" where
  "cql_select session_ks uuid_ok tkey db (Select cols ks t conds order limit) vals =
     (case table_of session_ks db ks t of
        None \<Rightarrow> None
      | Some (td, rows) \<Rightarrow>
          (case those (map (col_type td) cols) of
             None \<Rightarrow> None
           | Some tys \<Rightarrow>
               (case Option.bind (those (map (\<lambda>(c, rel). col_type td c) conds))
                       (\<lambda>tys. encode_all uuid_ok tys vals) of
                  None \<Rightarrow> None
                | Some cells \<Rightarrow>
                    Some (tys, map (\<lambda>r. map r cols)
                      (arrange tkey td order limit (filter (where_holds tkey conds cells) rows))))))"
| "cql_select session_ks uuid_ok tkey db _ vals = None"

definition same_key :: "TableDef \<Rightarrow> row \<Rightarrow> row \<Rightarrow> bool" where
  "same_key td r r' = list_all (\<lambda>c. r c = r' c) (primary_key td)"

definition upsert :: "TableDef \<Rightarrow> row \<Rightarrow> row list \<Rightarrow> row list" where
  "upsert td new rows =
     (if list_ex (\<lambda>r. same_key td r new) rows
      then map (\<lambda>r. if same_key td r new then r ++ new else r) rows
      else rows @ [new])"

fun bound_columns :: "string list \<Rightarrow> Term list \<Rightarrow> string list" where
  "bound_columns (c # cs) (Bind # ts) = c # bound_columns cs ts"
| "bound_columns (c # cs) (Now # ts) = bound_columns cs ts"
| "bound_columns _ _ = []"

fun now_columns :: "string list \<Rightarrow> Term list \<Rightarrow> string list" where
  "now_columns (c # cs) (Bind # ts) = now_columns cs ts"
| "now_columns (c # cs) (Now # ts) = c # now_columns cs ts"
| "now_columns _ _ = []"

text \<open>\<^verbatim>\<open>INSERT\<close> and \<^verbatim>\<open>UPDATE\<close>; \<open>now\<close> is the reading of the clock of the database.\<close>

fun cql_write :: "string option \<Rightarrow> bool \<Rightarrow> millis \<Rightarrow> database \<Rightarrow> Stmt \<Rightarrow> Value list \<Rightarrow> database option" where
  "cql_write session_ks uuid_ok now db (Insert ks t cols terms) vals =
     (case table_of session_ks db ks t of
        None \<Rightarrow> None
      | Some (td, rows) \<Rightarrow>
          (if list_all (\<lambda>c. c \<in> set cols) (primary_key td) then
             (case Option.bind (those (map (col_type td) (bound_columns cols terms)))
                     (\<lambda>tys. encode_all uuid_ok tys vals) of
                None \<Rightarrow> None
              | Some cells \<Rightarrow>
                  Some (db(t \<mapsto> (td, upsert td
                    (map_of (zip (bound_columns cols terms) cells @
                             map (\<lambda>c. (c, CTimestamp now)) (now_columns cols terms))) rows))))
           else None))"
| "cql_write session_ks uuid_ok now db (Update ks t set_cols where_cols) vals =
     (case table_of session_ks db ks t of
        None \<Rightarrow> None
      | Some (td, rows) \<Rightarrow>
          (if set where_cols = set (primary_key td) then
             (case Option.bind (those (map (col_type td) (set_cols @ where_cols)))
                     (\<lambda>tys. encode_all uuid_ok tys vals) of
                None \<Rightarrow> None
              | Some cells \<Rightarrow>
                  Some (db(t \<mapsto> (td, upsert td (map_of (zip (set_cols @ where_cols) cells)) rows))))
           else None))"
| "cql_write session_ks uuid_ok now db _ vals = None"

fun cql_batch ::
  "string option \<Rightarrow> bool \<Rightarrow> millis \<Rightarrow> database \<Rightarrow> Stmt list \<Rightarrow> Value list list \<Rightarrow> database option" where
  "cql_batch session_ks uuid_ok now db [] [] = Some db"
| "cql_batch session_ks uuid_ok now db (s # ss) (v # vs) =
     Option.bind (cql_write session_ks uuid_ok now db s v) (\<lambda>db'. cql_batch session_ks uuid_ok now db' ss vs)"
| "cql_batch session_ks uuid_ok now db _ _ = None"

section \<open>Documented behaviour of the driver\<close>

datatype RustType = String_r | Uuid_r | CqlTimestamp_r

fun reads :: "bool \<Rightarrow> RustType \<Rightarrow> CqlType \<Rightarrow> bool" where
  "reads uuid_ok String_r Text_t = True"
| "reads uuid_ok Uuid_r Timeuuid_t = uuid_ok"
| "reads uuid_ok CqlTimestamp_r Timestamp_t = True"
| "reads uuid_ok _ _ = False"

text \<open>
  \<^verbatim>\<open>rows::<T>()\<close> checks the types of the columns first and then reads row by row; a null is an
  error of its row, since none of the types is an \<^verbatim>\<open>Option\<close>.
\<close>

definition row_read :: "(Cell option list \<Rightarrow> 'a option) \<Rightarrow> Cell option list \<Rightarrow> (string, 'a) result \<Rightarrow> bool" where
  "row_read dec cells x = (case dec cells of Some a \<Rightarrow> x = Inr a | None \<Rightarrow> \<not> is_ok x)"

definition typed_rows ::
  "bool \<Rightarrow> RustType list \<Rightarrow> (Cell option list \<Rightarrow> 'a option) \<Rightarrow> result_set \<Rightarrow>
   (string, (string, 'a) result list) result \<Rightarrow> bool" where
  "typed_rows uuid_ok tys dec rs res =
     (if list_all2 (reads uuid_ok) tys (fst rs)
      then (case res of Inl e \<Rightarrow> False | Inr xs \<Rightarrow> list_all2 (row_read dec) (snd rs) xs)
      else \<not> is_ok res)"

fun dec_conversation :: "Cell option list \<Rightarrow> (string \<times> millis) option" where
  "dec_conversation [Some (CText a), Some (CTimestamp b)] = Some (a, b)"
| "dec_conversation _ = None"

fun dec_history :: "Cell option list \<Rightarrow> (uuid \<times> string \<times> string \<times> string \<times> millis) option" where
  "dec_history [Some (CTimeuuid a), Some (CText b), Some (CText c), Some (CText d), Some (CTimestamp e)] =
     Some (a, b, c, d, e)"
| "dec_history _ = None"

fun dec_message :: "Cell option list \<Rightarrow> (string \<times> uuid \<times> string \<times> string \<times> string \<times> millis) option" where
  "dec_message [Some (CText a), Some (CTimeuuid b), Some (CText c), Some (CText d), Some (CText e),
     Some (CTimestamp f)] = Some (a, b, c, d, e, f)"
| "dec_message _ = None"

fun dec_room_message :: "Cell option list \<Rightarrow> (string \<times> uuid \<times> string \<times> string \<times> millis) option" where
  "dec_room_message [Some (CText a), Some (CTimeuuid b), Some (CText c), Some (CText d), Some (CTimestamp e)] =
     Some (a, b, c, d, e)"
| "dec_room_message _ = None"

fun dec_id :: "Cell option list \<Rightarrow> string option" where
  "dec_id [Some (CText a)] = Some a"
| "dec_id _ = None"

abbreviation conversation_types :: "RustType list" where
  "conversation_types \<equiv> [String_r, CqlTimestamp_r]"

abbreviation history_types :: "RustType list" where
  "history_types \<equiv> [Uuid_r, String_r, String_r, String_r, CqlTimestamp_r]"

abbreviation message_types :: "RustType list" where
  "message_types \<equiv> [String_r, Uuid_r, String_r, String_r, String_r, CqlTimestamp_r]"

abbreviation room_message_types :: "RustType list" where
  "room_message_types \<equiv> [String_r, Uuid_r, String_r, String_r, CqlTimestamp_r]"

record ('w, 'rows, 'p) Backend =
  keyspace :: "string option"
  uuid_ok :: bool
  tkey :: "uuid \<Rightarrow> int"
  contents :: "'w \<Rightarrow> database"
  result_set_of :: "'rows \<Rightarrow> result_set"
  statement_of :: "'p \<Rightarrow> Stmt"

definition select_answered ::
  "('w, 'r, 'rows, 'p) Session \<Rightarrow> ('w, 'rows, 'p) Backend \<Rightarrow> 'w \<Rightarrow> Stmt \<Rightarrow> Value list \<Rightarrow>
   'w \<times> (string, 'r) result \<Rightarrow> bool" where
  "select_answered d b w stmt vals res =
     (contents b (fst res) = contents b w \<and>
      (case cql_select (keyspace b) (uuid_ok b) (tkey b) (contents b w) stmt vals of
         None \<Rightarrow> \<not> is_ok (snd res)
       | Some rs \<Rightarrow> \<exists>r rr. snd res = Inr r \<and> into_rows_result d r = Inr rr \<and> result_set_of b rr = rs))"

definition write_answered :: "('w, 'rows, 'p) Backend \<Rightarrow> 'w \<Rightarrow> database option \<Rightarrow> 'w \<times> (string, 'a) result \<Rightarrow> bool" where
  "write_answered b w outcome res =
     (case outcome of
        None \<Rightarrow> \<not> is_ok (snd res) \<and> contents b (fst res) = contents b w
      | Some db \<Rightarrow> is_ok (snd res) \<and> contents b (fst res) = db)"

fun is_select :: "Stmt \<Rightarrow> bool" where
  "is_select (Select cols ks t conds order limit) = True"
| "is_select _ = False"

definition serves :: "('w, 'r, 'rows, 'p) Session \<Rightarrow> ('w, 'rows, 'p) Backend \<Rightarrow> bool" where
  "serves d b \<longleftrightarrow>
     (\<forall>w stmt vals. is_select stmt \<longrightarrow> select_answered d b w stmt vals (query_unpaged d w stmt vals)) \<and>
     (\<forall>w p vals. is_select (statement_of b p) \<longrightarrow>
        select_answered d b w (statement_of b p) vals (execute_unpaged d w p vals)) \<and>
     (\<forall>w stmt vals. \<not> is_select stmt \<longrightarrow>
        (\<exists>now. write_answered b w (cql_write (keyspace b) (uuid_ok b) now (contents b w) stmt vals)
                 (query_unpaged d w stmt vals))) \<and>
     (\<forall>w stmts vals.
        (\<exists>now. write_answered b w (cql_batch (keyspace b) (uuid_ok b) now (contents b w) stmts vals)
                 (batch d w stmts vals))) \<and>
     (\<forall>w stmt w' p. prepare d w stmt = (w', Inr p) \<longrightarrow> statement_of b p = stmt) \<and>
     (\<forall>rr. typed_rows (uuid_ok b) conversation_types dec_conversation (result_set_of b rr) (rows_conversation d rr)) \<and>
     (\<forall>rr. typed_rows (uuid_ok b) history_types dec_history (result_set_of b rr) (rows_history d rr)) \<and>
     (\<forall>rr. typed_rows (uuid_ok b) message_types dec_message (result_set_of b rr) (rows_message d rr)) \<and>
     (\<forall>rr. typed_rows (uuid_ok b) room_message_types dec_room_message (result_set_of b rr) (rows_room_message d rr)) \<and>
     (\<forall>rr. typed_rows (uuid_ok b) [String_r] dec_id (result_set_of b rr) (rows_id d rr))"

text \<open>The laws one by one, in the form the components use.\<close>

lemma serves_select:
  "serves d b \<Longrightarrow> is_select stmt \<Longrightarrow> select_answered d b w stmt vals (query_unpaged d w stmt vals)"
  by (simp add: serves_def)

lemma serves_execute:
  "serves d b \<Longrightarrow> is_select (statement_of b p) \<Longrightarrow>
   select_answered d b w (statement_of b p) vals (execute_unpaged d w p vals)"
  by (simp add: serves_def)

lemma serves_write:
  "serves d b \<Longrightarrow> \<not> is_select stmt \<Longrightarrow>
   \<exists>now. write_answered b w (cql_write (keyspace b) (uuid_ok b) now (contents b w) stmt vals)
     (query_unpaged d w stmt vals)"
  by (simp add: serves_def)

lemma serves_batch:
  "serves d b \<Longrightarrow>
   \<exists>now. write_answered b w (cql_batch (keyspace b) (uuid_ok b) now (contents b w) stmts vals) (batch d w stmts vals)"
  by (simp add: serves_def)

lemma serves_rows:
  assumes "serves d b"
  shows "typed_rows (uuid_ok b) conversation_types dec_conversation (result_set_of b rr) (rows_conversation d rr)"
    and "typed_rows (uuid_ok b) history_types dec_history (result_set_of b rr) (rows_history d rr)"
    and "typed_rows (uuid_ok b) message_types dec_message (result_set_of b rr) (rows_message d rr)"
    and "typed_rows (uuid_ok b) room_message_types dec_room_message (result_set_of b rr) (rows_room_message d rr)"
    and "typed_rows (uuid_ok b) [String_r] dec_id (result_set_of b rr) (rows_id d rr)"
  using assms by (simp_all add: serves_def)

text \<open>Reading back rows that are all readable.\<close>

lemma typed_rows_ok:
  assumes "typed_rows ok tys dec (ctys, cells) res" and "list_all2 (reads ok) tys ctys"
    and "map dec cells = map Some as"
  shows "bind_result res collect_rows = Inr as"
proof -
  obtain xs where res: "res = Inr xs" and xs: "list_all2 (row_read dec) cells xs"
    using assms(1,2) by (auto simp: typed_rows_def split: sum.splits)
  have "xs = map Inr as"
    using xs assms(3)
  proof (induction cells xs arbitrary: as rule: list_all2_induct)
    case (Cons c cs x xs)
    then obtain a as' where "as = a # as'" "dec c = Some a" "map dec cs = map Some as'"
      by (cases as) auto
    then show ?case using Cons by (simp add: row_read_def)
  qed simp
  then show ?thesis using res by simp
qed

lemma typed_rows_mismatch:
  "typed_rows ok tys dec (ctys, cells) res \<Longrightarrow> \<not> list_all2 (reads ok) tys ctys \<Longrightarrow>
   \<exists>e. bind_result res f = Inl e"
  by (cases res) (auto simp: typed_rows_def)

section \<open>A database in memory\<close>

text \<open>An instance of the hypothesis, for examples.\<close>

definition read_as :: "(Cell option list \<Rightarrow> 'a option) \<Rightarrow> Cell option list \<Rightarrow> (string, 'a) result" where
  "read_as dec cells = (case dec cells of Some a \<Rightarrow> Inr a | None \<Rightarrow> Inl ''null'')"

definition rows_as ::
  "bool \<Rightarrow> RustType list \<Rightarrow> (Cell option list \<Rightarrow> 'a option) \<Rightarrow> result_set \<Rightarrow>
   (string, (string, 'a) result list) result" where
  "rows_as ok tys dec rs =
     (if list_all2 (reads ok) tys (fst rs) then Inr (map (read_as dec) (snd rs)) else Inl ''type check failed'')"

definition mem_query ::
  "string option \<Rightarrow> bool \<Rightarrow> (uuid \<Rightarrow> int) \<Rightarrow> database \<Rightarrow> Stmt \<Rightarrow> Value list \<Rightarrow>
   database \<times> (string, result_set) result" where
  "mem_query ks ok tk db stmt vals =
     (if is_select stmt
      then (case cql_select ks ok tk db stmt vals of None \<Rightarrow> (db, Inl ''invalid'') | Some rs \<Rightarrow> (db, Inr rs))
      else (case cql_write ks ok 0 db stmt vals of None \<Rightarrow> (db, Inl ''invalid'') | Some db' \<Rightarrow> (db', Inr ([], []))))"

definition mem_session ::
  "string option \<Rightarrow> bool \<Rightarrow> (uuid \<Rightarrow> int) \<Rightarrow> (database, result_set, result_set, Stmt) Session" where
  "mem_session ks ok tk =
     \<lparr>query_unpaged = mem_query ks ok tk, prepare = (\<lambda>w stmt. (w, Inr stmt)),
      execute_unpaged = (\<lambda>w q vals. if is_select q then mem_query ks ok tk w q vals else (w, Inr ([], []))),
      batch = (\<lambda>db stmts vals. case cql_batch ks ok 0 db stmts vals of
                 None \<Rightarrow> (db, Inl ''invalid'') | Some db' \<Rightarrow> (db', Inr ())),
      into_rows_result = Inr,
      rows_conversation = rows_as ok conversation_types dec_conversation,
      rows_history = rows_as ok history_types dec_history,
      rows_message = rows_as ok message_types dec_message,
      rows_room_message = rows_as ok room_message_types dec_room_message,
      rows_id = rows_as ok [String_r] dec_id\<rparr>"

definition mem_backend :: "string option \<Rightarrow> bool \<Rightarrow> (uuid \<Rightarrow> int) \<Rightarrow> (database, result_set, Stmt) Backend" where
  "mem_backend ks ok tk =
     \<lparr>keyspace = ks, uuid_ok = ok, tkey = tk, contents = (\<lambda>db. db), result_set_of = (\<lambda>rs. rs),
      statement_of = (\<lambda>s. s)\<rparr>"

lemma rows_as_typed: "typed_rows ok tys dec rs (rows_as ok tys dec rs)"
proof -
  have "list_all2 (row_read dec) cells (map (read_as dec) cells)" for cells
    by (induction cells) (auto simp: row_read_def read_as_def split: option.splits)
  then show ?thesis by (simp add: typed_rows_def rows_as_def)
qed

lemma mem_session_serves: "serves (mem_session ks ok tk) (mem_backend ks ok tk)"
  unfolding serves_def
  by (auto simp: mem_session_def mem_backend_def rows_as_typed mem_query_def select_answered_def
      write_answered_def split: option.splits)

end
