(* ===== verification/Migrations.thy ===== *)
theory Migrations
  imports Cql
begin

text \<open>
  \<^verbatim>\<open>chat-service/src/migrations/migration.rs\<close> and the part of \<^verbatim>\<open>chat-service/src/main.rs\<close> that opens
  the session of the service. \<open>connect node ks\<close> stands for \<^verbatim>\<open>SessionBuilder\<close>: it opens a session at
  \<open>node\<close>, with the keyspace \<open>ks\<close> where \<^verbatim>\<open>use_keyspace\<close> was called. Lines written with \<^verbatim>\<open>println!\<close> are
  left out.
\<close>

section \<open>Tables\<close>

definition projects_table :: TableDef where
  "projects_table = \<lparr>columns = [(''project_id'', Text_t), (''name'', Text_t), (''created_at'', Timestamp_t)],
     partition_key = [''project_id''], clustering_key = []\<rparr>"

definition direct_messages_table :: TableDef where
  "direct_messages_table =
     \<lparr>columns = [(''project_id'', Text_t), (''conversation_id'', Text_t), (''message_id'', Timeuuid_t),
        (''sender_id'', Text_t), (''recipient_id'', Text_t), (''message_text'', Text_t),
        (''created_at'', Timestamp_t)],
      partition_key = [''project_id'', ''conversation_id''], clustering_key = [''message_id'']\<rparr>"

definition user_conversations_table :: TableDef where
  "user_conversations_table =
     \<lparr>columns = [(''project_id'', Text_t), (''user_id'', Text_t), (''conversation_id'', Text_t),
        (''last_message'', Timestamp_t)],
      partition_key = [''project_id'', ''user_id''], clustering_key = [''conversation_id'']\<rparr>"

definition dm_lookup_table :: TableDef where
  "dm_lookup_table =
     \<lparr>columns = [(''project_id'', Text_t), (''user_id_1'', Text_t), (''user_id_2'', Text_t),
        (''conversation_id'', Text_t), (''created_at'', Timestamp_t)],
      partition_key = [''project_id'', ''user_id_1'', ''user_id_2''], clustering_key = []\<rparr>"

definition room_messages_table :: TableDef where
  "room_messages_table =
     \<lparr>columns = [(''project_id'', Text_t), (''room_id'', Text_t), (''message_id'', Timeuuid_t),
        (''sender_id'', Text_t), (''content'', Text_t), (''created_at'', Timestamp_t)],
      partition_key = [''project_id'', ''room_id''], clustering_key = [''message_id'']\<rparr>"

definition project_rooms_table :: TableDef where
  "project_rooms_table =
     \<lparr>columns = [(''project_id'', Text_t), (''room_id'', Text_t), (''last_activity'', Timestamp_t)],
      partition_key = [''project_id''], clustering_key = [''room_id'']\<rparr>"

section \<open>Migrations\<close>

definition run_statement :: "('w, 'r, 'rows, 'p) Session \<Rightarrow> 'w \<Rightarrow> Stmt \<Rightarrow> 'w \<times> (string, unit) result" where
  "run_statement d w query =
     and_then (prepare d w query) (\<lambda>w p. and_then (execute_unpaged d w p []) (\<lambda>w _. (w, Inr ())))"

definition create_keyspace :: "('w, 'r, 'rows, 'p) Session \<Rightarrow> 'w \<Rightarrow> 'w \<times> (string, unit) result" where
  "create_keyspace d w = run_statement d w (CreateKeyspace ''affinity'')"

definition use_keyspace :: "('w, 'r, 'rows, 'p) Session \<Rightarrow> 'w \<Rightarrow> 'w \<times> (string, unit) result" where
  "use_keyspace d w = run_statement d w (Use ''affinity'')"

definition create_projects_table :: "('w, 'r, 'rows, 'p) Session \<Rightarrow> 'w \<Rightarrow> 'w \<times> (string, unit) result" where
  "create_projects_table d w = run_statement d w (CreateTable ''projects'' projects_table)"

definition create_direct_messages_table :: "('w, 'r, 'rows, 'p) Session \<Rightarrow> 'w \<Rightarrow> 'w \<times> (string, unit) result" where
  "create_direct_messages_table d w = run_statement d w (CreateTable ''direct_messages'' direct_messages_table)"

definition create_user_conversations_table :: "('w, 'r, 'rows, 'p) Session \<Rightarrow> 'w \<Rightarrow> 'w \<times> (string, unit) result" where
  "create_user_conversations_table d w =
     run_statement d w (CreateTable ''user_conversations'' user_conversations_table)"

definition create_dm_lookup_table :: "('w, 'r, 'rows, 'p) Session \<Rightarrow> 'w \<Rightarrow> 'w \<times> (string, unit) result" where
  "create_dm_lookup_table d w = run_statement d w (CreateTable ''dm_lookup'' dm_lookup_table)"

definition create_room_messages_table :: "('w, 'r, 'rows, 'p) Session \<Rightarrow> 'w \<Rightarrow> 'w \<times> (string, unit) result" where
  "create_room_messages_table d w = run_statement d w (CreateTable ''room_messages'' room_messages_table)"

definition create_project_rooms_table :: "('w, 'r, 'rows, 'p) Session \<Rightarrow> 'w \<Rightarrow> 'w \<times> (string, unit) result" where
  "create_project_rooms_table d w = run_statement d w (CreateTable ''project_rooms'' project_rooms_table)"

definition create_tables :: "('w, 'r, 'rows, 'p) Session \<Rightarrow> 'w \<Rightarrow> 'w \<times> (string, unit) result" where
  "create_tables d w =
     and_then (create_projects_table d w) (\<lambda>w _.
     and_then (create_direct_messages_table d w) (\<lambda>w _.
     and_then (create_user_conversations_table d w) (\<lambda>w _.
     and_then (create_dm_lookup_table d w) (\<lambda>w _.
     and_then (create_room_messages_table d w) (\<lambda>w _.
     and_then (create_project_rooms_table d w) (\<lambda>w _. (w, Inr ())))))))"

definition run_migrations :: "('w, 'r, 'rows, 'p) Session \<Rightarrow> 'w \<Rightarrow> 'w \<times> (string, unit) result" where
  "run_migrations d w =
     and_then (create_keyspace d w) (\<lambda>w _.
     and_then (use_keyspace d w) (\<lambda>w _.
     and_then (create_tables d w) (\<lambda>w _. (w, Inr ()))))"

section \<open>Opening the session of the service\<close>

type_synonym ('w, 'r, 'rows, 'p) connector =
  "string \<Rightarrow> string option \<Rightarrow> 'w \<Rightarrow> 'w \<times> (string, ('w, 'r, 'rows, 'p) Session) result"

text \<open>\<^verbatim>\<open>DatabaseMigrations::new\<close>.\<close>

definition migrations_new ::
  "('w, 'r, 'rows, 'p) connector \<Rightarrow> 'w \<Rightarrow> string \<Rightarrow> 'w \<times> (string, ('w, 'r, 'rows, 'p) Session) result" where
  "migrations_new connect w node = and_then (connect node None w) (\<lambda>w session. (w, Inr session))"

definition run_database_migrations ::
  "('w, 'r, 'rows, 'p) connector \<Rightarrow> 'w \<Rightarrow> string \<Rightarrow> 'w \<times> (string, ('w, 'r, 'rows, 'p) Session) result" where
  "run_database_migrations connect w node =
     and_then (migrations_new connect w node) (\<lambda>w migrations.
     and_then (run_migrations migrations w) (\<lambda>w _.
     and_then (connect node (Some ''affinity'') w) (\<lambda>w app_session. (w, Inr app_session))))"

definition q_fetch_after :: Stmt where
  "q_fetch_after = Select [''conversation_id'', ''message_id'', ''sender_id'', ''recipient_id'',
      ''message_text'', ''created_at''] (Some ''affinity'') ''direct_messages''
     [(''project_id'', Eq), (''conversation_id'', Eq), (''message_id'', Gt)] None None"

definition prepare_queries :: "('w, 'r, 'rows, 'p) Session \<Rightarrow> 'w \<Rightarrow> 'w \<times> (string, 'p) result" where
  "prepare_queries session w = prepare session w q_fetch_after"

text \<open>\<^verbatim>\<open>main\<close> up to the construction of \<^verbatim>\<open>ChatServiceImpl\<close>: the session and the prepared query it gets.\<close>

definition service_start ::
  "('w, 'r, 'rows, 'p) connector \<Rightarrow> 'w \<Rightarrow> string \<Rightarrow> 'w \<times> (string, ('w, 'r, 'rows, 'p) Session \<times> 'p) result" where
  "service_start connect w scylla_host =
     and_then (run_database_migrations connect w scylla_host) (\<lambda>w _.
     and_then (connect scylla_host None w) (\<lambda>w session.
     and_then (prepare_queries session w) (\<lambda>w queries. (w, Inr (session, queries)))))"

lemmas migration_defs = create_keyspace_def use_keyspace_def create_projects_table_def
  create_direct_messages_table_def create_user_conversations_table_def create_dm_lookup_table_def
  create_room_messages_table_def create_project_rooms_table_def create_tables_def run_migrations_def

section \<open>Properties\<close>

text \<open>The statements of the migrations, in order.\<close>

definition migration_statements :: "Stmt list" where
  "migration_statements =
     [CreateKeyspace ''affinity'', Use ''affinity'',
      CreateTable ''projects'' projects_table, CreateTable ''direct_messages'' direct_messages_table,
      CreateTable ''user_conversations'' user_conversations_table,
      CreateTable ''dm_lookup'' dm_lookup_table, CreateTable ''room_messages'' room_messages_table,
      CreateTable ''project_rooms'' project_rooms_table]"

fun run_all :: "('w, 'r, 'rows, 'p) Session \<Rightarrow> 'w \<Rightarrow> Stmt list \<Rightarrow> 'w \<times> (string, unit) result" where
  "run_all d w [] = (w, Inr ())"
| "run_all d w (s # ss) = and_then (run_statement d w s) (\<lambda>w _. run_all d w ss)"

text \<open>
  The migrations send their eight statements in the order keyspace, \<^verbatim>\<open>USE\<close>, tables, and stop at
  the first that fails, with its error.
\<close>

lemma run_migrations_in_order: "run_migrations d w = run_all d w migration_statements"
  by (simp add: migration_defs migration_statements_def and_then_assoc and_then_unit)

text \<open>
  The service runs on the session that \<^verbatim>\<open>main\<close> opens itself, without a keyspace; the session with
  the keyspace \<^verbatim>\<open>affinity\<close> that the migrations return is dropped.
\<close>

lemma service_start_session:
  assumes "service_start connect w node = (w', Inr (session, queries))"
  shows "\<exists>w1 w2. connect node None w1 = (w2, Inr session)"
  using assms
  by (auto simp: service_start_def and_then_def split: prod.splits sum.splits)

end
