(* ===== verification/Chat_Queries.thy ===== *)
theory Chat_Queries
  imports Migrations
begin

text \<open>
  \<^verbatim>\<open>chat-service/src/queries.rs\<close> and the row types of \<^verbatim>\<open>chat-service/src/utils.rs\<close>: one definition per
  function, with the driver and the state of the database as arguments. The statements have names
  of their own (\<open>q_\<dots>\<close>).
\<close>

section \<open>Rows\<close>

record DirectMessageRow =
  project_id :: string
  conversation_id :: string
  message_id :: uuid
  sender_id :: string
  recipient_id :: string
  message_text :: string
  created_at :: millis

record DbMessage =
  conversation_id :: string
  message_id :: uuid
  sender_id :: string
  recipient_id :: string
  message_text :: string
  created_at :: millis

record DbRoomMessage =
  room_id :: string
  message_id :: uuid
  sender_id :: string
  content :: string
  created_at :: millis

record DbRoomMessageEx =
  project_id :: string
  room_id :: string
  message_id :: uuid
  sender_id :: string
  content :: string
  created_at :: millis

section \<open>Statements\<close>

definition q_user_conversations :: Stmt where
  "q_user_conversations = Select [''conversation_id'', ''last_message''] (Some ''affinity'') ''user_conversations''
     [(''project_id'', Eq), (''user_id'', Eq)] None None"

definition q_conversation_history :: Stmt where
  "q_conversation_history = Select [''message_id'', ''message_text'', ''sender_id'', ''recipient_id'', ''created_at'']
     None ''direct_messages'' [(''project_id'', Eq), (''conversation_id'', Eq)] None None"

definition q_messages_without_cursor :: Stmt where
  "q_messages_without_cursor = Select
     [''conversation_id'', ''message_id'', ''sender_id'', ''recipient_id'', ''message_text'', ''created_at'']
     None ''direct_messages'' [(''project_id'', Eq), (''conversation_id'', Eq)]
     (Some (''message_id'', True)) (Some 50)"

definition q_messages_with_cursor :: Stmt where
  "q_messages_with_cursor = Select
     [''conversation_id'', ''message_id'', ''sender_id'', ''recipient_id'', ''message_text'', ''created_at'']
     None ''direct_messages'' [(''project_id'', Eq), (''conversation_id'', Eq), (''message_id'', Lt)]
     (Some (''message_id'', True)) (Some 50)"

definition q_room_without_cursor :: Stmt where
  "q_room_without_cursor = Select [''room_id'', ''message_id'', ''sender_id'', ''content'', ''created_at'']
     None ''room_messages'' [(''project_id'', Eq), (''room_id'', Eq)] (Some (''message_id'', True)) (Some 50)"

definition q_room_with_cursor :: Stmt where
  "q_room_with_cursor = Select [''room_id'', ''message_id'', ''sender_id'', ''content'', ''created_at'']
     None ''room_messages'' [(''project_id'', Eq), (''room_id'', Eq), (''message_id'', Lt)]
     (Some (''message_id'', True)) (Some 50)"

definition q_insert_direct_message :: Stmt where
  "q_insert_direct_message = Insert (Some ''affinity'') ''direct_messages''
     [''project_id'', ''conversation_id'', ''message_id'', ''sender_id'', ''recipient_id'', ''message_text'', ''created_at'']
     [Bind, Bind, Bind, Bind, Bind, Bind, Bind]"

definition q_insert_user_conversation :: Stmt where
  "q_insert_user_conversation = Insert (Some ''affinity'') ''user_conversations''
     [''project_id'', ''user_id'', ''conversation_id'', ''last_message''] [Bind, Bind, Bind, Bind]"

definition q_insert_room_message :: Stmt where
  "q_insert_room_message = Insert (Some ''affinity'') ''room_messages''
     [''project_id'', ''room_id'', ''message_id'', ''sender_id'', ''content'', ''created_at'']
     [Bind, Bind, Bind, Bind, Bind, Bind]"

definition q_update_project_room :: Stmt where
  "q_update_project_room = Update (Some ''affinity'') ''project_rooms'' [''last_activity''] [''project_id'', ''room_id'']"

definition q_select_dm_lookup :: Stmt where
  "q_select_dm_lookup = Select [''conversation_id''] (Some ''affinity'') ''dm_lookup''
     [(''project_id'', Eq), (''user_id_1'', Eq), (''user_id_2'', Eq)] None None"

definition q_insert_dm_lookup :: Stmt where
  "q_insert_dm_lookup = Insert (Some ''affinity'') ''dm_lookup''
     [''project_id'', ''user_id_1'', ''user_id_2'', ''conversation_id'', ''created_at'']
     [Bind, Bind, Bind, Bind, Now]"

lemmas statement_defs = q_user_conversations_def q_conversation_history_def q_messages_without_cursor_def
  q_messages_with_cursor_def q_room_without_cursor_def q_room_with_cursor_def q_insert_direct_message_def
  q_insert_user_conversation_def q_insert_room_message_def q_update_project_room_def
  q_select_dm_lookup_def q_insert_dm_lookup_def q_fetch_after_def

section \<open>Reading\<close>

text \<open>
  \<^verbatim>\<open>result.into_rows_result()?.rows::<T>()?\<close> and the loop over the rows that ends every fetch.
\<close>

definition read_rows ::
  "('w, 'r, 'rows, 'p) Session \<Rightarrow> ('rows \<Rightarrow> (string, (string, 'a) result list) result) \<Rightarrow> 'r \<Rightarrow>
   (string, 'a list) result" where
  "read_rows session rows result =
     bind_result (into_rows_result session result) (\<lambda>rr. bind_result (rows rr) collect_rows)"

definition fetch_user_conversations ::
  "('w, 'r, 'rows, 'p) Session \<Rightarrow> 'w \<Rightarrow> string \<Rightarrow> string \<Rightarrow> 'w \<times> (string, (string \<times> millis) list) result" where
  "fetch_user_conversations session w pid uid =
     and_then (query_unpaged session w q_user_conversations [TextV pid, TextV uid]) (\<lambda>w result.
       (w, read_rows session (rows_conversation session) result))"

definition fetch_conversation_history ::
  "('w, 'r, 'rows, 'p) Session \<Rightarrow> 'w \<Rightarrow> string \<Rightarrow> string \<Rightarrow>
   'w \<times> (string, (uuid \<times> string \<times> string \<times> string \<times> millis) list) result" where
  "fetch_conversation_history session w pid conv =
     and_then (query_unpaged session w q_conversation_history [TextV pid, TextV conv]) (\<lambda>w result.
       (w, read_rows session (rows_history session) result))"

definition db_message :: "string \<times> uuid \<times> string \<times> string \<times> string \<times> millis \<Rightarrow> DbMessage" where
  "db_message = (\<lambda>(conv_id, msg_id, sender, recipient, msg_text, created).
     \<lparr>DbMessage.conversation_id = conv_id, DbMessage.message_id = msg_id, DbMessage.sender_id = sender,
      DbMessage.recipient_id = recipient, DbMessage.message_text = msg_text, DbMessage.created_at = created\<rparr>)"

definition db_room_message :: "string \<times> uuid \<times> string \<times> string \<times> millis \<Rightarrow> DbRoomMessage" where
  "db_room_message = (\<lambda>(rm_id, msg_id, sender, text, created).
     \<lparr>DbRoomMessage.room_id = rm_id, DbRoomMessage.message_id = msg_id, DbRoomMessage.sender_id = sender,
      DbRoomMessage.content = text, DbRoomMessage.created_at = created\<rparr>)"

definition fetch_paginated_messages ::
  "('w, 'r, 'rows, 'p) Session \<Rightarrow> 'w \<Rightarrow> string \<Rightarrow> string \<Rightarrow> uuid option \<Rightarrow> 'w \<times> (string, DbMessage list) result" where
  "fetch_paginated_messages session w pid conv cursor =
     and_then
       (case cursor of
          Some mid \<Rightarrow> query_unpaged session w q_messages_with_cursor [TextV pid, TextV conv, UuidV mid]
        | None \<Rightarrow> query_unpaged session w q_messages_without_cursor [TextV pid, TextV conv])
       (\<lambda>w result. (w, map_sum (\<lambda>e. e) (map db_message) (read_rows session (rows_message session) result)))"

definition fetch_paginated_room_messages ::
  "('w, 'r, 'rows, 'p) Session \<Rightarrow> 'w \<Rightarrow> string \<Rightarrow> string \<Rightarrow> uuid option \<Rightarrow> 'w \<times> (string, DbRoomMessage list) result" where
  "fetch_paginated_room_messages session w pid rid cursor =
     and_then
       (case cursor of
          Some mid \<Rightarrow> query_unpaged session w q_room_with_cursor [TextV pid, TextV rid, UuidV mid]
        | None \<Rightarrow> query_unpaged session w q_room_without_cursor [TextV pid, TextV rid])
       (\<lambda>w result. (w, map_sum (\<lambda>e. e) (map db_room_message) (read_rows session (rows_room_message session) result)))"

definition fetch_messages_after ::
  "('w, 'r, 'rows, 'p) Session \<Rightarrow> 'p \<Rightarrow> 'w \<Rightarrow> string \<Rightarrow> string \<Rightarrow> uuid \<Rightarrow> 'w \<times> (string, DbMessage list) result" where
  "fetch_messages_after session queries w pid conv after_message_id =
     and_then (execute_unpaged session w queries [TextV pid, TextV conv, UuidV after_message_id])
       (\<lambda>w res. (w, map_sum (\<lambda>e. e) (map db_message) (read_rows session (rows_message session) res)))"

section \<open>Writing\<close>

definition write_direct_message ::
  "('w, 'r, 'rows, 'p) Session \<Rightarrow> 'w \<Rightarrow> DirectMessageRow \<Rightarrow> 'w \<times> (string, unit) result" where
  "write_direct_message session w m =
     batch session w [q_insert_direct_message, q_insert_user_conversation, q_insert_user_conversation]
       [[TextV (DirectMessageRow.project_id m), TextV (DirectMessageRow.conversation_id m),
         TimeuuidV (DirectMessageRow.message_id m), TextV (DirectMessageRow.sender_id m),
         TextV (DirectMessageRow.recipient_id m), TextV (DirectMessageRow.message_text m),
         TimestampV (DirectMessageRow.created_at m)],
        [TextV (DirectMessageRow.project_id m), TextV (DirectMessageRow.sender_id m),
         TextV (DirectMessageRow.conversation_id m), TimestampV (DirectMessageRow.created_at m)],
        [TextV (DirectMessageRow.project_id m), TextV (DirectMessageRow.recipient_id m),
         TextV (DirectMessageRow.conversation_id m), TimestampV (DirectMessageRow.created_at m)]]"

definition write_room_message_row ::
  "('w, 'r, 'rows, 'p) Session \<Rightarrow> 'w \<Rightarrow> DbRoomMessageEx \<Rightarrow> 'w \<times> (string, unit) result" where
  "write_room_message_row session w m =
     batch session w [q_insert_room_message, q_update_project_room]
       [[TextV (DbRoomMessageEx.project_id m), TextV (DbRoomMessageEx.room_id m),
         UuidV (DbRoomMessageEx.message_id m), TextV (DbRoomMessageEx.sender_id m),
         TextV (DbRoomMessageEx.content m), TimestampV (DbRoomMessageEx.created_at m)],
        [TimestampV (DbRoomMessageEx.created_at m), TextV (DbRoomMessageEx.project_id m),
         TextV (DbRoomMessageEx.room_id m)]]"

text \<open>
  \<^verbatim>\<open>getsert_conversation_id\<close>, in its two database operations: the lookup, which answers an existing
  conversation or none, and the insert. \<open>new_id\<close> is the value of \<^verbatim>\<open>Uuid::new_v4().to_string()\<close>. Of
  the rows of the lookup only the first is read.
\<close>

definition ordered_pair :: "string \<Rightarrow> string \<Rightarrow> string \<times> string" where
  "ordered_pair user_a user_b = (if user_a < user_b then (user_a, user_b) else (user_b, user_a))"

definition getsert_lookup ::
  "('w, 'r, 'rows, 'p) Session \<Rightarrow> 'w \<Rightarrow> string \<Rightarrow> string \<times> string \<Rightarrow> 'w \<times> (string, string option) result" where
  "getsert_lookup session w pid users =
     and_then (query_unpaged session w q_select_dm_lookup [TextV pid, TextV (fst users), TextV (snd users)])
       (\<lambda>w result.
          case into_rows_result session result of
            Inl e \<Rightarrow> (w, Inr None)
          | Inr rows_result \<Rightarrow>
              (case rows_id session rows_result of
                 Inl e \<Rightarrow> (w, Inl e)
               | Inr [] \<Rightarrow> (w, Inr None)
               | Inr (Inl e # rest) \<Rightarrow> (w, Inl e)
               | Inr (Inr existing_conv_id # rest) \<Rightarrow> (w, Inr (Some existing_conv_id))))"

definition getsert_insert ::
  "('w, 'r, 'rows, 'p) Session \<Rightarrow> string \<Rightarrow> 'w \<Rightarrow> string \<Rightarrow> string \<times> string \<Rightarrow> 'w \<times> (string, string \<times> bool) result" where
  "getsert_insert session new_id w pid users =
     and_then (query_unpaged session w q_insert_dm_lookup
         [TextV pid, TextV (fst users), TextV (snd users), TextV new_id])
       (\<lambda>w _. (w, Inr (new_id, True)))"

definition getsert_conversation_id ::
  "('w, 'r, 'rows, 'p) Session \<Rightarrow> string \<Rightarrow> 'w \<Rightarrow> string \<Rightarrow> string \<Rightarrow> string \<Rightarrow> 'w \<times> (string, string \<times> bool) result" where
  "getsert_conversation_id session new_id w pid user_a user_b =
     and_then (getsert_lookup session w pid (ordered_pair user_a user_b)) (\<lambda>w found.
       case found of
         Some existing_conv_id \<Rightarrow> (w, Inr (existing_conv_id, False))
       | None \<Rightarrow> getsert_insert session new_id w pid (ordered_pair user_a user_b))"

section \<open>What the tables hold\<close>

text \<open>
  \<open>table_ok cols dec td rows\<close>: every row has the columns \<open>cols\<close>, readable by \<open>dec\<close>, and no two rows
  have the same primary key.
\<close>

definition row_keys :: "TableDef \<Rightarrow> row list \<Rightarrow> Cell option list list" where
  "row_keys td rows = map (\<lambda>r. map r (primary_key td)) rows"

definition table_ok :: "string list \<Rightarrow> (Cell option list \<Rightarrow> 'a option) \<Rightarrow> TableDef \<Rightarrow> row list \<Rightarrow> bool" where
  "table_ok cols dec td rows \<longleftrightarrow>
     list_all (\<lambda>r. dec (map r cols) \<noteq> None) rows \<and> distinct (row_keys td rows)"

abbreviation message_columns :: "string list" where
  "message_columns \<equiv> [''conversation_id'', ''message_id'', ''sender_id'', ''recipient_id'', ''message_text'', ''created_at'']"

abbreviation room_message_columns :: "string list" where
  "room_message_columns \<equiv> [''room_id'', ''message_id'', ''sender_id'', ''content'', ''created_at'']"

definition dm_table_ok :: "database \<Rightarrow> bool" where
  "dm_table_ok db =
     (case db ''direct_messages'' of
        None \<Rightarrow> False
      | Some (td, rows) \<Rightarrow> td = direct_messages_table \<and> table_ok message_columns dec_message td rows)"

definition room_table_ok :: "database \<Rightarrow> bool" where
  "room_table_ok db =
     (case db ''room_messages'' of
        None \<Rightarrow> False
      | Some (td, rows) \<Rightarrow> td = room_messages_table \<and> table_ok room_message_columns dec_room_message td rows)"

text \<open>
  The history of a conversation and of a room: the messages of one partition, newest first by the
  order of \<^verbatim>\<open>timeuuid\<close>. This is the specification the reads are compared with.
\<close>

definition in_partition :: "string \<Rightarrow> string \<Rightarrow> string \<Rightarrow> row \<Rightarrow> bool" where
  "in_partition col pid x r \<longleftrightarrow> r ''project_id'' = Some (CText pid) \<and> r col = Some (CText x)"

definition row_message :: "row \<Rightarrow> DbMessage" where
  "row_message r = db_message (the (dec_message (map r message_columns)))"

definition row_room_message :: "row \<Rightarrow> DbRoomMessage" where
  "row_room_message r = db_room_message (the (dec_room_message (map r room_message_columns)))"

definition history :: "(uuid \<Rightarrow> int) \<Rightarrow> database \<Rightarrow> string \<Rightarrow> string \<Rightarrow> DbMessage list" where
  "history tk db pid conv =
     (case db ''direct_messages'' of
        None \<Rightarrow> []
      | Some (td, rows) \<Rightarrow>
          rev (sort_key (\<lambda>m. tk (DbMessage.message_id m))
            (map row_message (filter (in_partition ''conversation_id'' pid conv) rows))))"

definition room_history :: "(uuid \<Rightarrow> int) \<Rightarrow> database \<Rightarrow> string \<Rightarrow> string \<Rightarrow> DbRoomMessage list" where
  "room_history tk db pid rid =
     (case db ''room_messages'' of
        None \<Rightarrow> []
      | Some (td, rows) \<Rightarrow>
          rev (sort_key (\<lambda>m. tk (DbRoomMessage.message_id m))
            (map row_room_message (filter (in_partition ''room_id'' pid rid) rows))))"

section \<open>Sorting\<close>

lemma insort_key_map: "insort_key f (g x) (map g xs) = map g (insort_key (\<lambda>x. f (g x)) x xs)"
  by (induction xs) auto

lemma sort_key_map: "sort_key f (map g xs) = map g (sort_key (\<lambda>x. f (g x)) xs)"
  by (induction xs) (auto simp: insort_key_map)

lemma insort_key_cong:
  "\<forall>y\<in>set xs. f x \<le> f y \<longleftrightarrow> g x \<le> g y \<Longrightarrow> insort_key f x xs = insort_key g x xs"
  by (induction xs) auto

lemma sort_key_cong_order:
  "\<forall>x\<in>set xs. \<forall>y\<in>set xs. f x \<le> f y \<longleftrightarrow> g x \<le> g y \<Longrightarrow> sort_key f xs = sort_key g xs"
  by (induction xs) (auto intro!: insort_key_cong)

lemma singleton_list_le [simp]: "[a] \<le> [b] \<longleftrightarrow> a \<le> (b :: 'a :: linorder)"
  by auto

lemma singleton_list_less [simp]: "[a] < [b] \<longleftrightarrow> a < (b :: 'a :: linorder)"
  by auto

section \<open>Reads against the specification\<close>

lemma dec_message_SomeE:
  assumes "dec_message cs = Some x"
  obtains a u c d e f where
    "cs = [Some (CText a), Some (CTimeuuid u), Some (CText c), Some (CText d), Some (CText e), Some (CTimestamp f)]"
    "x = (a, u, c, d, e, f)"
  using assms by (cases cs rule: dec_message.cases) auto

lemma dec_room_message_SomeE:
  assumes "dec_room_message cs = Some x"
  obtains a u c d f where
    "cs = [Some (CText a), Some (CTimeuuid u), Some (CText c), Some (CText d), Some (CTimestamp f)]"
    "x = (a, u, c, d, f)"
  using assms by (cases cs rule: dec_room_message.cases) auto

lemma arrange_by_message_id:
  assumes "clustering_key td = [''message_id'']"
    and "\<forall>r\<in>set rows. r ''message_id'' = Some (CTimeuuid (mid (g r)))"
  shows "map g (sort_key (clustering_place tk td) rows) = sort_key (\<lambda>m. tk (mid m)) (map g rows)"
proof -
  have "sort_key (clustering_place tk td) rows = sort_key (\<lambda>r. tk (mid (g r))) rows"
  proof (intro sort_key_cong_order ballI)
    fix x y
    assume "x \<in> set rows" "y \<in> set rows"
    then have "x ''message_id'' = Some (CTimeuuid (mid (g x)))" "y ''message_id'' = Some (CTimeuuid (mid (g y)))"
      using assms(2) by blast+
    then show "clustering_place tk td x \<le> clustering_place tk td y \<longleftrightarrow> tk (mid (g x)) \<le> tk (mid (g y))"
      by (auto simp: clustering_place_def assms(1))
  qed
  then show ?thesis by (simp add: sort_key_map)
qed

lemma rev_sort_filter:
  "rev (sort_key f (map g (filter (\<lambda>r. P (g r)) rows))) = filter P (rev (sort_key f (map g rows)))"
  by (simp add: rev_filter [symmetric] filter_sort filter_map comp_def)

lemma dm_rowE:
  assumes "table_ok message_columns dec_message td rows" and "r \<in> set rows"
  shows "dec_message (map r message_columns) = Some (the (dec_message (map r message_columns))) \<and>
    r ''message_id'' = Some (CTimeuuid (DbMessage.message_id (row_message r))) \<and>
    r ''conversation_id'' = Some (CText (DbMessage.conversation_id (row_message r)))"
proof -
  obtain x where "dec_message (map r message_columns) = Some x"
    using assms by (auto simp: table_ok_def list_all_iff)
  then show ?thesis
    by (elim dec_message_SomeE) (simp add: row_message_def db_message_def)
qed

lemma room_rowE:
  assumes "table_ok room_message_columns dec_room_message td rows" and "r \<in> set rows"
  shows "dec_room_message (map r room_message_columns) = Some (the (dec_room_message (map r room_message_columns))) \<and>
    r ''message_id'' = Some (CTimeuuid (DbRoomMessage.message_id (row_room_message r))) \<and>
    r ''room_id'' = Some (CText (DbRoomMessage.room_id (row_room_message r)))"
proof -
  obtain x where "dec_room_message (map r room_message_columns) = Some x"
    using assms by (auto simp: table_ok_def list_all_iff)
  then show ?thesis
    by (elim dec_room_message_SomeE) (simp add: row_room_message_def db_room_message_def)
qed

text \<open>A fetch whose statement is accepted and whose rows are all readable.\<close>

lemma read_answered:
  assumes "select_answered d b w stmt vals res"
    and "cql_select (keyspace b) (uuid_ok b) (tkey b) (contents b w) stmt vals = Some (ctys, cells)"
    and "\<And>rr. typed_rows (uuid_ok b) tys dec (result_set_of b rr) (rows rr)"
    and "list_all2 (reads (uuid_ok b)) tys ctys"
    and "map dec cells = map Some as"
  shows "\<exists>w'. and_then res (\<lambda>w r. (w, read_rows d rows r)) = (w', Inr as) \<and> contents b w' = contents b w"
proof -
  obtain r rr where r: "snd res = Inr r" "into_rows_result d r = Inr rr" "result_set_of b rr = (ctys, cells)"
    and c: "contents b (fst res) = contents b w"
    using assms(1,2) by (auto simp: select_answered_def)
  have "bind_result (rows rr) collect_rows = Inr as"
    using typed_rows_ok [OF _ assms(4,5)] assms(3) [of rr] r(3) by metis
  then show ?thesis
    using r(1,2) c by (cases res) (auto simp: read_rows_def)
qed

lemma read_refused:
  assumes "select_answered d b w stmt vals res"
    and "cql_select (keyspace b) (uuid_ok b) (tkey b) (contents b w) stmt vals = None"
  shows "\<exists>e w'. and_then res f = (w', Inl e) \<and> contents b w' = contents b w"
  using assms by (cases res; cases "snd res") (auto simp: select_answered_def)

lemma read_type_mismatch:
  assumes "select_answered d b w stmt vals res"
    and "cql_select (keyspace b) (uuid_ok b) (tkey b) (contents b w) stmt vals = Some (ctys, cells)"
    and "\<And>rr. typed_rows (uuid_ok b) tys dec (result_set_of b rr) (rows rr)"
    and "\<not> list_all2 (reads (uuid_ok b)) tys ctys"
  shows "\<exists>e w'. and_then res (\<lambda>w r. (w, read_rows d rows r)) = (w', Inl e) \<and> contents b w' = contents b w"
proof -
  obtain r rr where r: "snd res = Inr r" "into_rows_result d r = Inr rr" "result_set_of b rr = (ctys, cells)"
    and c: "contents b (fst res) = contents b w"
    using assms(1,2) by (auto simp: select_answered_def)
  have "\<exists>e. bind_result (rows rr) collect_rows = Inl e"
    using typed_rows_mismatch [OF _ assms(4)] assms(3) [of rr] r(3) by metis
  then show ?thesis
    using r(1,2) c by (cases res) (auto simp: read_rows_def)
qed

lemma and_then_map_ok:
  "and_then res (\<lambda>w r. (w, read_rows d rows r)) = (w', Inr as) \<Longrightarrow>
   and_then res (\<lambda>w r. (w, map_sum (\<lambda>e. e) f (read_rows d rows r))) = (w', Inr (f as))"
  by (auto simp: and_then_def split: prod.splits sum.splits)

lemma and_then_map_error:
  "and_then res (\<lambda>w r. (w, read_rows d rows r)) = (w', Inl e) \<Longrightarrow>
   and_then res (\<lambda>w r. (w, map_sum (\<lambda>e. e) f (read_rows d rows r))) = (w', Inl e)"
  by (auto simp: and_then_def split: prod.splits sum.splits)

end
