(* ===== verification/Interfaces.thy ===== *)
theory Interfaces
  imports Prelude
begin

text \<open>
  The contracts the actors of \<^verbatim>\<open>peroxo/src/actors\<close> share.

  \<^item> \<open>actor\<close>: a task that owns its state and handles one message at a time
    (\<^verbatim>\<open>while let Some(m) = self.receiver.recv().await { ... }\<close>). A handler may panic; the law
    is that under the invariant it does not, and keeps the invariant. The whole loop then
    never panics and keeps it.
  \<^item> \<open>registry\<close>: a keyed table of channel handles in which the first registration wins
    (\<^verbatim>\<open>MessageRouter::users\<close> and \<^verbatim>\<open>RoomActor::members\<close>). Its laws say that it implements
    an abstract map; the client lemmas lift this to any sequence of registrations and removals.
  \<^item> \<open>paged_source\<close>: a read that answers a history in pages of fifty, newest first, with a cursor
    for the next page. A client that follows the cursors reads the whole history.
\<close>

section \<open>Actors\<close>

fun actor_run :: "('s \<Rightarrow> 'm \<Rightarrow> ('x, 's \<times> 'e list) result) \<Rightarrow> 's \<Rightarrow> 'm list \<Rightarrow> ('x, 's \<times> 'e list) result" where
  "actor_run step s [] = Inr (s, [])"
| "actor_run step s (m # ms) =
     (case step s m of
        Inl x \<Rightarrow> Inl x
      | Inr (s', es) \<Rightarrow>
          (case actor_run step s' ms of
             Inl x \<Rightarrow> Inl x
           | Inr (s'', es') \<Rightarrow> Inr (s'', es @ es')))"

lemma actor_run_append:
  "actor_run step s (ms @ ns) =
     (case actor_run step s ms of
        Inl x \<Rightarrow> Inl x
      | Inr (s', es) \<Rightarrow>
          (case actor_run step s' ns of
             Inl x \<Rightarrow> Inl x
           | Inr (s'', es') \<Rightarrow> Inr (s'', es @ es')))"
  by (induction ms arbitrary: s) (auto split: sum.splits)

locale actor =
  fixes step :: "'s \<Rightarrow> 'm \<Rightarrow> ('x, 's \<times> 'e list) result"
    and invar :: "'s \<Rightarrow> bool"
  assumes step_ok: "invar s \<Longrightarrow> \<exists>s' es. step s m = Inr (s', es) \<and> invar s'"
begin

lemma run_ok: "invar s \<Longrightarrow> \<exists>s' es. actor_run step s ms = Inr (s', es) \<and> invar s'"
proof (induction ms arbitrary: s)
  case Nil
  then show ?case by simp
next
  case (Cons m ms)
  obtain s1 es1 where 1: "step s m = Inr (s1, es1)" "invar s1"
    using step_ok [OF Cons.prems] by blast
  obtain s2 es2 where "actor_run step s1 ms = Inr (s2, es2)" "invar s2"
    using Cons.IH [OF 1(2)] by blast
  with 1(1) show ?case by simp
qed

lemma run_never_panics: "invar s \<Longrightarrow> actor_run step s ms \<noteq> Inl x"
  using run_ok [of s ms] by auto

lemma run_invar: "invar s \<Longrightarrow> actor_run step s ms = Inr (s', es) \<Longrightarrow> invar s'"
  using run_ok [of s ms] by auto

text \<open>A property of the emitted effects that every single step has holds of a whole run.\<close>

lemma run_effects:
  assumes "\<And>s m s' es e. invar s \<Longrightarrow> step s m = Inr (s', es) \<Longrightarrow> e \<in> set es \<Longrightarrow> P e"
  shows "invar s \<Longrightarrow> actor_run step s ms = Inr (s', es) \<Longrightarrow> e \<in> set es \<Longrightarrow> P e"
proof (induction ms arbitrary: s s' es)
  case Nil
  then show ?case by simp
next
  case (Cons m ms)
  obtain s1 es1 where 1: "step s m = Inr (s1, es1)" "invar s1"
    using step_ok [OF Cons.prems(1)] by blast
  obtain s2 es2 where 2: "actor_run step s1 ms = Inr (s2, es2)"
    using run_ok [OF 1(2)] by blast
  from Cons.prems(2) 1 2 have "es = es1 @ es2" by simp
  then show ?case
    using Cons.IH [OF 1(2) 2] assms [OF Cons.prems(1) 1(1)] Cons.prems(3) by auto
qed

end

text \<open>
  An actor whose state only moves up an order: what one step keeps in this sense, a whole run
  keeps.
\<close>

locale growing_actor = actor step invar
  for step :: "'s \<Rightarrow> 'm \<Rightarrow> ('x, 's \<times> 'e list) result" and invar :: "'s \<Rightarrow> bool" +
  fixes below :: "'s \<Rightarrow> 's \<Rightarrow> bool"
  assumes below_refl: "below s s"
    and below_trans: "below s t \<Longrightarrow> below t u \<Longrightarrow> below s u"
    and step_below: "invar s \<Longrightarrow> step s m = Inr (s', es) \<Longrightarrow> below s s'"
begin

lemma run_below: "invar s \<Longrightarrow> actor_run step s ms = Inr (s', es) \<Longrightarrow> below s s'"
proof (induction ms arbitrary: s s' es)
  case Nil
  then show ?case by (simp add: below_refl)
next
  case (Cons m ms)
  obtain s1 es1 where 1: "step s m = Inr (s1, es1)" "invar s1"
    using step_ok [OF Cons.prems(1)] by blast
  obtain s2 es2 where 2: "actor_run step s1 ms = Inr (s2, es2)"
    using run_ok [OF 1(2)] by blast
  have "below s s1" by (rule step_below [OF Cons.prems(1) 1(1)])
  moreover have "below s1 s2" by (rule Cons.IH [OF 1(2) 2])
  ultimately show ?case using Cons.prems(2) 1(1) 2 by (auto intro: below_trans)
qed

end

section \<open>Registries\<close>

datatype ('k, 'v) RegistryOp = Add 'k 'v | Remove 'k

text \<open>The specification: a partial map in which an entry is never overwritten.\<close>

fun spec_op :: "('k \<rightharpoonup> 'v) \<Rightarrow> ('k, 'v) RegistryOp \<Rightarrow> ('k \<rightharpoonup> 'v) \<times> bool" where
  "spec_op m (Add k v) = (if m k = None then (m(k \<mapsto> v), True) else (m, False))"
| "spec_op m (Remove k) = (m(k := None), True)"

fun spec_run :: "('k \<rightharpoonup> 'v) \<Rightarrow> ('k, 'v) RegistryOp list \<Rightarrow> ('k \<rightharpoonup> 'v) \<times> bool list" where
  "spec_run m [] = (m, [])"
| "spec_run m (x # xs) =
     (let (m', b) = spec_op m x; (m'', bs) = spec_run m' xs in (m'', b # bs))"

text \<open>The same sequence of operations on an implementation.\<close>

fun registry_op ::
  "('s \<Rightarrow> 'k \<Rightarrow> 'v \<Rightarrow> 's \<times> bool) \<Rightarrow> ('s \<Rightarrow> 'k \<Rightarrow> 's) \<Rightarrow> 's \<Rightarrow> ('k, 'v) RegistryOp \<Rightarrow> 's \<times> bool" where
  "registry_op add remove s (Add k v) = add s k v"
| "registry_op add remove s (Remove k) = (remove s k, True)"

fun registry_run ::
  "('s \<Rightarrow> 'k \<Rightarrow> 'v \<Rightarrow> 's \<times> bool) \<Rightarrow> ('s \<Rightarrow> 'k \<Rightarrow> 's) \<Rightarrow> 's \<Rightarrow> ('k, 'v) RegistryOp list \<Rightarrow>
   's \<times> bool list" where
  "registry_run add remove s [] = (s, [])"
| "registry_run add remove s (x # xs) =
     (let (s', b) = registry_op add remove s x; (s'', bs) = registry_run add remove s' xs
      in (s'', b # bs))"

lemma spec_run_keeps:
  "m k = Some v \<Longrightarrow> Remove k \<notin> set xs \<Longrightarrow> fst (spec_run m xs) k = Some v"
proof (induction xs arbitrary: m)
  case Nil
  then show ?case by simp
next
  case (Cons x xs)
  have "fst (spec_op m x) k = Some v"
    using Cons.prems by (cases x) auto
  then show ?case
    using Cons by (auto simp: Let_def split_beta)
qed

lemma spec_run_refuses:
  "m k = Some v \<Longrightarrow> Remove k \<notin> set xs \<Longrightarrow> i < length xs \<Longrightarrow> xs ! i = Add k w \<Longrightarrow>
   \<not> snd (spec_run m xs) ! i"
proof (induction xs arbitrary: m i)
  case Nil
  then show ?case by simp
next
  case (Cons x xs)
  have "fst (spec_op m x) k = Some v"
    using Cons.prems by (cases x) auto
  then show ?case
    using Cons by (cases i) (auto simp: Let_def split_beta)
qed

locale registry =
  fixes add :: "'s \<Rightarrow> 'k \<Rightarrow> 'v \<Rightarrow> 's \<times> bool"
    and remove :: "'s \<Rightarrow> 'k \<Rightarrow> 's"
    and lookup :: "'s \<Rightarrow> 'k \<Rightarrow> 'v option"
    and invar :: "'s \<Rightarrow> bool"
  assumes add_new: "invar s \<Longrightarrow> lookup s k = None \<Longrightarrow>
      snd (add s k v) \<and> lookup (fst (add s k v)) = (lookup s)(k \<mapsto> v)"
    and add_taken: "invar s \<Longrightarrow> lookup s k \<noteq> None \<Longrightarrow> add s k v = (s, False)"
    and lookup_remove: "invar s \<Longrightarrow> lookup (remove s k) = (lookup s)(k := None)"
    and invar_add: "invar s \<Longrightarrow> invar (fst (add s k v))"
    and invar_remove: "invar s \<Longrightarrow> invar (remove s k)"
begin

lemma op_refines:
  assumes "invar s"
  shows "invar (fst (registry_op add remove s x)) \<and>
    (lookup (fst (registry_op add remove s x)), snd (registry_op add remove s x)) =
      spec_op (lookup s) x"
proof (cases x)
  case (Add k v)
  show ?thesis
  proof (cases "lookup s k = None")
    case True
    then show ?thesis
      using Add add_new [OF assms True, of v] invar_add [OF assms] by auto
  next
    case False
    then show ?thesis
      using Add add_taken [OF assms False, of v] assms by auto
  qed
next
  case (Remove k)
  then show ?thesis by (simp add: lookup_remove assms invar_remove)
qed

lemma run_refines:
  "invar s \<Longrightarrow>
   invar (fst (registry_run add remove s xs)) \<and>
   (lookup (fst (registry_run add remove s xs)), snd (registry_run add remove s xs)) =
     spec_run (lookup s) xs"
proof (induction xs arbitrary: s)
  case Nil
  then show ?case by simp
next
  case (Cons x xs)
  have 1: "invar (fst (registry_op add remove s x))"
    and 2: "lookup (fst (registry_op add remove s x)) = fst (spec_op (lookup s) x)"
    and 3: "snd (registry_op add remove s x) = snd (spec_op (lookup s) x)"
    using op_refines [OF Cons.prems, of x] by (auto simp: prod_eq_iff)
  show ?case
    using Cons.IH [OF 1] 2 3 by (auto simp: Let_def split_beta prod_eq_iff)
qed

lemma holder_keeps_entry:
  assumes "invar s" and "lookup s k = Some v" and "Remove k \<notin> set xs"
  shows "lookup (fst (registry_run add remove s xs)) k = Some v"
  using run_refines [OF assms(1), of xs] spec_run_keeps [of "lookup s", OF assms(2,3)]
  by (auto simp: prod_eq_iff)

lemma second_add_refused:
  assumes "invar s" and "lookup s k = Some v" and "Remove k \<notin> set xs"
    and "i < length xs" and "xs ! i = Add k w"
  shows "\<not> snd (registry_run add remove s xs) ! i"
  using run_refines [OF assms(1), of xs] spec_run_refuses [of "lookup s", OF assms(2-5)]
  by (auto simp: prod_eq_iff)

end

section \<open>Paged reads\<close>

definition below_cursor :: "(uuid \<Rightarrow> 'o :: linorder) \<Rightarrow> uuid option \<Rightarrow> uuid \<Rightarrow> bool" where
  "below_cursor tk cursor i = (case cursor of None \<Rightarrow> True | Some c \<Rightarrow> tk i < tk c)"

text \<open>
  A client that asks for page after page until it gets no cursor. The first argument bounds the
  number of requests; the result is \<^const>\<open>None\<close> when it is used up.
\<close>

fun walk :: "nat \<Rightarrow> ('w \<Rightarrow> uuid option \<Rightarrow> 'w \<times> 'm list \<times> uuid option) \<Rightarrow> 'w \<Rightarrow> uuid option \<Rightarrow> 'm list option" where
  "walk 0 ask w cursor = None"
| "walk (Suc n) ask w cursor =
     (case ask w cursor of
        (w', ms, None) \<Rightarrow> Some ms
      | (w', ms, Some c) \<Rightarrow> map_option ((@) ms) (walk n ask w' (Some c)))"

lemma filter_below_last:
  assumes "sorted_wrt (\<lambda>a b. f b < f a) (ys @ zs)" and "zs \<noteq> []" and "0 < n"
  shows "filter (\<lambda>m. f m < (f (last (take n zs)) :: 'o :: linorder)) (ys @ zs) = drop n zs"
proof -
  let ?l = "last (take n zs)"
  have split: "ys @ zs = ys @ take n zs @ drop n zs" by simp
  have ne: "take n zs \<noteq> []" using assms(2,3) by simp
  have s: "sorted_wrt (\<lambda>a b. f b < f a) (ys @ take n zs @ drop n zs)" using assms(1) by simp
  then have s1: "\<forall>a\<in>set ys. \<forall>b\<in>set (take n zs). f b < f a"
    and s2: "\<forall>a\<in>set (take n zs). \<forall>b\<in>set (drop n zs). f b < f a"
    unfolding sorted_wrt_append by (auto dest: in_set_takeD)
  have l: "?l \<in> set (take n zs)" using ne by simp
  have "\<not> f m < f ?l" if "m \<in> set ys" for m
    using s1 that l by force
  moreover have "\<not> f m < f ?l" if "m \<in> set (take n zs)" for m
  proof -
    have "sorted_wrt (\<lambda>a b. f b < f a) (take n zs)" using s unfolding sorted_wrt_append by blast
    then have "sorted_wrt (\<lambda>a b. f b < f a) (butlast (take n zs) @ [?l])"
      unfolding append_butlast_last_id [OF ne] .
    moreover from that have "m \<in> set (butlast (take n zs) @ [?l])"
      unfolding append_butlast_last_id [OF ne] .
    ultimately show ?thesis by (auto simp: sorted_wrt_append)
  qed
  moreover have "f m < f ?l" if "m \<in> set (drop n zs)" for m
    using s2 that l by blast
  ultimately show ?thesis
    unfolding split filter_append by (simp add: filter_id_conv filter_empty_conv)
qed

locale paged_source =
  fixes ask :: "'c \<Rightarrow> 'w \<Rightarrow> uuid option \<Rightarrow> 'w \<times> 'm list \<times> uuid option"
    and stored :: "'c \<Rightarrow> 'w \<Rightarrow> 'm list"
    and mid :: "'c \<Rightarrow> 'm \<Rightarrow> uuid"
    and place :: "'c \<Rightarrow> uuid \<Rightarrow> 'o :: linorder"
    and good :: "'c \<Rightarrow> 'w \<Rightarrow> bool"
  assumes stored_strict:
      "good c w \<Longrightarrow> sorted_wrt (\<lambda>a b. place c (mid c b) < place c (mid c a)) (stored c w)"
    and ask_page: "good c w \<Longrightarrow> page = take 50 (filter (\<lambda>m. below_cursor (place c) cursor (mid c m)) (stored c w)) \<Longrightarrow>
      \<exists>w'. ask c w cursor = (w', page, if page = [] then None else Some (mid c (last page))) \<and>
        good c w' \<and> stored c w' = stored c w"
begin

lemma walk_rest:
  "good c w \<Longrightarrow> stored c w = ys @ zs \<Longrightarrow>
   filter (\<lambda>m. below_cursor (place c) cursor (mid c m)) (stored c w) = zs \<Longrightarrow> length zs \<le> 50 * k \<Longrightarrow>
   walk (Suc k) (ask c) w cursor = Some zs"
proof (induction k arbitrary: w ys zs cursor)
  case 0
  then show ?case using ask_page [of c w "[]" cursor] by auto
next
  case (Suc k)
  obtain w' where w': "ask c w cursor = (w', take 50 zs, if take 50 zs = [] then None else Some (mid c (last (take 50 zs))))"
    "good c w'" "stored c w' = stored c w"
    using ask_page [OF Suc.prems(1), of "take 50 zs" cursor] Suc.prems(3) by blast
  show ?case
  proof (cases "zs = []")
    case True
    then show ?thesis using w'(1) by simp
  next
    case False
    have "sorted_wrt (\<lambda>a b. place c (mid c b) < place c (mid c a)) (ys @ zs)"
      using stored_strict [OF Suc.prems(1)] Suc.prems(2) by simp
    from filter_below_last [of "\<lambda>m. place c (mid c m)", OF this False, of 50]
    have "filter (\<lambda>m. below_cursor (place c) (Some (mid c (last (take 50 zs)))) (mid c m)) (stored c w') = drop 50 zs"
      using Suc.prems(2) w'(3) by (simp add: below_cursor_def)
    moreover have "stored c w' = (ys @ take 50 zs) @ drop 50 zs" using Suc.prems(2) w'(3) by simp
    ultimately have "walk (Suc k) (ask c) w' (Some (mid c (last (take 50 zs)))) = Some (drop 50 zs)"
      using Suc.prems(4) by (intro Suc.IH [of w' "ys @ take 50 zs"] w'(2)) simp_all
    then show ?thesis using w'(1) False by simp
  qed
qed

lemma walk_complete:
  "good c w \<Longrightarrow> length (stored c w) \<le> 50 * k \<Longrightarrow> walk (Suc k) (ask c) w None = Some (stored c w)"
  by (rule walk_rest [where ys = "[]"]) (simp_all add: below_cursor_def)

lemma stored_distinct: "good c w \<Longrightarrow> distinct (map (mid c) (stored c w))"
  using stored_strict [of c w]
  by (simp add: distinct_conv_nth sorted_wrt_iff_nth_less) (metis linorder_neqE_nat order_less_irrefl)

end

end
