(* ===== verification/Chat_History.thy ===== *)
theory Chat_History
  imports Chat_Queries Interfaces
begin

text \<open>
  What the functions of \<^verbatim>\<open>queries.rs\<close> read and write, against the specification \<open>history\<close> of a
  conversation and \<open>room_history\<close> of a room.
\<close>

section \<open>Pages\<close>

lemma arrange_newest:
  assumes "clustering_key td = [''message_id'']"
    and "\<forall>r\<in>set rows. r ''message_id'' = Some (CTimeuuid (mid (g r)))"
  shows "map g (arrange tk td (Some (c, True)) (Some n) rows) =
    take n (rev (sort_key (\<lambda>m. tk (mid m)) (map g rows)))"
  using arrange_by_message_id [of td rows mid g tk, OF assms]
  by (simp add: arrange_def take_map [symmetric] rev_map [symmetric])

lemma arrange_oldest:
  assumes "clustering_key td = [''message_id'']"
    and "\<forall>r\<in>set rows. r ''message_id'' = Some (CTimeuuid (mid (g r)))"
  shows "map g (arrange tk td None None rows) = sort_key (\<lambda>m. tk (mid m)) (map g rows)"
  using arrange_by_message_id [of td rows mid g tk, OF assms] by (simp add: arrange_def)

lemma set_arrange: "set (arrange tk td order limit rows) \<subseteq> set rows"
  by (auto simp: arrange_def Let_def split: option.splits if_splits dest: in_set_takeD)

lemma dec_arranged:
  assumes "table_ok cols dec td rows"
  shows "map dec (map (\<lambda>r. map r cols) (arrange tk td order limit (filter P rows))) =
    map Some (map (\<lambda>r. the (dec (map r cols))) (arrange tk td order limit (filter P rows)))"
proof -
  have "\<forall>r\<in>set (arrange tk td order limit (filter P rows)). dec (map r cols) \<noteq> None"
    using assms set_arrange [of tk td order limit "filter P rows"] by (auto simp: table_ok_def list_all_iff)
  then show ?thesis by (induction "arrange tk td order limit (filter P rows)") auto
qed

lemma dm_table_okE:
  assumes "dm_table_ok db"
  obtains rows where "db ''direct_messages'' = Some (direct_messages_table, rows)"
    and "table_ok message_columns dec_message direct_messages_table rows"
  using assms by (auto simp: dm_table_ok_def split: option.splits)

lemma room_table_okE:
  assumes "room_table_ok db"
  obtains rows where "db ''room_messages'' = Some (room_messages_table, rows)"
    and "table_ok room_message_columns dec_room_message room_messages_table rows"
  using assms by (auto simp: room_table_ok_def split: option.splits)

lemmas select_simps = table_of_def col_type_def where_holds_def [abs_def]

lemma cql_messages_without_cursor:
  assumes "db ''direct_messages'' = Some (direct_messages_table, rows)"
  shows "cql_select (Some ''affinity'') ok tk db q_messages_without_cursor [TextV pid, TextV conv] =
    Some ([Text_t, Timeuuid_t, Text_t, Text_t, Text_t, Timestamp_t],
      map (\<lambda>r. map r message_columns) (arrange tk direct_messages_table (Some (''message_id'', True)) (Some 50)
        (filter (in_partition ''conversation_id'' pid conv) rows)))"
  using assms
  by (simp add: q_messages_without_cursor_def select_simps in_partition_def [abs_def]
      direct_messages_table_def)

lemma cql_messages_with_cursor:
  assumes "db ''direct_messages'' = Some (direct_messages_table, rows)"
  shows "cql_select (Some ''affinity'') True tk db q_messages_with_cursor [TextV pid, TextV conv, UuidV c] =
    Some ([Text_t, Timeuuid_t, Text_t, Text_t, Text_t, Timestamp_t],
      map (\<lambda>r. map r message_columns) (arrange tk direct_messages_table (Some (''message_id'', True)) (Some 50)
        (filter (\<lambda>r. in_partition ''conversation_id'' pid conv r \<and> cell_key tk (r ''message_id'') < [tk c]) rows)))"
  using assms
  by (simp add: q_messages_with_cursor_def select_simps in_partition_def [abs_def] conj_assoc
      direct_messages_table_def)

lemma cql_room_without_cursor:
  assumes "db ''room_messages'' = Some (room_messages_table, rows)"
  shows "cql_select (Some ''affinity'') ok tk db q_room_without_cursor [TextV pid, TextV rid] =
    Some ([Text_t, Timeuuid_t, Text_t, Text_t, Timestamp_t],
      map (\<lambda>r. map r room_message_columns) (arrange tk room_messages_table (Some (''message_id'', True)) (Some 50)
        (filter (in_partition ''room_id'' pid rid) rows)))"
  using assms
  by (simp add: q_room_without_cursor_def select_simps in_partition_def [abs_def] room_messages_table_def)

lemma cql_room_with_cursor:
  assumes "db ''room_messages'' = Some (room_messages_table, rows)"
  shows "cql_select (Some ''affinity'') True tk db q_room_with_cursor [TextV pid, TextV rid, UuidV c] =
    Some ([Text_t, Timeuuid_t, Text_t, Text_t, Timestamp_t],
      map (\<lambda>r. map r room_message_columns) (arrange tk room_messages_table (Some (''message_id'', True)) (Some 50)
        (filter (\<lambda>r. in_partition ''room_id'' pid rid r \<and> cell_key tk (r ''message_id'') < [tk c]) rows)))"
  using assms
  by (simp add: q_room_with_cursor_def select_simps in_partition_def [abs_def] conj_assoc room_messages_table_def)

lemma cql_fetch_after:
  assumes "db ''direct_messages'' = Some (direct_messages_table, rows)"
  shows "cql_select ks True tk db q_fetch_after [TextV pid, TextV conv, UuidV c] =
    Some ([Text_t, Timeuuid_t, Text_t, Text_t, Text_t, Timestamp_t],
      map (\<lambda>r. map r message_columns) (arrange tk direct_messages_table None None
        (filter (\<lambda>r. in_partition ''conversation_id'' pid conv r \<and> [tk c] < cell_key tk (r ''message_id'')) rows)))"
  using assms
  by (simp add: q_fetch_after_def select_simps in_partition_def [abs_def] conj_assoc direct_messages_table_def)

text \<open>The rows of a page, as messages.\<close>

lemma dm_page:
  assumes "table_ok message_columns dec_message direct_messages_table rows"
    and "\<forall>r\<in>set rows. P r \<longleftrightarrow> in_partition ''conversation_id'' pid conv r \<and> Q (DbMessage.message_id (row_message r))"
  shows "map row_message (arrange tk direct_messages_table (Some (''message_id'', True)) (Some n) (filter P rows)) =
      take n (filter (\<lambda>m. Q (DbMessage.message_id m))
        (rev (sort_key (\<lambda>m. tk (DbMessage.message_id m))
          (map row_message (filter (in_partition ''conversation_id'' pid conv) rows)))))"
    and "map row_message (arrange tk direct_messages_table None None (filter P rows)) =
      rev (filter (\<lambda>m. Q (DbMessage.message_id m))
        (rev (sort_key (\<lambda>m. tk (DbMessage.message_id m))
          (map row_message (filter (in_partition ''conversation_id'' pid conv) rows)))))"
proof -
  have P: "filter P rows =
      filter (\<lambda>r. Q (DbMessage.message_id (row_message r))) (filter (in_partition ''conversation_id'' pid conv) rows)"
    using assms(2) by (auto intro!: filter_cong simp: conj_commute)
  have ck: "clustering_key direct_messages_table = [''message_id'']"
    by (simp add: direct_messages_table_def)
  have ids: "\<forall>r\<in>set (filter P rows). r ''message_id'' = Some (CTimeuuid (DbMessage.message_id (row_message r)))"
    using dm_rowE [OF assms(1)] by simp
  show "map row_message (arrange tk direct_messages_table (Some (''message_id'', True)) (Some n) (filter P rows)) =
      take n (filter (\<lambda>m. Q (DbMessage.message_id m))
        (rev (sort_key (\<lambda>m. tk (DbMessage.message_id m))
          (map row_message (filter (in_partition ''conversation_id'' pid conv) rows)))))"
    unfolding arrange_newest [of _ _ DbMessage.message_id row_message, OF ck ids] unfolding P
    by (simp only: rev_sort_filter [of _ row_message "\<lambda>m. Q (DbMessage.message_id m)"])
  show "map row_message (arrange tk direct_messages_table None None (filter P rows)) =
      rev (filter (\<lambda>m. Q (DbMessage.message_id m))
        (rev (sort_key (\<lambda>m. tk (DbMessage.message_id m))
          (map row_message (filter (in_partition ''conversation_id'' pid conv) rows)))))"
    unfolding arrange_oldest [of _ _ DbMessage.message_id row_message, OF ck ids] unfolding P
    by (simp only: rev_sort_filter [of _ row_message "\<lambda>m. Q (DbMessage.message_id m)", symmetric] rev_rev_ident)
qed

lemma room_page:
  assumes "table_ok room_message_columns dec_room_message room_messages_table rows"
    and "\<forall>r\<in>set rows. P r \<longleftrightarrow> in_partition ''room_id'' pid rid r \<and> Q (DbRoomMessage.message_id (row_room_message r))"
  shows "map row_room_message (arrange tk room_messages_table (Some (''message_id'', True)) (Some n) (filter P rows)) =
      take n (filter (\<lambda>m. Q (DbRoomMessage.message_id m))
        (rev (sort_key (\<lambda>m. tk (DbRoomMessage.message_id m))
          (map row_room_message (filter (in_partition ''room_id'' pid rid) rows)))))"
proof -
  have P: "filter P rows =
      filter (\<lambda>r. Q (DbRoomMessage.message_id (row_room_message r))) (filter (in_partition ''room_id'' pid rid) rows)"
    using assms(2) by (auto intro!: filter_cong simp: conj_commute)
  have ck: "clustering_key room_messages_table = [''message_id'']"
    by (simp add: room_messages_table_def)
  have ids: "\<forall>r\<in>set (filter P rows). r ''message_id'' = Some (CTimeuuid (DbRoomMessage.message_id (row_room_message r)))"
    using room_rowE [OF assms(1)] by simp
  show ?thesis
    unfolding arrange_newest [of _ _ DbRoomMessage.message_id row_room_message, OF ck ids] unfolding P
    by (simp only: rev_sort_filter [of _ row_room_message "\<lambda>m. Q (DbRoomMessage.message_id m)"])
qed

text \<open>The fetches. An accepted statement over readable rows yields these rows, converted.\<close>

lemma fetch_answered:
  assumes "select_answered d b w stmt vals res"
    and "cql_select (keyspace b) (uuid_ok b) (tkey b) (contents b w) stmt vals =
      Some (ctys, map (\<lambda>r. map r cols) (arrange (tkey b) td order limit (filter P rows)))"
    and "\<And>rr. typed_rows (uuid_ok b) tys dec (result_set_of b rr) (rd rr)"
    and "list_all2 (reads (uuid_ok b)) tys ctys"
    and "table_ok cols dec td rows"
  shows "\<exists>w'. and_then res (\<lambda>w r. (w, map_sum (\<lambda>e. e) (map mk) (read_rows d rd r))) =
      (w', Inr (map (\<lambda>r. mk (the (dec (map r cols)))) (arrange (tkey b) td order limit (filter P rows)))) \<and>
    contents b w' = contents b w"
  using read_answered [OF assms(1,2,3,4) dec_arranged [OF assms(5)]] and_then_map_ok [of res d rd _ _ "map mk"]
  by (fastforce simp: comp_def)

lemma row_message_conv: "(\<lambda>r. db_message (the (dec_message (map r message_columns)))) = row_message"
  by (simp add: row_message_def fun_eq_iff)

lemma row_room_message_conv:
  "(\<lambda>r. db_room_message (the (dec_room_message (map r room_message_columns)))) = row_room_message"
  by (simp add: row_room_message_def fun_eq_iff)

lemma dm_row_id:
  "table_ok message_columns dec_message td rows \<Longrightarrow> r \<in> set rows \<Longrightarrow>
   r ''message_id'' = Some (CTimeuuid (DbMessage.message_id (row_message r)))"
  using dm_rowE by blast

lemma room_row_id:
  "table_ok room_message_columns dec_room_message td rows \<Longrightarrow> r \<in> set rows \<Longrightarrow>
   r ''message_id'' = Some (CTimeuuid (DbRoomMessage.message_id (row_room_message r)))"
  using room_rowE by blast

lemma cursor_filter:
  assumes "table_ok message_columns dec_message direct_messages_table rows"
  shows "\<forall>r\<in>set rows. in_partition ''conversation_id'' pid conv r \<and> cell_key tk (r ''message_id'') < [tk c] \<longleftrightarrow>
    in_partition ''conversation_id'' pid conv r \<and> below_cursor tk (Some c) (DbMessage.message_id (row_message r))"
  by (auto simp: below_cursor_def dm_row_id [OF assms])

lemma room_cursor_filter:
  assumes "table_ok room_message_columns dec_room_message room_messages_table rows"
  shows "\<forall>r\<in>set rows. in_partition ''room_id'' pid rid r \<and> cell_key tk (r ''message_id'') < [tk c] \<longleftrightarrow>
    in_partition ''room_id'' pid rid r \<and> below_cursor tk (Some c) (DbRoomMessage.message_id (row_room_message r))"
  by (auto simp: below_cursor_def room_row_id [OF assms])

lemma is_select_statements [simp]:
  "is_select q_messages_without_cursor" "is_select q_messages_with_cursor" "is_select q_room_without_cursor"
  "is_select q_room_with_cursor" "is_select q_fetch_after" "is_select q_select_dm_lookup"
  "is_select q_user_conversations" "is_select q_conversation_history" "\<not> is_select q_insert_dm_lookup"
  by (simp_all add: statement_defs)

lemma fetch_paginated_messages_page:
  assumes "serves d b" and "keyspace b = Some ''affinity''" and "uuid_ok b" and "dm_table_ok (contents b w)"
  shows "\<exists>w'. fetch_paginated_messages d w pid conv cursor =
      (w', Inr (take 50 (filter (\<lambda>m. below_cursor (tkey b) cursor (DbMessage.message_id m))
        (history (tkey b) (contents b w) pid conv)))) \<and> contents b w' = contents b w"
proof -
  obtain rows where db: "contents b w ''direct_messages'' = Some (direct_messages_table, rows)"
    and ok: "table_ok message_columns dec_message direct_messages_table rows"
    using dm_table_okE [OF assms(4)] .
  have types: "list_all2 (reads (uuid_ok b)) message_types [Text_t, Timeuuid_t, Text_t, Text_t, Text_t, Timestamp_t]"
    using assms(3) by simp
  note fetched = fetch_answered [OF serves_select [OF assms(1)] _ serves_rows(3) [OF assms(1)] types ok,
      of _ w _ _ _ _ db_message, unfolded row_message_conv]
  show ?thesis
  proof (cases cursor)
    case None
    let ?P = "in_partition ''conversation_id'' pid conv"
    have "\<exists>w'. fetch_paginated_messages d w pid conv cursor = (w', Inr (map row_message
        (arrange (tkey b) direct_messages_table (Some (''message_id'', True)) (Some 50) (filter ?P rows)))) \<and>
        contents b w' = contents b w"
      unfolding fetch_paginated_messages_def None option.case
      by (rule fetched) (simp_all add: assms(2) cql_messages_without_cursor [of "contents b w" rows] db)
    moreover have "map row_message
        (arrange (tkey b) direct_messages_table (Some (''message_id'', True)) (Some 50) (filter ?P rows)) =
        take 50 (filter (\<lambda>m. below_cursor (tkey b) cursor (DbMessage.message_id m))
          (history (tkey b) (contents b w) pid conv))"
      using dm_page(1) [OF ok, of ?P pid conv "\<lambda>_. True" "tkey b" 50]
      by (simp add: None history_def db below_cursor_def)
    ultimately show ?thesis by simp
  next
    case (Some c)
    let ?P = "\<lambda>r. in_partition ''conversation_id'' pid conv r \<and> cell_key (tkey b) (r ''message_id'') < [tkey b c]"
    have "\<exists>w'. fetch_paginated_messages d w pid conv cursor = (w', Inr (map row_message
        (arrange (tkey b) direct_messages_table (Some (''message_id'', True)) (Some 50) (filter ?P rows)))) \<and>
        contents b w' = contents b w"
      unfolding fetch_paginated_messages_def Some option.case
      by (rule fetched) (simp_all add: assms(2,3) cql_messages_with_cursor [of "contents b w" rows] db)
    moreover have "map row_message
        (arrange (tkey b) direct_messages_table (Some (''message_id'', True)) (Some 50) (filter ?P rows)) =
        take 50 (filter (\<lambda>m. below_cursor (tkey b) cursor (DbMessage.message_id m))
          (history (tkey b) (contents b w) pid conv))"
      using dm_page(1) [OF ok, of ?P pid conv "below_cursor (tkey b) (Some c)" "tkey b" 50,
          OF cursor_filter [OF ok]]
      by (simp add: Some history_def db)
    ultimately show ?thesis by simp
  qed
qed

lemma fetch_paginated_room_messages_page:
  assumes "serves d b" and "keyspace b = Some ''affinity''" and "uuid_ok b" and "room_table_ok (contents b w)"
  shows "\<exists>w'. fetch_paginated_room_messages d w pid rid cursor =
      (w', Inr (take 50 (filter (\<lambda>m. below_cursor (tkey b) cursor (DbRoomMessage.message_id m))
        (room_history (tkey b) (contents b w) pid rid)))) \<and> contents b w' = contents b w"
proof -
  obtain rows where db: "contents b w ''room_messages'' = Some (room_messages_table, rows)"
    and ok: "table_ok room_message_columns dec_room_message room_messages_table rows"
    using room_table_okE [OF assms(4)] .
  have types: "list_all2 (reads (uuid_ok b)) room_message_types [Text_t, Timeuuid_t, Text_t, Text_t, Timestamp_t]"
    using assms(3) by simp
  note fetched = fetch_answered [OF serves_select [OF assms(1)] _ serves_rows(4) [OF assms(1)] types ok,
      of _ w _ _ _ _ db_room_message, unfolded row_room_message_conv]
  show ?thesis
  proof (cases cursor)
    case None
    let ?P = "in_partition ''room_id'' pid rid"
    have "\<exists>w'. fetch_paginated_room_messages d w pid rid cursor = (w', Inr (map row_room_message
        (arrange (tkey b) room_messages_table (Some (''message_id'', True)) (Some 50) (filter ?P rows)))) \<and>
        contents b w' = contents b w"
      unfolding fetch_paginated_room_messages_def None option.case
      by (rule fetched) (simp_all add: assms(2) cql_room_without_cursor [of "contents b w" rows] db)
    moreover have "map row_room_message
        (arrange (tkey b) room_messages_table (Some (''message_id'', True)) (Some 50) (filter ?P rows)) =
        take 50 (filter (\<lambda>m. below_cursor (tkey b) cursor (DbRoomMessage.message_id m))
          (room_history (tkey b) (contents b w) pid rid))"
      using room_page [OF ok, of ?P pid rid "\<lambda>_. True" "tkey b" 50]
      by (simp add: None room_history_def db below_cursor_def)
    ultimately show ?thesis by simp
  next
    case (Some c)
    let ?P = "\<lambda>r. in_partition ''room_id'' pid rid r \<and> cell_key (tkey b) (r ''message_id'') < [tkey b c]"
    have "\<exists>w'. fetch_paginated_room_messages d w pid rid cursor = (w', Inr (map row_room_message
        (arrange (tkey b) room_messages_table (Some (''message_id'', True)) (Some 50) (filter ?P rows)))) \<and>
        contents b w' = contents b w"
      unfolding fetch_paginated_room_messages_def Some option.case
      by (rule fetched) (simp_all add: assms(2,3) cql_room_with_cursor [of "contents b w" rows] db)
    moreover have "map row_room_message
        (arrange (tkey b) room_messages_table (Some (''message_id'', True)) (Some 50) (filter ?P rows)) =
        take 50 (filter (\<lambda>m. below_cursor (tkey b) cursor (DbRoomMessage.message_id m))
          (room_history (tkey b) (contents b w) pid rid))"
      using room_page [OF ok, of ?P pid rid "below_cursor (tkey b) (Some c)" "tkey b" 50,
          OF room_cursor_filter [OF ok]]
      by (simp add: Some room_history_def db)
    ultimately show ?thesis by simp
  qed
qed

text \<open>Missed messages: everything after the given id, oldest first, in one answer.\<close>

lemma fetch_messages_after_exact:
  assumes "serves d b" and "uuid_ok b" and "dm_table_ok (contents b w)" and "statement_of b queries = q_fetch_after"
  shows "\<exists>w'. fetch_messages_after d queries w pid conv c =
      (w', Inr (rev (filter (\<lambda>m. tkey b c < tkey b (DbMessage.message_id m))
        (history (tkey b) (contents b w) pid conv)))) \<and> contents b w' = contents b w"
proof -
  obtain rows where db: "contents b w ''direct_messages'' = Some (direct_messages_table, rows)"
    and ok: "table_ok message_columns dec_message direct_messages_table rows"
    using dm_table_okE [OF assms(3)] .
  have types: "list_all2 (reads (uuid_ok b)) message_types [Text_t, Timeuuid_t, Text_t, Text_t, Text_t, Timestamp_t]"
    using assms(2) by simp
  let ?P = "\<lambda>r. in_partition ''conversation_id'' pid conv r \<and> [tkey b c] < cell_key (tkey b) (r ''message_id'')"
  have "select_answered d b w q_fetch_after [TextV pid, TextV conv, UuidV c]
      (execute_unpaged d w queries [TextV pid, TextV conv, UuidV c])"
    using serves_execute [OF assms(1), of queries] assms(4) by simp
  note fetched = fetch_answered [OF this _ serves_rows(3) [OF assms(1)] types ok, of _ _ _ db_message,
      unfolded row_message_conv]
  have "\<exists>w'. fetch_messages_after d queries w pid conv c =
      (w', Inr (map row_message (arrange (tkey b) direct_messages_table None None (filter ?P rows)))) \<and>
      contents b w' = contents b w"
    unfolding fetch_messages_after_def
    by (rule fetched) (simp add: assms(2) cql_fetch_after [of "contents b w" rows] db)
  moreover have "\<forall>r\<in>set rows. ?P r \<longleftrightarrow> in_partition ''conversation_id'' pid conv r \<and>
      tkey b c < tkey b (DbMessage.message_id (row_message r))"
    by (auto simp: dm_row_id [OF ok])
  ultimately show ?thesis
    using dm_page(2) [OF ok, of ?P pid conv "\<lambda>i. tkey b c < tkey b i" "tkey b"]
    by (simp add: history_def db)
qed

section \<open>Histories are strictly ordered\<close>

lemma partition_keys_distinct:
  "distinct (row_keys td rows) \<Longrightarrow> primary_key td = [''project_id'', col, ''message_id''] \<Longrightarrow>
   distinct (map (\<lambda>r. r ''message_id'') (filter (in_partition col pid x) rows))"
proof (induction rows)
  case (Cons r rows)
  have "r ''message_id'' \<notin> (\<lambda>r. r ''message_id'') ` set (filter (in_partition col pid x) rows)"
    if p: "in_partition col pid x r"
  proof
    assume "r ''message_id'' \<in> (\<lambda>r. r ''message_id'') ` set (filter (in_partition col pid x) rows)"
    then obtain r' where r': "r ''message_id'' = r' ''message_id''" "r' \<in> set (filter (in_partition col pid x) rows)"
      by (rule imageE)
    then have "r' \<in> set rows" by simp
    from imageI [OF this, of "\<lambda>r. [r ''project_id'', r col, r ''message_id'']"] r' p Cons.prems
    show False by (simp add: row_keys_def in_partition_def)
  qed
  then show ?case using Cons by (simp add: row_keys_def)
qed (simp add: row_keys_def)

lemma distinct_places:
  assumes "distinct (map (\<lambda>r. r ''message_id'') rs)" and "inj tk"
    and "\<And>r. r \<in> set rs \<Longrightarrow> r ''message_id'' = Some (CTimeuuid (mid (g r)))"
  shows "distinct (map (\<lambda>m. tk (mid m)) (map g rs))"
  using assms(1,3)
proof (induction rs)
  case (Cons r rs)
  have "tk (mid (g r')) \<noteq> tk (mid (g r))" if "r' \<in> set rs" for r'
  proof
    assume "tk (mid (g r')) = tk (mid (g r))"
    then have "mid (g r') = mid (g r)" by (rule injD [OF assms(2)])
    then have "r' ''message_id'' = r ''message_id''" using Cons.prems(2) [of r] Cons.prems(2) [of r'] that by simp
    with Cons.prems(1) imageI [OF that, of "\<lambda>r. r ''message_id''"] show False by simp
  qed
  then have "tk (mid (g r)) \<notin> (\<lambda>r. tk (mid (g r))) ` set rs" by (metis (no_types, lifting) imageE)
  with Cons show ?case by (simp add: comp_def)
qed simp

lemma history_strict:
  assumes "dm_table_ok db" and "inj tk"
  shows "sorted_wrt (\<lambda>a b. tk (DbMessage.message_id b) < tk (DbMessage.message_id a)) (history tk db pid conv)"
proof -
  obtain rows where db: "db ''direct_messages'' = Some (direct_messages_table, rows)"
    and ok: "table_ok message_columns dec_message direct_messages_table rows"
    using dm_table_okE [OF assms(1)] .
  have "distinct (map (\<lambda>r. r ''message_id'') (filter (in_partition ''conversation_id'' pid conv) rows))"
    using ok by (intro partition_keys_distinct [of direct_messages_table])
      (simp_all add: table_ok_def primary_key_def direct_messages_table_def)
  then have "distinct (map (\<lambda>m. tk (DbMessage.message_id m))
      (map row_message (filter (in_partition ''conversation_id'' pid conv) rows)))"
    by (rule distinct_places [OF _ assms(2)]) (simp add: dm_row_id [OF ok])
  then show ?thesis by (simp add: history_def db sort_strict del: map_map)
qed

lemma room_history_strict:
  assumes "room_table_ok db" and "inj tk"
  shows "sorted_wrt (\<lambda>a b. tk (DbRoomMessage.message_id b) < tk (DbRoomMessage.message_id a)) (room_history tk db pid rid)"
proof -
  obtain rows where db: "db ''room_messages'' = Some (room_messages_table, rows)"
    and ok: "table_ok room_message_columns dec_room_message room_messages_table rows"
    using room_table_okE [OF assms(1)] .
  have "distinct (map (\<lambda>r. r ''message_id'') (filter (in_partition ''room_id'' pid rid) rows))"
    using ok by (intro partition_keys_distinct [of room_messages_table])
      (simp_all add: table_ok_def primary_key_def room_messages_table_def)
  then have "distinct (map (\<lambda>m. tk (DbRoomMessage.message_id m))
      (map row_room_message (filter (in_partition ''room_id'' pid rid) rows)))"
    by (rule distinct_places [OF _ assms(2)]) (simp add: room_row_id [OF ok])
  then show ?thesis by (simp add: room_history_def db sort_strict del: map_map)
qed

end
