(* ===== verification/Chat_Writes.thy ===== *)
theory Chat_Writes
  imports Chat_History
begin

text \<open>
  What the writes of \<^verbatim>\<open>queries.rs\<close> do to the tables: the effect of a batch in terms of the history,
  that the tables stay well-formed, and that a repeated write changes nothing.
\<close>

section \<open>Upserts\<close>

lemma same_key_refl [simp]: "same_key td r r"
  by (simp add: same_key_def list_all_iff)

lemma same_key_sym: "same_key td r s \<Longrightarrow> same_key td s r"
  by (simp add: same_key_def list_all_iff)

lemma same_key_trans: "same_key td r s \<Longrightarrow> same_key td s t \<Longrightarrow> same_key td r t"
  by (simp add: same_key_def list_all_iff)

lemma same_key_iff: "same_key td r s \<longleftrightarrow> map r (primary_key td) = map s (primary_key td)"
  by (simp add: same_key_def list_all_iff)

lemma same_key_add: "same_key td r s \<Longrightarrow> same_key td (r ++ s) r"
  by (auto simp: same_key_def list_all_iff map_add_def split: option.splits)

lemma row_keys_upsert:
  "row_keys td (upsert td new rows) =
     (if list_ex (\<lambda>r. same_key td r new) rows then row_keys td rows
      else row_keys td rows @ [map new (primary_key td)])"
proof -
  have "map (if same_key td r new then r ++ new else r) (primary_key td) = map r (primary_key td)" for r
    using same_key_add [of td r new] by (simp add: same_key_iff)
  then show ?thesis by (simp add: row_keys_def upsert_def comp_def)
qed

lemma distinct_upsert:
  "distinct (row_keys td rows) \<Longrightarrow> distinct (row_keys td (upsert td new rows))"
proof (cases "list_ex (\<lambda>r. same_key td r new) rows")
  case False
  have "map new (primary_key td) \<notin> set (row_keys td rows)"
  proof
    assume "map new (primary_key td) \<in> set (row_keys td rows)"
    then obtain r where r: "map new (primary_key td) = map r (primary_key td)" "r \<in> set rows"
      unfolding row_keys_def set_map by (rule imageE)
    then have "same_key td r new" unfolding same_key_iff by (simp only:)
    with r(2) False show False unfolding list_ex_iff by blast
  qed
  moreover assume "distinct (row_keys td rows)"
  ultimately show ?thesis using False by (simp add: row_keys_upsert)
qed (simp add: row_keys_upsert)

lemma set_upsert:
  "set (upsert td new rows) =
     {r \<in> set rows. \<not> same_key td r new} \<union>
     (if list_ex (\<lambda>r. same_key td r new) rows
      then (\<lambda>r. r ++ new) ` {r \<in> set rows. same_key td r new} else {new})"
  by (auto simp: upsert_def list_ex_iff)

lemma map_add_cols: "\<forall>c\<in>set cols. new c \<noteq> None \<Longrightarrow> map (r ++ new) cols = map new cols"
  by (auto simp: map_add_def split: option.splits)

lemma table_ok_upsert:
  assumes "table_ok cols dec td rows" and "\<forall>c\<in>set cols. new c \<noteq> None" and "dec (map new cols) \<noteq> None"
  shows "table_ok cols dec td (upsert td new rows)"
proof -
  have "dec (map (r ++ new) cols) \<noteq> None" for r
    unfolding map_add_cols [OF assms(2)] by (rule assms(3))
  then have "\<forall>r\<in>set (upsert td new rows). dec (map r cols) \<noteq> None"
    using assms(1,3) unfolding set_upsert table_ok_def list_all_iff by (auto split: if_splits)
  with assms(1) show ?thesis by (simp only: table_ok_def distinct_upsert list_all_iff)
qed

text \<open>\<open>absorbs td new rows\<close>: the row \<open>new\<close> has been written and not been overwritten since.\<close>

definition absorbs :: "TableDef \<Rightarrow> row \<Rightarrow> row list \<Rightarrow> bool" where
  "absorbs td new rows \<longleftrightarrow>
     (\<exists>r\<in>set rows. same_key td r new) \<and> (\<forall>r\<in>set rows. same_key td r new \<longrightarrow> new \<subseteq>\<^sub>m r)"

lemma map_add_absorb: "new \<subseteq>\<^sub>m r \<Longrightarrow> r ++ new = r"
  by (auto simp: map_le_def map_add_def fun_eq_iff dom_def split: option.splits)

lemma upsert_absorbs: "absorbs td new rows \<Longrightarrow> upsert td new rows = rows"
  by (auto simp: absorbs_def upsert_def list_ex_iff map_add_absorb intro!: map_idI)

lemma absorbs_upsert: "absorbs td new (upsert td new rows)"
proof (cases "list_ex (\<lambda>r. same_key td r new) rows")
  case True
  then obtain r where r: "r \<in> set rows" "same_key td r new" by (auto simp: list_ex_iff)
  then have "r ++ new \<in> set (upsert td new rows)" and "same_key td (r ++ new) new"
    using True by (auto simp: set_upsert intro: same_key_trans [OF same_key_add])
  moreover have "\<forall>r\<in>set (upsert td new rows). same_key td r new \<longrightarrow> new \<subseteq>\<^sub>m r"
    using True by (auto simp: set_upsert intro: map_le_map_add)
  ultimately show ?thesis unfolding absorbs_def by blast
qed (auto simp: absorbs_def set_upsert)

lemma absorbs_upsert_other:
  assumes "absorbs td new rows" and "same_key td new new' \<longrightarrow> new' = new"
  shows "absorbs td new (upsert td new' rows)"
  unfolding absorbs_def
proof
  show "\<exists>r\<in>set (upsert td new' rows). same_key td r new"
  proof -
    obtain r where r: "r \<in> set rows" "same_key td r new" using assms(1) by (auto simp: absorbs_def)
    show ?thesis
    proof (cases "same_key td r new'")
      case True
      then have "r ++ new' \<in> set (upsert td new' rows)" using r(1) by (auto simp: set_upsert list_ex_iff)
      moreover have "same_key td (r ++ new') new" using same_key_add [OF True] r(2) same_key_trans by blast
      ultimately show ?thesis by blast
    next
      case False
      then show ?thesis using r by (auto simp: set_upsert)
    qed
  qed
  show "\<forall>r\<in>set (upsert td new' rows). same_key td r new \<longrightarrow> new \<subseteq>\<^sub>m r"
  proof (intro ballI impI)
    fix r
    assume r: "r \<in> set (upsert td new' rows)" "same_key td r new"
    show "new \<subseteq>\<^sub>m r"
    proof (cases "r \<in> set rows")
      case True
      then show ?thesis using assms(1) r(2) by (auto simp: absorbs_def)
    next
      case False
      then consider (upd) s where "s \<in> set rows" "same_key td s new'" "r = s ++ new'" | (ins) "r = new'"
        using r(1) by (auto simp: set_upsert split: if_splits)
      then show ?thesis
      proof cases
        case upd
        then have "same_key td new new'"
          using r(2) same_key_add [of td s new'] by (metis same_key_sym same_key_trans)
        then show ?thesis using assms(2) upd(3) by (auto intro: map_le_map_add)
      next
        case ins
        then show ?thesis using assms(2) r(2) same_key_sym [of td new' new] by (auto simp: map_le_def)
      qed
    qed
  qed
qed

lemma upsert_twice:
  assumes "same_key td x y \<longrightarrow> y = x"
  shows "upsert td y (upsert td x (upsert td y (upsert td x rows))) = upsert td y (upsert td x rows)"
  using absorbs_upsert_other [OF absorbs_upsert [of td x rows], of y] assms
  by (simp add: upsert_absorbs absorbs_upsert)

section \<open>The tables of the service\<close>

abbreviation conversation_columns :: "string list" where
  "conversation_columns \<equiv> [''conversation_id'', ''last_message'']"

definition has_table :: "string \<Rightarrow> TableDef \<Rightarrow> string list \<Rightarrow> (Cell option list \<Rightarrow> 'a option) \<Rightarrow> database \<Rightarrow> bool" where
  "has_table t td cols dec db =
     (case db t of None \<Rightarrow> False | Some (td', rows) \<Rightarrow> td' = td \<and> table_ok cols dec td rows)"

definition db_ok :: "database \<Rightarrow> bool" where
  "db_ok db \<longleftrightarrow> dm_table_ok db \<and> room_table_ok db \<and>
     has_table ''user_conversations'' user_conversations_table conversation_columns dec_conversation db \<and>
     has_table ''dm_lookup'' dm_lookup_table [''conversation_id''] dec_id db \<and>
     has_table ''project_rooms'' project_rooms_table [''room_id''] dec_id db"

lemma has_table_iff:
  "dm_table_ok db \<longleftrightarrow> has_table ''direct_messages'' direct_messages_table message_columns dec_message db"
  "room_table_ok db \<longleftrightarrow> has_table ''room_messages'' room_messages_table room_message_columns dec_room_message db"
  by (auto simp: has_table_def dm_table_ok_def room_table_ok_def split: option.splits)

lemma has_table_other: "t' \<noteq> t \<Longrightarrow> has_table t td cols dec (db(t' \<mapsto> x)) = has_table t td cols dec db"
  by (simp add: has_table_def)

lemma has_table_upsert:
  assumes "has_table t td cols dec db" and "db t = Some (td, rows)"
    and "\<forall>c\<in>set cols. new c \<noteq> None" and "dec (map new cols) \<noteq> None"
  shows "has_table t td cols dec (db(t \<mapsto> (td, upsert td new rows)))"
  using assms table_ok_upsert [of cols dec td rows new] by (simp add: has_table_def)

lemma has_tableE:
  assumes "has_table t td cols dec db"
  obtains rows where "db t = Some (td, rows)" "table_ok cols dec td rows"
  using assms by (auto simp: has_table_def split: option.splits)

lemma db_ok_tables:
  assumes "db_ok db"
  shows "\<exists>rows. db ''direct_messages'' = Some (direct_messages_table, rows)"
    and "\<exists>rows. db ''user_conversations'' = Some (user_conversations_table, rows)"
    and "\<exists>rows. db ''room_messages'' = Some (room_messages_table, rows)"
    and "\<exists>rows. db ''project_rooms'' = Some (project_rooms_table, rows)"
    and "\<exists>rows. db ''dm_lookup'' = Some (dm_lookup_table, rows)"
  using assms by (auto simp: db_ok_def has_table_iff has_table_def split: option.splits)

section \<open>Direct messages\<close>

definition dm_row :: "DirectMessageRow \<Rightarrow> row" where
  "dm_row m = map_of
     [(''project_id'', CText (DirectMessageRow.project_id m)),
      (''conversation_id'', CText (DirectMessageRow.conversation_id m)),
      (''message_id'', CTimeuuid (DirectMessageRow.message_id m)),
      (''sender_id'', CText (DirectMessageRow.sender_id m)),
      (''recipient_id'', CText (DirectMessageRow.recipient_id m)),
      (''message_text'', CText (DirectMessageRow.message_text m)),
      (''created_at'', CTimestamp (DirectMessageRow.created_at m))]"

definition conversation_row :: "string \<Rightarrow> string \<Rightarrow> string \<Rightarrow> millis \<Rightarrow> row" where
  "conversation_row pid uid conv ts = map_of
     [(''project_id'', CText pid), (''user_id'', CText uid), (''conversation_id'', CText conv),
      (''last_message'', CTimestamp ts)]"

definition dm_written :: "DirectMessageRow \<Rightarrow> database \<Rightarrow> database" where
  "dm_written m db =
     (case (db ''direct_messages'', db ''user_conversations'') of
        (Some (td, rows), Some (td', rows')) \<Rightarrow>
          db(''direct_messages'' \<mapsto> (td, upsert td (dm_row m) rows),
             ''user_conversations'' \<mapsto> (td',
               upsert td' (conversation_row (DirectMessageRow.project_id m) (DirectMessageRow.recipient_id m)
                 (DirectMessageRow.conversation_id m) (DirectMessageRow.created_at m))
               (upsert td' (conversation_row (DirectMessageRow.project_id m) (DirectMessageRow.sender_id m)
                 (DirectMessageRow.conversation_id m) (DirectMessageRow.created_at m)) rows')))
      | _ \<Rightarrow> db)"

lemma cql_insert_direct_message:
  assumes "db ''direct_messages'' = Some (direct_messages_table, rows)"
  shows "cql_write ks ok now db q_insert_direct_message
      [TextV (DirectMessageRow.project_id m), TextV (DirectMessageRow.conversation_id m),
       TimeuuidV (DirectMessageRow.message_id m), TextV (DirectMessageRow.sender_id m),
       TextV (DirectMessageRow.recipient_id m), TextV (DirectMessageRow.message_text m),
       TimestampV (DirectMessageRow.created_at m)] =
    Some (db(''direct_messages'' \<mapsto> (direct_messages_table, upsert direct_messages_table (dm_row m) rows)))"
  using assms
  by (simp add: q_insert_direct_message_def table_of_def col_type_def primary_key_def
      direct_messages_table_def dm_row_def)

lemma cql_insert_user_conversation:
  assumes "db ''user_conversations'' = Some (user_conversations_table, rows)"
  shows "cql_write ks ok now db q_insert_user_conversation [TextV pid, TextV uid, TextV conv, TimestampV ts] =
    Some (db(''user_conversations'' \<mapsto>
      (user_conversations_table, upsert user_conversations_table (conversation_row pid uid conv ts) rows)))"
  using assms
  by (simp add: q_insert_user_conversation_def table_of_def col_type_def primary_key_def
      user_conversations_table_def conversation_row_def)

lemma write_direct_message_effect:
  assumes "serves d b" and "db_ok (contents b w)"
  shows "\<exists>w'. write_direct_message d w m = (w', Inr ()) \<and> contents b w' = dm_written m (contents b w)"
proof -
  obtain rows rows' where db: "contents b w ''direct_messages'' = Some (direct_messages_table, rows)"
    "contents b w ''user_conversations'' = Some (user_conversations_table, rows')"
    using db_ok_tables(1,2) [OF assms(2)] by blast
  obtain now where "write_answered b w
      (cql_batch (keyspace b) (uuid_ok b) now (contents b w)
        [q_insert_direct_message, q_insert_user_conversation, q_insert_user_conversation]
        [[TextV (DirectMessageRow.project_id m), TextV (DirectMessageRow.conversation_id m),
          TimeuuidV (DirectMessageRow.message_id m), TextV (DirectMessageRow.sender_id m),
          TextV (DirectMessageRow.recipient_id m), TextV (DirectMessageRow.message_text m),
          TimestampV (DirectMessageRow.created_at m)],
         [TextV (DirectMessageRow.project_id m), TextV (DirectMessageRow.sender_id m),
          TextV (DirectMessageRow.conversation_id m), TimestampV (DirectMessageRow.created_at m)],
         [TextV (DirectMessageRow.project_id m), TextV (DirectMessageRow.recipient_id m),
          TextV (DirectMessageRow.conversation_id m), TimestampV (DirectMessageRow.created_at m)]])
      (write_direct_message d w m)"
    unfolding write_direct_message_def using serves_batch [OF assms(1)] by blast
  then show ?thesis
    by (cases "write_direct_message d w m")
       (auto simp: write_answered_def cql_insert_direct_message db cql_insert_user_conversation
         dm_written_def is_ok_iff)
qed

lemma dm_written_ok: "db_ok db \<Longrightarrow> db_ok (dm_written m db)"
proof -
  assume ok: "db_ok db"
  obtain rows rows' where db: "db ''direct_messages'' = Some (direct_messages_table, rows)"
    "db ''user_conversations'' = Some (user_conversations_table, rows')"
    using db_ok_tables(1,2) [OF ok] by blast
  have "table_ok message_columns dec_message direct_messages_table (upsert direct_messages_table (dm_row m) rows)"
    using ok db by (intro table_ok_upsert) (auto simp: db_ok_def has_table_iff has_table_def dm_row_def)
  moreover have "table_ok conversation_columns dec_conversation user_conversations_table
      (upsert user_conversations_table (conversation_row p u c t)
        (upsert user_conversations_table (conversation_row p' u' c' t') rows'))" for p u c t p' u' c' t'
    using ok db by (intro table_ok_upsert) (auto simp: db_ok_def has_table_def conversation_row_def)
  ultimately show ?thesis
    using ok db by (simp add: db_ok_def has_table_iff has_table_def dm_written_def)
qed

lemma dm_written_twice: "db_ok db \<Longrightarrow> dm_written m (dm_written m db) = dm_written m db"
proof -
  assume ok: "db_ok db"
  obtain rows rows' where db: "db ''direct_messages'' = Some (direct_messages_table, rows)"
    "db ''user_conversations'' = Some (user_conversations_table, rows')"
    using db_ok_tables(1,2) [OF ok] by blast
  have "same_key user_conversations_table (conversation_row p u c t) (conversation_row p u' c t) \<longrightarrow>
      conversation_row p u' c t = conversation_row p u c t" for p u u' c t
    by (simp add: same_key_def primary_key_def user_conversations_table_def conversation_row_def)
  then show ?thesis
    using db absorbs_upsert [of direct_messages_table "dm_row m" rows]
    by (simp add: dm_written_def upsert_twice upsert_absorbs)
qed

text \<open>The messages of a partition after an upsert of a complete row.\<close>

lemma image_upsert:
  assumes new: "\<And>r. g (r ++ new) = nm" "g new = nm" "\<And>r. P (r ++ new) = hit" "P new = hit"
    and key: "\<And>r. r \<in> set rows \<Longrightarrow> P r \<Longrightarrow> same_key td r new \<longleftrightarrow> hit \<and> mid (g r) = i"
  shows "g ` {r \<in> set (upsert td new rows). P r} =
    (if hit then insert nm {x \<in> g ` {r \<in> set rows. P r}. mid x \<noteq> i} else g ` {r \<in> set rows. P r})"
proof -
  define N where "N = (if list_ex (\<lambda>r. same_key td r new) rows
    then (\<lambda>r. r ++ new) ` {r \<in> set rows. same_key td r new} else {new})"
  have N: "N \<noteq> {}" "\<And>x. x \<in> N \<Longrightarrow> g x = nm \<and> P x = hit"
    using new by (auto simp: N_def list_ex_iff split: if_splits)
  have "g ` {r \<in> set (upsert td new rows). P r} =
      g ` {r \<in> set rows. P r \<and> \<not> same_key td r new} \<union> g ` {r \<in> N. P r}"
    unfolding set_upsert N_def [symmetric] by blast
  also have "g ` {r \<in> N. P r} = (if hit then {nm} else {})"
    using N by (auto simp: image_iff)
  also have "g ` {r \<in> set rows. P r \<and> \<not> same_key td r new} =
      (if hit then {x \<in> g ` {r \<in> set rows. P r}. mid x \<noteq> i} else g ` {r \<in> set rows. P r})"
    using key by auto
  finally show ?thesis by (auto split: if_splits)
qed

definition new_message :: "DirectMessageRow \<Rightarrow> DbMessage" where
  "new_message m =
     \<lparr>DbMessage.conversation_id = DirectMessageRow.conversation_id m,
      DbMessage.message_id = DirectMessageRow.message_id m,
      DbMessage.sender_id = DirectMessageRow.sender_id m,
      DbMessage.recipient_id = DirectMessageRow.recipient_id m,
      DbMessage.message_text = DirectMessageRow.message_text m,
      DbMessage.created_at = DirectMessageRow.created_at m\<rparr>"

lemma set_history:
  "db ''direct_messages'' = Some (td, rows) \<Longrightarrow>
   set (history tk db pid conv) = row_message ` {r \<in> set rows. in_partition ''conversation_id'' pid conv r}"
  by (simp add: history_def)

lemma history_after_write:
  assumes "db_ok db"
  shows "set (history tk (dm_written m db) pid conv) =
    (if pid = DirectMessageRow.project_id m \<and> conv = DirectMessageRow.conversation_id m
     then insert (new_message m)
       {x \<in> set (history tk db pid conv). DbMessage.message_id x \<noteq> DirectMessageRow.message_id m}
     else set (history tk db pid conv))"
proof -
  obtain rows rows' where db: "db ''direct_messages'' = Some (direct_messages_table, rows)"
    "db ''user_conversations'' = Some (user_conversations_table, rows')"
    using db_ok_tables(1,2) [OF assms] by blast
  have ok: "table_ok message_columns dec_message direct_messages_table rows"
    using assms db by (simp add: db_ok_def dm_table_ok_def)
  have db': "dm_written m db ''direct_messages'' =
      Some (direct_messages_table, upsert direct_messages_table (dm_row m) rows)"
    using db by (simp add: dm_written_def)
  have row: "row_message (r ++ dm_row m) = new_message m" "row_message (dm_row m) = new_message m" for r
    by (simp_all add: row_message_def dm_row_def db_message_def new_message_def)
  have part: "in_partition ''conversation_id'' pid conv (r ++ dm_row m) \<longleftrightarrow>
      pid = DirectMessageRow.project_id m \<and> conv = DirectMessageRow.conversation_id m"
    "in_partition ''conversation_id'' pid conv (dm_row m) \<longleftrightarrow>
      pid = DirectMessageRow.project_id m \<and> conv = DirectMessageRow.conversation_id m" for r
    by (auto simp: in_partition_def dm_row_def)
  have key: "same_key direct_messages_table r (dm_row m) \<longleftrightarrow>
      (pid = DirectMessageRow.project_id m \<and> conv = DirectMessageRow.conversation_id m) \<and>
      DbMessage.message_id (row_message r) = DirectMessageRow.message_id m"
    if "r \<in> set rows" "in_partition ''conversation_id'' pid conv r" for r
    using that dm_row_id [OF ok that(1)]
    by (auto simp: same_key_def primary_key_def direct_messages_table_def in_partition_def dm_row_def)
  show ?thesis
    unfolding set_history [of "dm_written m db", OF db'] set_history [of db, OF db(1)]
    by (rule image_upsert [OF row part key])
qed

section \<open>Room messages\<close>

definition room_row :: "DbRoomMessageEx \<Rightarrow> row" where
  "room_row m = map_of
     [(''project_id'', CText (DbRoomMessageEx.project_id m)),
      (''room_id'', CText (DbRoomMessageEx.room_id m)),
      (''message_id'', CTimeuuid (DbRoomMessageEx.message_id m)),
      (''sender_id'', CText (DbRoomMessageEx.sender_id m)),
      (''content'', CText (DbRoomMessageEx.content m)),
      (''created_at'', CTimestamp (DbRoomMessageEx.created_at m))]"

definition activity_row :: "DbRoomMessageEx \<Rightarrow> row" where
  "activity_row m = map_of
     [(''last_activity'', CTimestamp (DbRoomMessageEx.created_at m)),
      (''project_id'', CText (DbRoomMessageEx.project_id m)),
      (''room_id'', CText (DbRoomMessageEx.room_id m))]"

definition room_written :: "DbRoomMessageEx \<Rightarrow> database \<Rightarrow> database" where
  "room_written m db =
     (case (db ''room_messages'', db ''project_rooms'') of
        (Some (td, rows), Some (td', rows')) \<Rightarrow>
          db(''room_messages'' \<mapsto> (td, upsert td (room_row m) rows),
             ''project_rooms'' \<mapsto> (td', upsert td' (activity_row m) rows'))
      | _ \<Rightarrow> db)"

lemma cql_insert_room_message:
  assumes "db ''room_messages'' = Some (room_messages_table, rows)"
  shows "cql_write ks ok now db q_insert_room_message
      [TextV (DbRoomMessageEx.project_id m), TextV (DbRoomMessageEx.room_id m),
       UuidV (DbRoomMessageEx.message_id m), TextV (DbRoomMessageEx.sender_id m),
       TextV (DbRoomMessageEx.content m), TimestampV (DbRoomMessageEx.created_at m)] =
    (if ok then Some (db(''room_messages'' \<mapsto> (room_messages_table, upsert room_messages_table (room_row m) rows)))
     else None)"
  using assms
  by (simp add: q_insert_room_message_def table_of_def col_type_def primary_key_def
      room_messages_table_def room_row_def)

lemma cql_update_project_room:
  assumes "db ''project_rooms'' = Some (project_rooms_table, rows)"
  shows "cql_write ks ok now db q_update_project_room
      [TimestampV (DbRoomMessageEx.created_at m), TextV (DbRoomMessageEx.project_id m),
       TextV (DbRoomMessageEx.room_id m)] =
    Some (db(''project_rooms'' \<mapsto> (project_rooms_table, upsert project_rooms_table (activity_row m) rows)))"
  using assms
  by (simp add: q_update_project_room_def table_of_def col_type_def primary_key_def
      project_rooms_table_def activity_row_def insert_commute)

lemma write_room_message_effect:
  assumes "serves d b" and "db_ok (contents b w)"
  shows "if uuid_ok b
    then \<exists>w'. write_room_message_row d w m = (w', Inr ()) \<and> contents b w' = room_written m (contents b w)
    else \<exists>w' e. write_room_message_row d w m = (w', Inl e) \<and> contents b w' = contents b w"
proof -
  obtain rows rows' where db: "contents b w ''room_messages'' = Some (room_messages_table, rows)"
    "contents b w ''project_rooms'' = Some (project_rooms_table, rows')"
    using db_ok_tables(3,4) [OF assms(2)] by blast
  obtain now where "write_answered b w
      (cql_batch (keyspace b) (uuid_ok b) now (contents b w) [q_insert_room_message, q_update_project_room]
        [[TextV (DbRoomMessageEx.project_id m), TextV (DbRoomMessageEx.room_id m),
          UuidV (DbRoomMessageEx.message_id m), TextV (DbRoomMessageEx.sender_id m),
          TextV (DbRoomMessageEx.content m), TimestampV (DbRoomMessageEx.created_at m)],
         [TimestampV (DbRoomMessageEx.created_at m), TextV (DbRoomMessageEx.project_id m),
          TextV (DbRoomMessageEx.room_id m)]])
      (write_room_message_row d w m)"
    unfolding write_room_message_row_def using serves_batch [OF assms(1)] by blast
  then show ?thesis
    by (cases "write_room_message_row d w m"; cases "snd (write_room_message_row d w m)")
       (auto simp: write_answered_def cql_insert_room_message db cql_update_project_room room_written_def
         split: if_splits)
qed

lemma room_written_ok: "db_ok db \<Longrightarrow> db_ok (room_written m db)"
proof -
  assume ok: "db_ok db"
  obtain rows rows' where db: "db ''room_messages'' = Some (room_messages_table, rows)"
    "db ''project_rooms'' = Some (project_rooms_table, rows')"
    using db_ok_tables(3,4) [OF ok] by blast
  have "table_ok room_message_columns dec_room_message room_messages_table (upsert room_messages_table (room_row m) rows)"
    using ok db by (intro table_ok_upsert) (auto simp: db_ok_def has_table_iff has_table_def room_row_def)
  moreover have "table_ok [''room_id''] dec_id project_rooms_table (upsert project_rooms_table (activity_row m) rows')"
    using ok db by (intro table_ok_upsert) (auto simp: db_ok_def has_table_def activity_row_def)
  ultimately show ?thesis
    using ok db by (simp add: db_ok_def has_table_iff has_table_def room_written_def)
qed

lemma room_written_twice: "db_ok db \<Longrightarrow> room_written m (room_written m db) = room_written m db"
  using db_ok_tables(3,4) [of db]
  by (auto simp: room_written_def upsert_absorbs [OF absorbs_upsert])

definition new_room_message :: "DbRoomMessageEx \<Rightarrow> DbRoomMessage" where
  "new_room_message m =
     \<lparr>DbRoomMessage.room_id = DbRoomMessageEx.room_id m,
      DbRoomMessage.message_id = DbRoomMessageEx.message_id m,
      DbRoomMessage.sender_id = DbRoomMessageEx.sender_id m,
      DbRoomMessage.content = DbRoomMessageEx.content m,
      DbRoomMessage.created_at = DbRoomMessageEx.created_at m\<rparr>"

lemma set_room_history:
  "db ''room_messages'' = Some (td, rows) \<Longrightarrow>
   set (room_history tk db pid rid) = row_room_message ` {r \<in> set rows. in_partition ''room_id'' pid rid r}"
  by (simp add: room_history_def)

lemma room_history_after_write:
  assumes "db_ok db"
  shows "set (room_history tk (room_written m db) pid rid) =
    (if pid = DbRoomMessageEx.project_id m \<and> rid = DbRoomMessageEx.room_id m
     then insert (new_room_message m)
       {x \<in> set (room_history tk db pid rid). DbRoomMessage.message_id x \<noteq> DbRoomMessageEx.message_id m}
     else set (room_history tk db pid rid))"
proof -
  obtain rows rows' where db: "db ''room_messages'' = Some (room_messages_table, rows)"
    "db ''project_rooms'' = Some (project_rooms_table, rows')"
    using db_ok_tables(3,4) [OF assms] by blast
  have ok: "table_ok room_message_columns dec_room_message room_messages_table rows"
    using assms db by (simp add: db_ok_def has_table_iff has_table_def)
  have db': "room_written m db ''room_messages'' =
      Some (room_messages_table, upsert room_messages_table (room_row m) rows)"
    using db by (simp add: room_written_def)
  have row: "row_room_message (r ++ room_row m) = new_room_message m" "row_room_message (room_row m) = new_room_message m" for r
    by (simp_all add: row_room_message_def room_row_def db_room_message_def new_room_message_def)
  have part: "in_partition ''room_id'' pid rid (r ++ room_row m) \<longleftrightarrow>
      pid = DbRoomMessageEx.project_id m \<and> rid = DbRoomMessageEx.room_id m"
    "in_partition ''room_id'' pid rid (room_row m) \<longleftrightarrow>
      pid = DbRoomMessageEx.project_id m \<and> rid = DbRoomMessageEx.room_id m" for r
    by (auto simp: in_partition_def room_row_def)
  have key: "same_key room_messages_table r (room_row m) \<longleftrightarrow>
      (pid = DbRoomMessageEx.project_id m \<and> rid = DbRoomMessageEx.room_id m) \<and>
      DbRoomMessage.message_id (row_room_message r) = DbRoomMessageEx.message_id m"
    if "r \<in> set rows" "in_partition ''room_id'' pid rid r" for r
    using that room_row_id [OF ok that(1)]
    by (auto simp: same_key_def primary_key_def room_messages_table_def in_partition_def room_row_def)
  show ?thesis
    unfolding set_room_history [of "room_written m db", OF db'] set_room_history [of db, OF db(1)]
    by (rule image_upsert [OF row part key])
qed

text \<open>Direct messages and room messages are in tables of their own.\<close>

lemma histories_separate [simp]:
  "history tk (room_written m db) pid conv = history tk db pid conv"
  "room_history tk (dm_written m' db) pid rid = room_history tk db pid rid"
  by (auto simp: history_def room_history_def room_written_def dm_written_def split: option.splits)

section \<open>Conversations between two users\<close>

definition lookup_match :: "string \<Rightarrow> string \<times> string \<Rightarrow> row \<Rightarrow> bool" where
  "lookup_match pid users r \<longleftrightarrow> r ''project_id'' = Some (CText pid) \<and>
     r ''user_id_1'' = Some (CText (fst users)) \<and> r ''user_id_2'' = Some (CText (snd users))"

definition lookup_id :: "database \<Rightarrow> string \<Rightarrow> string \<times> string \<Rightarrow> string option" where
  "lookup_id db pid users =
     (case db ''dm_lookup'' of
        None \<Rightarrow> None
      | Some (td, rows) \<Rightarrow>
          (case filter (lookup_match pid users) rows of
             [] \<Rightarrow> None
           | r # rs \<Rightarrow> dec_id [r ''conversation_id'']))"

lemma cql_select_dm_lookup:
  assumes "db ''dm_lookup'' = Some (dm_lookup_table, rows)"
  shows "cql_select ks ok tk db q_select_dm_lookup [TextV pid, TextV (fst users), TextV (snd users)] =
    Some ([Text_t], map (\<lambda>r. [r ''conversation_id'']) (filter (lookup_match pid users) rows))"
  using assms
  by (simp add: q_select_dm_lookup_def select_simps lookup_match_def [abs_def] dm_lookup_table_def
      arrange_def clustering_place_def [abs_def] sort_key_const)

lemma getsert_lookup_exact:
  assumes "serves d b" and "db_ok (contents b w)"
  shows "\<exists>w'. getsert_lookup d w pid users = (w', Inr (lookup_id (contents b w) pid users)) \<and>
    contents b w' = contents b w"
proof -
  obtain rows where db: "contents b w ''dm_lookup'' = Some (dm_lookup_table, rows)"
    using db_ok_tables(5) [OF assms(2)] by blast
  have ok: "table_ok [''conversation_id''] dec_id dm_lookup_table rows"
    using assms(2) db by (simp add: db_ok_def has_table_def)
  let ?res = "query_unpaged d w q_select_dm_lookup [TextV pid, TextV (fst users), TextV (snd users)]"
  have "select_answered d b w q_select_dm_lookup [TextV pid, TextV (fst users), TextV (snd users)] ?res"
    by (rule serves_select [OF assms(1)]) simp
  then obtain r rr where r: "snd ?res = Inr r" "into_rows_result d r = Inr rr" "contents b (fst ?res) = contents b w"
    and rs: "result_set_of b rr = ([Text_t], map (\<lambda>r. [r ''conversation_id'']) (filter (lookup_match pid users) rows))"
    using cql_select_dm_lookup [of "contents b w", OF db] by (auto simp: select_answered_def)
  from serves_rows(5) [OF assms(1), of rr] rs obtain xs where xs: "rows_id d rr = Inr xs"
    "list_all2 (row_read dec_id) (map (\<lambda>r. [r ''conversation_id'']) (filter (lookup_match pid users) rows)) xs"
    by (auto simp: typed_rows_def split: sum.splits)
  show ?thesis
  proof (cases "filter (lookup_match pid users) rows")
    case Nil
    then show ?thesis using r xs db by (cases ?res) (simp add: getsert_lookup_def lookup_id_def)
  next
    case (Cons x xs')
    then have "x \<in> set (filter (lookup_match pid users) rows)" by simp
    then have "x \<in> set rows" by simp
    then obtain a where "dec_id [x ''conversation_id''] = Some a"
      using ok by (auto simp: table_ok_def list_all_iff)
    then show ?thesis
      using r xs db Cons by (cases ?res; cases xs) (auto simp: getsert_lookup_def lookup_id_def row_read_def)
  qed
qed

definition lookup_row :: "string \<Rightarrow> string \<times> string \<Rightarrow> string \<Rightarrow> millis \<Rightarrow> row" where
  "lookup_row pid users conv now = map_of
     [(''project_id'', CText pid), (''user_id_1'', CText (fst users)), (''user_id_2'', CText (snd users)),
      (''conversation_id'', CText conv), (''created_at'', CTimestamp now)]"

definition lookup_inserted :: "string \<Rightarrow> string \<times> string \<Rightarrow> string \<Rightarrow> millis \<Rightarrow> database \<Rightarrow> database" where
  "lookup_inserted pid users conv now db =
     (case db ''dm_lookup'' of
        None \<Rightarrow> db
      | Some (td, rows) \<Rightarrow> db(''dm_lookup'' \<mapsto> (td, upsert td (lookup_row pid users conv now) rows)))"

lemma getsert_insert_effect:
  assumes "serves d b" and "db_ok (contents b w)"
  shows "\<exists>w' now. getsert_insert d new_id w pid users = (w', Inr (new_id, True)) \<and>
    contents b w' = lookup_inserted pid users new_id now (contents b w)"
proof -
  obtain rows where db: "contents b w ''dm_lookup'' = Some (dm_lookup_table, rows)"
    using db_ok_tables(5) [OF assms(2)] by blast
  let ?vals = "[TextV pid, TextV (fst users), TextV (snd users), TextV new_id]"
  have "cql_write (keyspace b) (uuid_ok b) now (contents b w) q_insert_dm_lookup ?vals =
      Some (lookup_inserted pid users new_id now (contents b w))" for now
    using db by (simp add: q_insert_dm_lookup_def table_of_def col_type_def primary_key_def dm_lookup_table_def
        lookup_inserted_def lookup_row_def)
  moreover obtain now where "write_answered b w
      (cql_write (keyspace b) (uuid_ok b) now (contents b w) q_insert_dm_lookup ?vals)
      (query_unpaged d w q_insert_dm_lookup ?vals)"
    using serves_write [OF assms(1), of q_insert_dm_lookup] by auto
  ultimately show ?thesis
    by (cases "query_unpaged d w q_insert_dm_lookup ?vals")
       (auto simp: getsert_insert_def write_answered_def is_ok_iff)
qed

lemma lookup_inserted_ok: "db_ok db \<Longrightarrow> db_ok (lookup_inserted pid users conv now db)"
proof -
  assume ok: "db_ok db"
  obtain rows where db: "db ''dm_lookup'' = Some (dm_lookup_table, rows)"
    using db_ok_tables(5) [OF ok] by blast
  have "table_ok [''conversation_id''] dec_id dm_lookup_table
      (upsert dm_lookup_table (lookup_row pid users conv now) rows)"
    using ok db by (intro table_ok_upsert) (auto simp: db_ok_def has_table_def lookup_row_def)
  then show ?thesis using ok db by (simp add: db_ok_def has_table_iff has_table_def lookup_inserted_def)
qed

lemma histories_lookup_inserted [simp]:
  "history tk (lookup_inserted pid users conv now db) p c = history tk db p c"
  "room_history tk (lookup_inserted pid users conv now db) p rid = room_history tk db p rid"
  by (auto simp: history_def room_history_def lookup_inserted_def split: option.splits)

lemma lookup_match_key:
  "lookup_match pid users r \<longleftrightarrow> same_key dm_lookup_table r (lookup_row pid users conv now)"
  by (auto simp: lookup_match_def same_key_def primary_key_def dm_lookup_table_def lookup_row_def)

lemma lookup_match_new:
  "lookup_match p u (lookup_row pid users conv now) \<longleftrightarrow> p = pid \<and> u = users"
  by (auto simp: lookup_match_def lookup_row_def prod_eq_iff)

lemma lookup_match_unique: "lookup_match pid users r \<Longrightarrow> lookup_match p u r \<longleftrightarrow> p = pid \<and> u = users"
  by (auto simp: lookup_match_def prod_eq_iff)

lemma inserted_first:
  "db ''dm_lookup'' = Some (td, rows) \<Longrightarrow>
   filter (lookup_match p u) (upsert td (lookup_row pid users conv now) rows) = r # rs \<Longrightarrow>
   lookup_id (lookup_inserted pid users conv now db) p u = dec_id [r ''conversation_id'']"
  by (simp add: lookup_id_def lookup_inserted_def)

text \<open>The row of a pair of users, before and after the upsert of a row.\<close>

definition merged :: "string \<Rightarrow> (string \<times> string) \<Rightarrow> string \<Rightarrow> int \<Rightarrow> row \<Rightarrow> row" where
  "merged pid users conv now r = (if lookup_match pid users r then r ++ lookup_row pid users conv now else r)"

lemma lookup_upsert:
  "upsert dm_lookup_table (lookup_row pid users conv now) rows =
    (if list_ex (lookup_match pid users) rows then map (merged pid users conv now) rows
     else rows @ [lookup_row pid users conv now])"
  by (simp add: upsert_def merged_def [abs_def] lookup_match_key [of pid users _ conv now, symmetric])

lemma filter_merged:
  "filter (lookup_match p u) (map (merged pid users conv now) rows) =
   map (merged pid users conv now) (filter (lookup_match p u) rows)"
proof -
  have "lookup_match p u (merged pid users conv now r) = lookup_match p u r" for r
    by (auto simp: merged_def lookup_match_def lookup_row_def)
  then show ?thesis by (simp add: filter_map comp_def)
qed

lemma lookup_upsert_hit:
  assumes "filter (lookup_match pid users) rows = r # rs"
  shows "filter (lookup_match pid users) (upsert dm_lookup_table (lookup_row pid users conv now) rows) =
    (r ++ lookup_row pid users conv now) # map (merged pid users conv now) rs"
proof -
  have "r \<in> set (filter (lookup_match pid users) rows)" using assms by simp
  then have r: "lookup_match pid users r" "list_ex (lookup_match pid users) rows" by (auto simp: list_ex_iff)
  then show ?thesis unfolding lookup_upsert by (simp add: filter_merged assms) (simp add: merged_def)
qed

lemma lookup_upsert_miss:
  assumes "filter (lookup_match p u) rows = r # rs" and "\<not> (p = pid \<and> u = users)"
  shows "\<exists>rs'. filter (lookup_match p u) (upsert dm_lookup_table (lookup_row pid users conv now) rows) = r # rs'"
proof -
  have "r \<in> set (filter (lookup_match p u) rows)" using assms(1) by simp
  then have "lookup_match p u r" by simp
  then have "merged pid users conv now r = r"
    using lookup_match_unique [of p u r pid users] assms(2) by (auto simp: merged_def)
  then show ?thesis unfolding lookup_upsert by (simp add: filter_merged assms(1))
qed

text \<open>An insert sets the conversation of its two users and of no one else.\<close>

lemma lookup_after_insert:
  assumes "db_ok db"
  shows "lookup_id (lookup_inserted pid users conv now db) p u =
    (if p = pid \<and> u = users then Some conv else lookup_id db p u)"
proof -
  obtain rows where db: "db ''dm_lookup'' = Some (dm_lookup_table, rows)"
    using db_ok_tables(5) [OF assms] by blast
  let ?new = "lookup_row pid users conv now"
  have conv: "(r ++ ?new) ''conversation_id'' = Some (CText conv)" for r
    by (simp add: lookup_row_def)
  show ?thesis
  proof (cases "filter (lookup_match p u) rows")
    case Nil
    then have "p = pid \<and> u = users \<Longrightarrow> \<not> list_ex (lookup_match pid users) rows"
      by (auto simp: filter_empty_conv list_ex_iff)
    then show ?thesis
      using Nil db
      by (auto simp: lookup_id_def lookup_inserted_def lookup_match_new lookup_upsert filter_merged conv [of Map.empty, simplified])
  next
    case (Cons r rs)
    show ?thesis
    proof (cases "p = pid \<and> u = users")
      case True
      from inserted_first [of db, OF db, of p u, unfolded True [THEN conjunct1] True [THEN conjunct2],
        OF lookup_upsert_hit] Cons True conv [of r] show ?thesis by simp
    next
      case False
      then obtain rs' where "filter (lookup_match p u) (upsert dm_lookup_table ?new rows) = r # rs'"
        using lookup_upsert_miss [OF Cons] by blast
      from inserted_first [of db, OF db this] show ?thesis using False db Cons by (auto simp: lookup_id_def)
    qed
  qed
qed

text \<open>The tables as the migrations leave them, without rows, for examples.\<close>

definition empty_db :: database where
  "empty_db = [''direct_messages'' \<mapsto> (direct_messages_table, []), ''room_messages'' \<mapsto> (room_messages_table, []),
     ''user_conversations'' \<mapsto> (user_conversations_table, []), ''dm_lookup'' \<mapsto> (dm_lookup_table, []),
     ''project_rooms'' \<mapsto> (project_rooms_table, [])]"

lemma empty_db_ok: "db_ok empty_db"
  by (simp add: db_ok_def has_table_iff has_table_def empty_db_def table_ok_def row_keys_def)

end
