(* ===== verification/Chat_Proto.thy ===== *)
theory Chat_Proto
  imports Prelude
begin

text \<open>
  The messages of \<^verbatim>\<open>chat_service.proto\<close>, the interface between the gateway
  (\<^verbatim>\<open>peroxo/src/actors/persistance_actor\<close>, the client) and \<^verbatim>\<open>chat-service\<close> (the server), as the
  records tonic generates from it. A \<^verbatim>\<open>string\<close> field that is absent on the wire is empty, a
  message field that is absent is \<^const>\<open>None\<close>. \<^verbatim>\<open>DirectMessage\<close>, \<^verbatim>\<open>RoomMessage\<close> and \<^verbatim>\<open>TenantUserId\<close>
  carry the suffix \<^verbatim>\<open>Pb\<close>, since the crates have types of their own with these names.
\<close>

record WriteDmRequest =
  project_id :: string
  conversation_id :: string
  sender_id :: string
  receiver_id :: string
  message :: string
  message_id :: string
  timestamp :: millis

record WriteDmResponse =
  success :: bool
  error_message :: string

record TenantUserIdPb =
  project_id :: string
  user_id :: string

record FetchUserConversationsRequest =
  tenant_user_id :: "TenantUserIdPb option"

record UserConversation =
  conversation_id :: string
  last_message :: millis

record FetchUserConversationsResponse =
  success :: bool
  error_message :: string
  conversations :: "UserConversation list"

record FetchConversationHistoryRequest =
  project_id :: string
  conversation_id :: string

record ConversationMessage =
  message_id :: string
  message_text :: string
  sender_id :: string
  recipient_id :: string
  created_at :: millis

record FetchConversationHistoryResponse =
  success :: bool
  error_message :: string
  messages :: "ConversationMessage list"

record GetPaginatedMessagesRequest =
  project_id :: string
  conversation_id :: string
  cursor_message_id :: string

record DirectMessagePb =
  conversation_id :: string
  message_id :: string
  sender_id :: string
  recipient_id :: string
  message_text :: string
  created_at :: millis

record GetPaginatedMessagesResponse =
  success :: bool
  error_message :: string
  messages :: "DirectMessagePb list"
  next_cursor :: string

record WriteRoomMessageRequest =
  project_id :: string
  room_id :: string
  sender_id :: string
  content :: string
  message_id :: string
  timestamp :: millis

record WriteRoomMessageResponse =
  success :: bool
  error_message :: string

record RoomMessagePb =
  room_id :: string
  message_id :: string
  sender_id :: string
  content :: string
  created_at :: millis

record GetPaginatedRoomMessagesRequest =
  project_id :: string
  room_id :: string
  cursor_message_id :: string

record GetPaginatedRoomMessagesResponse =
  success :: bool
  error_message :: string
  messages :: "RoomMessagePb list"
  next_cursor :: string

record SyncMessagesRequest =
  project_id :: string
  conversation_id :: string
  last_message_id :: string

record SyncMessagesResponse =
  success :: bool
  error_message :: string
  messages :: "DirectMessagePb list"

record GetSertConversationRequest =
  project_id :: string
  user_id_1 :: string
  user_id_2 :: string

record GetSertConversationResponse =
  success :: bool
  error_message :: string
  conversation_id :: string
  created_new :: bool

end
