(* ===== verification/Chat_Service.thy ===== *)
theory Chat_Service
  imports Chat_Writes Chat_Proto
begin

text \<open>
  \<^verbatim>\<open>chat-service/src/chat_services.rs\<close>: the gRPC handlers of \<^verbatim>\<open>ChatService\<close>, one definition each. Every
  handler answers \<^verbatim>\<open>Ok(Response)\<close>, so its value is the response; failures are in its \<^verbatim>\<open>success\<close> and
  \<^verbatim>\<open>error_message\<close>. \<open>u\<close> is the crate \<^verbatim>\<open>uuid\<close>, \<open>session\<close> the driver and \<open>queries\<close> the prepared statement.
\<close>

section \<open>Handlers\<close>

definition get_sert_conversation ::
  "UuidOps \<Rightarrow> ('w, 'r, 'rows, 'p) Session \<Rightarrow> 'w \<Rightarrow> GetSertConversationRequest \<Rightarrow> 'w \<times> GetSertConversationResponse" where
  "get_sert_conversation u session w req =
     (if GetSertConversationRequest.project_id req = [] \<or> user_id_1 req = [] \<or> user_id_2 req = []
      then (w, \<lparr>GetSertConversationResponse.success = False,
          GetSertConversationResponse.error_message = ''project_id, user_id_1, and user_id_2 are required'',
          GetSertConversationResponse.conversation_id = [], created_new = False\<rparr>)
      else if user_id_1 req = user_id_2 req
      then (w, \<lparr>GetSertConversationResponse.success = False,
          GetSertConversationResponse.error_message = ''Cannot create conversation with self'',
          GetSertConversationResponse.conversation_id = [], created_new = False\<rparr>)
      else (case getsert_conversation_id session (to_string u (new_v4 u 0)) w
              (GetSertConversationRequest.project_id req) (user_id_1 req) (user_id_2 req) of
          (w', Inr (conv, created)) \<Rightarrow>
            (w', \<lparr>GetSertConversationResponse.success = True, GetSertConversationResponse.error_message = [],
              GetSertConversationResponse.conversation_id = conv, created_new = created\<rparr>)
        | (w', Inl e) \<Rightarrow>
            (w', \<lparr>GetSertConversationResponse.success = False, GetSertConversationResponse.error_message = e,
              GetSertConversationResponse.conversation_id = [], created_new = False\<rparr>)))"

definition service_write_dm ::
  "UuidOps \<Rightarrow> ('w, 'r, 'rows, 'p) Session \<Rightarrow> 'w \<Rightarrow> WriteDmRequest \<Rightarrow> 'w \<times> WriteDmResponse" where
  "service_write_dm u session w req =
     (if WriteDmRequest.project_id req = [] \<or> WriteDmRequest.conversation_id req = []
      then (w, \<lparr>WriteDmResponse.success = False,
          WriteDmResponse.error_message = ''project_id and conversation_id are required''\<rparr>)
      else (case parse_str u (WriteDmRequest.message_id req) of
          None \<Rightarrow> (w, \<lparr>WriteDmResponse.success = False, WriteDmResponse.error_message = ''Invalid message_id UUID''\<rparr>)
        | Some mid \<Rightarrow>
            (case write_direct_message session w
                \<lparr>DirectMessageRow.project_id = WriteDmRequest.project_id req,
                 DirectMessageRow.conversation_id = WriteDmRequest.conversation_id req,
                 DirectMessageRow.message_id = mid,
                 DirectMessageRow.sender_id = WriteDmRequest.sender_id req,
                 DirectMessageRow.recipient_id = WriteDmRequest.receiver_id req,
                 DirectMessageRow.message_text = WriteDmRequest.message req,
                 DirectMessageRow.created_at = WriteDmRequest.timestamp req\<rparr> of
               (w', Inr _) \<Rightarrow> (w', \<lparr>WriteDmResponse.success = True, WriteDmResponse.error_message = []\<rparr>)
             | (w', Inl e) \<Rightarrow> (w', \<lparr>WriteDmResponse.success = False, WriteDmResponse.error_message = e\<rparr>))))"

definition service_fetch_user_conversations ::
  "('w, 'r, 'rows, 'p) Session \<Rightarrow> 'w \<Rightarrow> FetchUserConversationsRequest \<Rightarrow> 'w \<times> FetchUserConversationsResponse" where
  "service_fetch_user_conversations session w req =
     (case tenant_user_id req of
        None \<Rightarrow> (w, \<lparr>FetchUserConversationsResponse.success = False,
          FetchUserConversationsResponse.error_message = ''Missing tenant_user_id'', conversations = []\<rparr>)
      | Some tenant_id \<Rightarrow>
          if TenantUserIdPb.project_id tenant_id = [] \<or> TenantUserIdPb.user_id tenant_id = []
          then (w, \<lparr>FetchUserConversationsResponse.success = False,
            FetchUserConversationsResponse.error_message = ''project_id and user_id are required'',
            conversations = []\<rparr>)
          else (case fetch_user_conversations session w (TenantUserIdPb.project_id tenant_id)
                  (TenantUserIdPb.user_id tenant_id) of
              (w', Inr conversations_data) \<Rightarrow>
                (w', \<lparr>FetchUserConversationsResponse.success = True,
                  FetchUserConversationsResponse.error_message = [],
                  conversations = map (\<lambda>(conv, last). \<lparr>UserConversation.conversation_id = conv, last_message = last\<rparr>)
                    conversations_data\<rparr>)
            | (w', Inl e) \<Rightarrow>
                (w', \<lparr>FetchUserConversationsResponse.success = False,
                  FetchUserConversationsResponse.error_message = e, conversations = []\<rparr>)))"

definition service_fetch_conversation_history ::
  "UuidOps \<Rightarrow> ('w, 'r, 'rows, 'p) Session \<Rightarrow> 'w \<Rightarrow> FetchConversationHistoryRequest \<Rightarrow>
   'w \<times> FetchConversationHistoryResponse" where
  "service_fetch_conversation_history u session w req =
     (if FetchConversationHistoryRequest.project_id req = [] \<or> FetchConversationHistoryRequest.conversation_id req = []
      then (w, \<lparr>FetchConversationHistoryResponse.success = False,
          FetchConversationHistoryResponse.error_message = ''project_id and conversation_id are required'',
          FetchConversationHistoryResponse.messages = []\<rparr>)
      else (case fetch_conversation_history session w (FetchConversationHistoryRequest.project_id req)
              (FetchConversationHistoryRequest.conversation_id req) of
          (w', Inr messages_data) \<Rightarrow>
            (w', \<lparr>FetchConversationHistoryResponse.success = True,
              FetchConversationHistoryResponse.error_message = [],
              FetchConversationHistoryResponse.messages =
                map (\<lambda>(mid, text, sender, recipient, created).
                  \<lparr>ConversationMessage.message_id = to_string u mid, ConversationMessage.message_text = text,
                   ConversationMessage.sender_id = sender, ConversationMessage.recipient_id = recipient,
                   ConversationMessage.created_at = created\<rparr>) messages_data\<rparr>)
        | (w', Inl e) \<Rightarrow>
            (w', \<lparr>FetchConversationHistoryResponse.success = False,
              FetchConversationHistoryResponse.error_message = e,
              FetchConversationHistoryResponse.messages = []\<rparr>)))"

text \<open>The closure that maps a row to a message of the protocol, and the parsing of a cursor.\<close>

definition direct_message_pb :: "UuidOps \<Rightarrow> DbMessage \<Rightarrow> DirectMessagePb" where
  "direct_message_pb u m =
     \<lparr>DirectMessagePb.conversation_id = DbMessage.conversation_id m,
      DirectMessagePb.message_id = to_string u (DbMessage.message_id m),
      DirectMessagePb.sender_id = DbMessage.sender_id m,
      DirectMessagePb.recipient_id = DbMessage.recipient_id m,
      DirectMessagePb.message_text = DbMessage.message_text m,
      DirectMessagePb.created_at = DbMessage.created_at m\<rparr>"

definition room_message_pb :: "UuidOps \<Rightarrow> DbRoomMessage \<Rightarrow> RoomMessagePb" where
  "room_message_pb u m =
     \<lparr>RoomMessagePb.room_id = DbRoomMessage.room_id m,
      RoomMessagePb.message_id = to_string u (DbRoomMessage.message_id m),
      RoomMessagePb.sender_id = DbRoomMessage.sender_id m,
      RoomMessagePb.content = DbRoomMessage.content m,
      RoomMessagePb.created_at = DbRoomMessage.created_at m\<rparr>"

definition parse_cursor :: "UuidOps \<Rightarrow> string \<Rightarrow> uuid option option" where
  "parse_cursor u cursor_text =
     (if trim_is_empty cursor_text then Some None else map_option Some (parse_str u cursor_text))"

definition service_get_paginated_messages ::
  "UuidOps \<Rightarrow> ('w, 'r, 'rows, 'p) Session \<Rightarrow> 'w \<Rightarrow> GetPaginatedMessagesRequest \<Rightarrow>
   'w \<times> GetPaginatedMessagesResponse" where
  "service_get_paginated_messages u session w req =
     (case parse_cursor u (GetPaginatedMessagesRequest.cursor_message_id req) of
        None \<Rightarrow> (w, \<lparr>GetPaginatedMessagesResponse.success = False,
          GetPaginatedMessagesResponse.error_message = ''Invalid cursor_message_id'',
          GetPaginatedMessagesResponse.messages = [], GetPaginatedMessagesResponse.next_cursor = []\<rparr>)
      | Some cursor \<Rightarrow>
          if GetPaginatedMessagesRequest.project_id req = [] \<or> GetPaginatedMessagesRequest.conversation_id req = []
          then (w, \<lparr>GetPaginatedMessagesResponse.success = False,
            GetPaginatedMessagesResponse.error_message = ''project_id and conversation_id are required'',
            GetPaginatedMessagesResponse.messages = [], GetPaginatedMessagesResponse.next_cursor = []\<rparr>)
          else (case fetch_paginated_messages session w (GetPaginatedMessagesRequest.project_id req)
                  (GetPaginatedMessagesRequest.conversation_id req) cursor of
              (w', Inr messages_data) \<Rightarrow>
                (w', \<lparr>GetPaginatedMessagesResponse.success = True,
                  GetPaginatedMessagesResponse.error_message = [],
                  GetPaginatedMessagesResponse.messages = map (direct_message_pb u) messages_data,
                  GetPaginatedMessagesResponse.next_cursor =
                    (if messages_data = [] then [] else to_string u (DbMessage.message_id (last messages_data)))\<rparr>)
            | (w', Inl e) \<Rightarrow>
                (w', \<lparr>GetPaginatedMessagesResponse.success = False,
                  GetPaginatedMessagesResponse.error_message = e,
                  GetPaginatedMessagesResponse.messages = [], GetPaginatedMessagesResponse.next_cursor = []\<rparr>)))"

definition service_write_room_message ::
  "UuidOps \<Rightarrow> ('w, 'r, 'rows, 'p) Session \<Rightarrow> 'w \<Rightarrow> WriteRoomMessageRequest \<Rightarrow> 'w \<times> WriteRoomMessageResponse" where
  "service_write_room_message u session w req =
     (if WriteRoomMessageRequest.project_id req = [] \<or> WriteRoomMessageRequest.room_id req = []
      then (w, \<lparr>WriteRoomMessageResponse.success = False,
          WriteRoomMessageResponse.error_message = ''project_id and room_id are required''\<rparr>)
      else (case parse_str u (WriteRoomMessageRequest.message_id req) of
          None \<Rightarrow> (w, \<lparr>WriteRoomMessageResponse.success = False,
            WriteRoomMessageResponse.error_message = ''Invalid message_id UUID''\<rparr>)
        | Some mid \<Rightarrow>
            (case write_room_message_row session w
                \<lparr>DbRoomMessageEx.project_id = WriteRoomMessageRequest.project_id req,
                 DbRoomMessageEx.room_id = WriteRoomMessageRequest.room_id req,
                 DbRoomMessageEx.message_id = mid,
                 DbRoomMessageEx.sender_id = WriteRoomMessageRequest.sender_id req,
                 DbRoomMessageEx.content = WriteRoomMessageRequest.content req,
                 DbRoomMessageEx.created_at = WriteRoomMessageRequest.timestamp req\<rparr> of
               (w', Inr _) \<Rightarrow> (w', \<lparr>WriteRoomMessageResponse.success = True, WriteRoomMessageResponse.error_message = []\<rparr>)
             | (w', Inl e) \<Rightarrow> (w', \<lparr>WriteRoomMessageResponse.success = False, WriteRoomMessageResponse.error_message = e\<rparr>))))"

definition service_get_paginated_room_messages ::
  "UuidOps \<Rightarrow> ('w, 'r, 'rows, 'p) Session \<Rightarrow> 'w \<Rightarrow> GetPaginatedRoomMessagesRequest \<Rightarrow>
   'w \<times> GetPaginatedRoomMessagesResponse" where
  "service_get_paginated_room_messages u session w req =
     (case parse_cursor u (GetPaginatedRoomMessagesRequest.cursor_message_id req) of
        None \<Rightarrow> (w, \<lparr>GetPaginatedRoomMessagesResponse.success = False,
          GetPaginatedRoomMessagesResponse.error_message = ''Invalid cursor_message_id'',
          GetPaginatedRoomMessagesResponse.messages = [], GetPaginatedRoomMessagesResponse.next_cursor = []\<rparr>)
      | Some cursor \<Rightarrow>
          if GetPaginatedRoomMessagesRequest.project_id req = [] \<or> GetPaginatedRoomMessagesRequest.room_id req = []
          then (w, \<lparr>GetPaginatedRoomMessagesResponse.success = False,
            GetPaginatedRoomMessagesResponse.error_message = ''project_id and room_id are required'',
            GetPaginatedRoomMessagesResponse.messages = [], GetPaginatedRoomMessagesResponse.next_cursor = []\<rparr>)
          else (case fetch_paginated_room_messages session w (GetPaginatedRoomMessagesRequest.project_id req)
                  (GetPaginatedRoomMessagesRequest.room_id req) cursor of
              (w', Inr messages_data) \<Rightarrow>
                (w', \<lparr>GetPaginatedRoomMessagesResponse.success = True,
                  GetPaginatedRoomMessagesResponse.error_message = [],
                  GetPaginatedRoomMessagesResponse.messages = map (room_message_pb u) messages_data,
                  GetPaginatedRoomMessagesResponse.next_cursor =
                    (if messages_data = [] then [] else to_string u (DbRoomMessage.message_id (last messages_data)))\<rparr>)
            | (w', Inl e) \<Rightarrow>
                (w', \<lparr>GetPaginatedRoomMessagesResponse.success = False,
                  GetPaginatedRoomMessagesResponse.error_message = e,
                  GetPaginatedRoomMessagesResponse.messages = [], GetPaginatedRoomMessagesResponse.next_cursor = []\<rparr>)))"

definition service_sync_messages ::
  "UuidOps \<Rightarrow> ('w, 'r, 'rows, 'p) Session \<Rightarrow> 'p \<Rightarrow> 'w \<Rightarrow> SyncMessagesRequest \<Rightarrow> 'w \<times> SyncMessagesResponse" where
  "service_sync_messages u session queries w req =
     (case parse_str u (last_message_id req) of
        None \<Rightarrow> (w, \<lparr>SyncMessagesResponse.success = False,
          SyncMessagesResponse.error_message = ''Invalid last_message_id'', SyncMessagesResponse.messages = []\<rparr>)
      | Some last_id \<Rightarrow>
          if SyncMessagesRequest.project_id req = [] \<or> SyncMessagesRequest.conversation_id req = []
          then (w, \<lparr>SyncMessagesResponse.success = False,
            SyncMessagesResponse.error_message = ''project_id and conversation_id are required'',
            SyncMessagesResponse.messages = []\<rparr>)
          else (case fetch_messages_after session queries w (SyncMessagesRequest.project_id req)
                  (SyncMessagesRequest.conversation_id req) last_id of
              (w', Inr messages_data) \<Rightarrow>
                (w', \<lparr>SyncMessagesResponse.success = True, SyncMessagesResponse.error_message = [],
                  SyncMessagesResponse.messages = map (direct_message_pb u) messages_data\<rparr>)
            | (w', Inl e) \<Rightarrow>
                (w', \<lparr>SyncMessagesResponse.success = False, SyncMessagesResponse.error_message = e,
                  SyncMessagesResponse.messages = []\<rparr>)))"

section \<open>Writing\<close>

definition requested_row :: "WriteDmRequest \<Rightarrow> uuid \<Rightarrow> DirectMessageRow" where
  "requested_row req mid =
     \<lparr>DirectMessageRow.project_id = WriteDmRequest.project_id req,
      DirectMessageRow.conversation_id = WriteDmRequest.conversation_id req,
      DirectMessageRow.message_id = mid,
      DirectMessageRow.sender_id = WriteDmRequest.sender_id req,
      DirectMessageRow.recipient_id = WriteDmRequest.receiver_id req,
      DirectMessageRow.message_text = WriteDmRequest.message req,
      DirectMessageRow.created_at = WriteDmRequest.timestamp req\<rparr>"

lemma service_write_dm_effect:
  assumes "serves d b" and "db_ok (contents b w)"
    and "WriteDmRequest.project_id req \<noteq> []" and "WriteDmRequest.conversation_id req \<noteq> []"
    and "parse_str u (WriteDmRequest.message_id req) = Some mid"
  shows "\<exists>w'. service_write_dm u d w req =
      (w', \<lparr>WriteDmResponse.success = True, WriteDmResponse.error_message = []\<rparr>) \<and>
    contents b w' = dm_written (requested_row req mid) (contents b w)"
  using write_direct_message_effect [OF assms(1,2), of "requested_row req mid"] assms(3-5)
  by (auto simp: service_write_dm_def requested_row_def)

definition requested_room_row :: "WriteRoomMessageRequest \<Rightarrow> uuid \<Rightarrow> DbRoomMessageEx" where
  "requested_room_row req mid =
     \<lparr>DbRoomMessageEx.project_id = WriteRoomMessageRequest.project_id req,
      DbRoomMessageEx.room_id = WriteRoomMessageRequest.room_id req,
      DbRoomMessageEx.message_id = mid,
      DbRoomMessageEx.sender_id = WriteRoomMessageRequest.sender_id req,
      DbRoomMessageEx.content = WriteRoomMessageRequest.content req,
      DbRoomMessageEx.created_at = WriteRoomMessageRequest.timestamp req\<rparr>"

text \<open>A call of either write handler changes nothing, or writes the requested row and then reports success.\<close>

lemma service_write_dm_cases:
  assumes "serves d b" and "db_ok (contents b w)" and "parse_str u (WriteDmRequest.message_id req) = Some mid"
    and "service_write_dm u d w req = (w', resp)"
  shows "WriteDmResponse.success resp \<and> contents b w' = dm_written (requested_row req mid) (contents b w) \<or>
    \<not> WriteDmResponse.success resp \<and> contents b w' = contents b w"
proof (cases "WriteDmRequest.project_id req = [] \<or> WriteDmRequest.conversation_id req = []")
  case True
  then show ?thesis using assms(4) by (auto simp: service_write_dm_def)
next
  case False
  then show ?thesis using service_write_dm_effect [OF assms(1,2) _ _ assms(3)] assms(4) by auto
qed

lemma service_write_room_message_cases:
  assumes "serves d b" and "db_ok (contents b w)" and "parse_str u (WriteRoomMessageRequest.message_id req) = Some mid"
    and "service_write_room_message u d w req = (w', resp)"
  shows "WriteRoomMessageResponse.success resp \<and> contents b w' = room_written (requested_room_row req mid) (contents b w) \<or>
    \<not> WriteRoomMessageResponse.success resp \<and> contents b w' = contents b w"
  using write_room_message_effect [OF assms(1,2), of "requested_room_row req mid"] assms(3,4)
  by (auto simp: service_write_room_message_def requested_room_row_def split: if_splits)

text \<open>
  C19. A valid write of a direct message to a database that answers succeeds, keeps the tables
  well-formed, and adds the message to the history of its conversation, with exactly the content
  of the request, replacing a message with the same id if there was one; no other conversation of
  any project changes.
\<close>

theorem write_dm_adds_to_history:
  assumes "serves d b" and "db_ok (contents b w)"
    and "WriteDmRequest.project_id req \<noteq> []" and "WriteDmRequest.conversation_id req \<noteq> []"
    and "parse_str u (WriteDmRequest.message_id req) = Some mid"
  shows "\<exists>w' resp. service_write_dm u d w req = (w', resp) \<and> WriteDmResponse.success resp \<and>
    db_ok (contents b w') \<and>
    (\<forall>tk pid conv. set (history tk (contents b w') pid conv) =
       (if pid = WriteDmRequest.project_id req \<and> conv = WriteDmRequest.conversation_id req
        then insert (new_message (requested_row req mid))
          {x \<in> set (history tk (contents b w) pid conv). DbMessage.message_id x \<noteq> mid}
        else set (history tk (contents b w) pid conv)))"
proof -
  obtain w' where w': "service_write_dm u d w req =
      (w', \<lparr>WriteDmResponse.success = True, WriteDmResponse.error_message = []\<rparr>)"
    "contents b w' = dm_written (requested_row req mid) (contents b w)"
    using service_write_dm_effect [OF assms] by blast
  have "db_ok (contents b w')" unfolding w'(2) by (rule dm_written_ok [OF assms(2)])
  moreover have "set (history tk (contents b w') pid conv) =
      (if pid = WriteDmRequest.project_id req \<and> conv = WriteDmRequest.conversation_id req
       then insert (new_message (requested_row req mid))
         {x \<in> set (history tk (contents b w) pid conv). DbMessage.message_id x \<noteq> mid}
       else set (history tk (contents b w) pid conv))" for tk pid conv
    unfolding w'(2) history_after_write [OF assms(2)] by (simp add: requested_row_def)
  ultimately show ?thesis unfolding w'(1) by simp
qed

definition example_request :: WriteDmRequest where
  "example_request = \<lparr>WriteDmRequest.project_id = ''p'', WriteDmRequest.conversation_id = ''c'',
     WriteDmRequest.sender_id = ''ann'', WriteDmRequest.receiver_id = ''bob'', WriteDmRequest.message = ''hi'',
     WriteDmRequest.message_id = ''xx'', WriteDmRequest.timestamp = 5\<rparr>"

abbreviation example_session :: "(database, result_set, result_set, Stmt) Session" where
  "example_session \<equiv> mem_session (Some ''affinity'') True uint"

abbreviation example_backend :: "(database, result_set, Stmt) Backend" where
  "example_backend \<equiv> mem_backend (Some ''affinity'') True uint"

lemma example_setting:
  "serves example_session example_backend" "contents example_backend db = db" "db_ok (contents example_backend empty_db)"
  "WriteDmRequest.project_id example_request \<noteq> []" "WriteDmRequest.conversation_id example_request \<noteq> []"
  "parse_str unary_uuid (WriteDmRequest.message_id example_request) = Some 1"
  by (rule mem_session_serves) (simp_all add: mem_backend_def empty_db_ok example_request_def unary_uuid_def)

theorem write_dm_adds_to_history_witness:
  "\<exists>w'. set (history uint w' ''p'' ''c'') = {new_message (requested_row example_request 1)} \<and>
     (\<exists>resp. service_write_dm unary_uuid example_session empty_db example_request = (w', resp))"
proof -
  have "set (history uint empty_db ''p'' ''c'') = {}"
    by (simp add: history_def empty_db_def)
  then show ?thesis
    using write_dm_adds_to_history [OF example_setting(1) example_setting(3-6)]
    unfolding example_setting(2) by (force simp: example_request_def)
qed

text \<open>
  Writing the same direct message again, as the retry loop of the gateway may do after a lost
  answer, succeeds and changes nothing: neither the history nor any conversation list.
\<close>

theorem write_dm_idempotent:
  assumes "serves d b" and "db_ok (contents b w)"
    and "WriteDmRequest.project_id req \<noteq> []" and "WriteDmRequest.conversation_id req \<noteq> []"
    and "parse_str u (WriteDmRequest.message_id req) = Some mid"
  shows "\<exists>w' w'' resp. service_write_dm u d w req = (w', resp) \<and> service_write_dm u d w' req = (w'', resp) \<and>
    WriteDmResponse.success resp \<and> contents b w'' = contents b w'"
proof -
  obtain w' where w': "service_write_dm u d w req =
      (w', \<lparr>WriteDmResponse.success = True, WriteDmResponse.error_message = []\<rparr>)"
    "contents b w' = dm_written (requested_row req mid) (contents b w)"
    using service_write_dm_effect [OF assms] by blast
  have "db_ok (contents b w')" unfolding w'(2) by (rule dm_written_ok [OF assms(2)])
  from service_write_dm_effect [OF assms(1) this assms(3-5)] obtain w'' where
    "service_write_dm u d w' req = (w'', \<lparr>WriteDmResponse.success = True, WriteDmResponse.error_message = []\<rparr>)"
    "contents b w'' = dm_written (requested_row req mid) (contents b w')" by blast
  then show ?thesis
    using w'(2) dm_written_twice [OF assms(2)] unfolding w'(1) by simp
qed

theorem write_dm_idempotent_witness:
  "\<exists>w' w'' resp. service_write_dm unary_uuid example_session empty_db example_request = (w', resp) \<and>
     service_write_dm unary_uuid example_session w' example_request = (w'', resp) \<and> w'' = w'"
  using write_dm_idempotent [OF example_setting(1) example_setting(3-6)] unfolding example_setting(2) by blast

section \<open>Reading in pages\<close>

text \<open>
  A source of pages for each of the two paginated calls. The context holds the crate \<^verbatim>\<open>uuid\<close>, the
  driver, its backend, the project and the conversation or room.
\<close>

type_synonym ('w, 'r, 'rows, 'p) page_context =
  "UuidOps \<times> ('w, 'r, 'rows, 'p) Session \<times> ('w, 'rows, 'p) Backend \<times> string \<times> string"

definition cursor_text :: "UuidOps \<Rightarrow> uuid option \<Rightarrow> string" where
  "cursor_text u cursor = (case cursor of None \<Rightarrow> [] | Some c \<Rightarrow> to_string u c)"

definition next_request :: "UuidOps \<Rightarrow> string \<Rightarrow> uuid option" where
  "next_request u text = (if text = [] then None else parse_str u text)"

lemma parse_cursor_text: "uuid_ops u \<Longrightarrow> parse_cursor u (cursor_text u cursor) = Some cursor"
  by (cases cursor) (simp_all add: parse_cursor_def cursor_text_def uuid_ops_parse uuid_ops_nonblank)

fun dm_ask :: "('w, 'r, 'rows, 'p) page_context \<Rightarrow> 'w \<Rightarrow> uuid option \<Rightarrow> 'w \<times> DirectMessagePb list \<times> uuid option" where
  "dm_ask (u, d, b, pid, conv) w cursor =
     (let (w', resp) = service_get_paginated_messages u d w
        \<lparr>GetPaginatedMessagesRequest.project_id = pid, GetPaginatedMessagesRequest.conversation_id = conv,
         GetPaginatedMessagesRequest.cursor_message_id = cursor_text u cursor\<rparr>
      in (w', GetPaginatedMessagesResponse.messages resp,
          next_request u (GetPaginatedMessagesResponse.next_cursor resp)))"

fun dm_stored :: "('w, 'r, 'rows, 'p) page_context \<Rightarrow> 'w \<Rightarrow> DirectMessagePb list" where
  "dm_stored (u, d, b, pid, conv) w = map (direct_message_pb u) (history (tkey b) (contents b w) pid conv)"

fun dm_mid :: "('w, 'r, 'rows, 'p) page_context \<Rightarrow> DirectMessagePb \<Rightarrow> uuid" where
  "dm_mid (u, d, b, pid, conv) m = (case parse_str u (DirectMessagePb.message_id m) of None \<Rightarrow> 0 | Some i \<Rightarrow> i)"

fun room_ask :: "('w, 'r, 'rows, 'p) page_context \<Rightarrow> 'w \<Rightarrow> uuid option \<Rightarrow> 'w \<times> RoomMessagePb list \<times> uuid option" where
  "room_ask (u, d, b, pid, rid) w cursor =
     (let (w', resp) = service_get_paginated_room_messages u d w
        \<lparr>GetPaginatedRoomMessagesRequest.project_id = pid, GetPaginatedRoomMessagesRequest.room_id = rid,
         GetPaginatedRoomMessagesRequest.cursor_message_id = cursor_text u cursor\<rparr>
      in (w', GetPaginatedRoomMessagesResponse.messages resp,
          next_request u (GetPaginatedRoomMessagesResponse.next_cursor resp)))"

fun room_stored :: "('w, 'r, 'rows, 'p) page_context \<Rightarrow> 'w \<Rightarrow> RoomMessagePb list" where
  "room_stored (u, d, b, pid, rid) w = map (room_message_pb u) (room_history (tkey b) (contents b w) pid rid)"

fun room_mid :: "('w, 'r, 'rows, 'p) page_context \<Rightarrow> RoomMessagePb \<Rightarrow> uuid" where
  "room_mid (u, d, b, pid, rid) m = (case parse_str u (RoomMessagePb.message_id m) of None \<Rightarrow> 0 | Some i \<Rightarrow> i)"

fun page_place :: "('w, 'r, 'rows, 'p) page_context \<Rightarrow> uuid \<Rightarrow> int" where
  "page_place (u, d, b, pid, x) = tkey b"

fun page_good :: "(database \<Rightarrow> bool) \<Rightarrow> ('w, 'r, 'rows, 'p) page_context \<Rightarrow> 'w \<Rightarrow> bool" where
  "page_good ok (u, d, b, pid, x) w \<longleftrightarrow>
     uuid_ops u \<and> serves d b \<and> keyspace b = Some ''affinity'' \<and> uuid_ok b \<and> inj (tkey b) \<and>
     ok (contents b w) \<and> pid \<noteq> [] \<and> x \<noteq> []"

lemma dm_mid_pb: "uuid_ops u \<Longrightarrow> dm_mid (u, d, b, pid, conv) (direct_message_pb u m) = DbMessage.message_id m"
  by (simp add: direct_message_pb_def uuid_ops_parse)

lemma room_mid_pb: "uuid_ops u \<Longrightarrow> room_mid (u, d, b, pid, rid) (room_message_pb u m) = DbRoomMessage.message_id m"
  by (simp add: room_message_pb_def uuid_ops_parse)

lemma filter_map_pb:
  "(\<And>m. mid (f m) = i m) \<Longrightarrow> filter (\<lambda>m. P (mid m)) (map f ms) = map f (filter (\<lambda>m. P (i m)) ms)"
  by (induction ms) auto

interpretation dm_pages: paged_source dm_ask dm_stored dm_mid page_place "page_good dm_table_ok"
proof
  fix c :: "('w, 'r, 'rows, 'p) page_context" and w :: 'w
  assume good: "page_good dm_table_ok c w"
  obtain u d b pid conv where c: "c = (u, d, b, pid, conv)" by (cases c)
  have ops: "uuid_ops u" using good c by simp
  show "sorted_wrt (\<lambda>a b. page_place c (dm_mid c b) < page_place c (dm_mid c a)) (dm_stored c w)"
    using good history_strict [of "contents b w" "tkey b" pid conv]
    by (simp add: c sorted_wrt_map dm_mid_pb del: dm_mid.simps)
  fix cursor page
  assume page: "page = take 50 (filter (\<lambda>m. below_cursor (page_place c) cursor (dm_mid c m)) (dm_stored c w))"
  let ?ms = "take 50 (filter (\<lambda>m. below_cursor (tkey b) cursor (DbMessage.message_id m))
      (history (tkey b) (contents b w) pid conv))"
  have pg: "page = map (direct_message_pb u) ?ms"
    using ops unfolding page c dm_stored.simps page_place.simps
    by (subst filter_map_pb [of "dm_mid (u, d, b, pid, conv)" "direct_message_pb u" DbMessage.message_id])
       (simp_all add: dm_mid_pb take_map del: dm_mid.simps)
  obtain w' where "fetch_paginated_messages d w pid conv cursor = (w', Inr ?ms)" "contents b w' = contents b w"
    using fetch_paginated_messages_page [of d b w pid conv cursor] good c by auto
  then have "dm_ask c w cursor = (w', page, if page = [] then None else Some (dm_mid c (last page))) \<and>
      page_good dm_table_ok c w' \<and> dm_stored c w' = dm_stored c w"
    using good ops
    by (auto simp: c pg service_get_paginated_messages_def parse_cursor_text next_request_def
        uuid_ops_parse uuid_ops_nonempty last_map dm_mid_pb simp del: dm_mid.simps)
  then show "\<exists>w'. dm_ask c w cursor = (w', page, if page = [] then None else Some (dm_mid c (last page))) \<and>
      page_good dm_table_ok c w' \<and> dm_stored c w' = dm_stored c w" by blast
qed

interpretation room_pages: paged_source room_ask room_stored room_mid page_place "page_good room_table_ok"
proof
  fix c :: "('w, 'r, 'rows, 'p) page_context" and w :: 'w
  assume good: "page_good room_table_ok c w"
  obtain u d b pid rid where c: "c = (u, d, b, pid, rid)" by (cases c)
  have ops: "uuid_ops u" using good c by simp
  show "sorted_wrt (\<lambda>a b. page_place c (room_mid c b) < page_place c (room_mid c a)) (room_stored c w)"
    using good room_history_strict [of "contents b w" "tkey b" pid rid]
    by (simp add: c sorted_wrt_map room_mid_pb del: room_mid.simps)
  fix cursor page
  assume page: "page = take 50 (filter (\<lambda>m. below_cursor (page_place c) cursor (room_mid c m)) (room_stored c w))"
  let ?ms = "take 50 (filter (\<lambda>m. below_cursor (tkey b) cursor (DbRoomMessage.message_id m))
      (room_history (tkey b) (contents b w) pid rid))"
  have pg: "page = map (room_message_pb u) ?ms"
    using ops unfolding page c room_stored.simps page_place.simps
    by (subst filter_map_pb [of "room_mid (u, d, b, pid, rid)" "room_message_pb u" DbRoomMessage.message_id])
       (simp_all add: room_mid_pb take_map del: room_mid.simps)
  obtain w' where "fetch_paginated_room_messages d w pid rid cursor = (w', Inr ?ms)" "contents b w' = contents b w"
    using fetch_paginated_room_messages_page [of d b w pid rid cursor] good c by auto
  then have "room_ask c w cursor = (w', page, if page = [] then None else Some (room_mid c (last page))) \<and>
      page_good room_table_ok c w' \<and> room_stored c w' = room_stored c w"
    using good ops
    by (auto simp: c pg service_get_paginated_room_messages_def parse_cursor_text next_request_def
        uuid_ops_parse uuid_ops_nonempty last_map room_mid_pb simp del: room_mid.simps)
  then show "\<exists>w'. room_ask c w cursor = (w', page, if page = [] then None else Some (room_mid c (last page))) \<and>
      page_good room_table_ok c w' \<and> room_stored c w' = room_stored c w" by blast
qed


lemma inj_uint: "inj (uint :: uuid \<Rightarrow> int)"
  by (rule injI) (rule word_uint_eqI)

definition example_db :: database where
  "example_db = dm_written (requested_row example_request 1) empty_db"

lemma example_db_ok: "db_ok example_db"
  unfolding example_db_def by (rule dm_written_ok [OF empty_db_ok])

lemma example_backend_simps [simp]:
  "keyspace example_backend = Some ''affinity''" "uuid_ok example_backend" "tkey example_backend = uint"
  "contents example_backend db = db" "statement_of example_backend q = q"
  by (simp_all add: mem_backend_def)

lemma example_history: "history uint example_db ''p'' ''c'' = [new_message (requested_row example_request 1)]"
  by (simp add: history_def example_db_def dm_written_def empty_db_def upsert_def in_partition_def dm_row_def
      requested_row_def example_request_def row_message_def db_message_def new_message_def)




section \<open>Conversations\<close>

lemma ordered_pair_commute: "ordered_pair x y = ordered_pair y x"
  by (auto simp: ordered_pair_def)

lemma getsert_conversation_id_effect:
  assumes "serves d b" and "db_ok (contents b w)"
  shows "\<exists>w' conv new. getsert_conversation_id d new_id w pid x y = (w', Inr (conv, new)) \<and>
    db_ok (contents b w') \<and>
    (case lookup_id (contents b w) pid (ordered_pair x y) of
       Some c \<Rightarrow> conv = c \<and> \<not> new \<and> contents b w' = contents b w
     | None \<Rightarrow> conv = new_id \<and> new) \<and>
    (\<forall>p u. lookup_id (contents b w') p u =
       (if p = pid \<and> u = ordered_pair x y then Some conv else lookup_id (contents b w) p u))"
proof -
  obtain w1 where w1: "getsert_lookup d w pid (ordered_pair x y) =
      (w1, Inr (lookup_id (contents b w) pid (ordered_pair x y)))" "contents b w1 = contents b w"
    using getsert_lookup_exact [OF assms] by blast
  show ?thesis
  proof (cases "lookup_id (contents b w) pid (ordered_pair x y)")
    case None
    have "db_ok (contents b w1)" using assms(2) w1(2) by simp
    from getsert_insert_effect [OF assms(1) this] obtain w' now where
      "getsert_insert d new_id w1 pid (ordered_pair x y) = (w', Inr (new_id, True))"
      "contents b w' = lookup_inserted pid (ordered_pair x y) new_id now (contents b w)"
      unfolding w1(2) by blast
    then show ?thesis
      using None w1(1) by (auto simp: getsert_conversation_id_def lookup_inserted_ok [OF assms(2)]
          lookup_after_insert [OF assms(2)])
  next
    case (Some c)
    then show ?thesis using w1 assms(2) by (auto simp: getsert_conversation_id_def)
  qed
qed

text \<open>
  C29. Asking for the conversation of two users gives one conversation: a second request, in either
  order of the users, answers the same id as the first, says that it was not new and changes
  nothing, and no request for other users or another project is affected.
\<close>

theorem getsert_stable_symmetric:
  assumes "serves d b" and "db_ok (contents b w)"
    and "getsert_conversation_id d new_id w pid x y = (w', Inr (conv, new))"
  shows "(\<exists>w''. getsert_conversation_id d new_id' w' pid x y = (w'', Inr (conv, False)) \<and> contents b w'' = contents b w') \<and>
    (\<exists>w''. getsert_conversation_id d new_id' w' pid y x = (w'', Inr (conv, False)) \<and> contents b w'' = contents b w') \<and>
    (\<forall>p u. (p, u) \<noteq> (pid, ordered_pair x y) \<longrightarrow> lookup_id (contents b w') p u = lookup_id (contents b w) p u)"
proof -
  have ok: "db_ok (contents b w')"
    and upd: "\<forall>p u. lookup_id (contents b w') p u =
      (if p = pid \<and> u = ordered_pair x y then Some conv else lookup_id (contents b w) p u)"
    using getsert_conversation_id_effect [OF assms(1,2), of new_id pid x y] assms(3) by auto
  from upd have found: "lookup_id (contents b w') pid (ordered_pair x y) = Some conv"
    by (auto dest: spec [of _ pid] simp: split_paired_All [symmetric] simp del: split_paired_All)
  have again: "\<exists>w''. getsert_conversation_id d new_id' w' pid x' y' = (w'', Inr (conv, False)) \<and>
      contents b w'' = contents b w'" if "ordered_pair x' y' = ordered_pair x y" for x' y'
    using getsert_conversation_id_effect [OF assms(1) ok, of new_id' pid x' y'] found that by auto
  show ?thesis using again [OF refl] again [OF ordered_pair_commute] upd by auto
qed

theorem getsert_stable_symmetric_witness:
  "\<exists>w''. getsert_conversation_id example_session ''n2''
      (fst (getsert_conversation_id example_session ''n1'' empty_db ''p'' ''ann'' ''bob'')) ''p'' ''bob'' ''ann'' =
     (w'', Inr (''n1'', False))"
proof -
  have "lookup_id empty_db ''p'' (ordered_pair ''ann'' ''bob'') = None"
    by (simp add: lookup_id_def empty_db_def)
  then obtain w' where w': "getsert_conversation_id example_session ''n1'' empty_db ''p'' ''ann'' ''bob'' = (w', Inr (''n1'', True))"
    using getsert_conversation_id_effect [OF example_setting(1,3), of "''n1''" "''p''" "''ann''" "''bob''"] by auto
  show ?thesis
    using getsert_stable_symmetric [OF example_setting(1,3) w', of "''n2''"] w' by auto
qed

text \<open>
  The lookup and the insert of a conversation are not one step: when two requests for the same
  two users both look before either inserts, both are told that they created the conversation, with
  different ids, and only the second id is stored; whoever got the first writes to a conversation
  nobody will be directed to again.
\<close>

theorem getsert_race:
  assumes "serves d b" and "db_ok (contents b w)"
    and "lookup_id (contents b w) pid (ordered_pair x y) = None"
    and "getsert_lookup d w pid (ordered_pair x y) = (w1, look_a)"
    and "getsert_lookup d w1 pid (ordered_pair y x) = (w2, look_b)"
    and "getsert_insert d id_a w2 pid (ordered_pair x y) = (w3, answer_a)"
    and "getsert_insert d id_b w3 pid (ordered_pair y x) = (w4, answer_b)"
  shows "look_a = Inr None \<and> look_b = Inr None \<and> answer_a = Inr (id_a, True) \<and> answer_b = Inr (id_b, True) \<and>
    lookup_id (contents b w4) pid (ordered_pair x y) = Some id_b"
proof -
  have 1: "look_a = Inr None" "contents b w1 = contents b w"
    using getsert_lookup_exact [OF assms(1,2), of pid "ordered_pair x y"] assms(3,4) by auto
  have 2: "look_b = Inr None" "contents b w2 = contents b w"
    using getsert_lookup_exact [OF assms(1), of w1 pid "ordered_pair y x"] assms(2,3,5) 1(2)
      ordered_pair_commute [of y x] by auto
  obtain now where 3: "answer_a = Inr (id_a, True)"
    "contents b w3 = lookup_inserted pid (ordered_pair x y) id_a now (contents b w)"
    using getsert_insert_effect [OF assms(1), of w2 id_a pid "ordered_pair x y"] assms(2,6) 2(2) by auto
  have ok: "db_ok (contents b w3)" using 3(2) lookup_inserted_ok [OF assms(2)] by simp
  obtain now' where "answer_b = Inr (id_b, True)"
    "contents b w4 = lookup_inserted pid (ordered_pair y x) id_b now' (contents b w3)"
    using getsert_insert_effect [OF assms(1) ok, of id_b pid "ordered_pair y x"] assms(7) by auto
  then show ?thesis
    using 1 2 3 lookup_after_insert [OF ok] ordered_pair_commute [of y x] by auto
qed

theorem getsert_race_witness:
  "lookup_id (fst (getsert_insert example_session ''n2''
       (fst (getsert_insert example_session ''n1'' empty_db ''p'' (ordered_pair ''ann'' ''bob'')))
       ''p'' (ordered_pair ''bob'' ''ann''))) ''p'' (ordered_pair ''ann'' ''bob'') = Some ''n2''"
proof -
  have none: "lookup_id (contents example_backend empty_db) ''p'' (ordered_pair ''ann'' ''bob'') = None"
    by (simp add: lookup_id_def empty_db_def)
  have look: "getsert_lookup example_session empty_db ''p'' (ordered_pair x y) = (empty_db, Inr None)" for x y
    by (simp add: getsert_lookup_def mem_session_def mem_query_def q_select_dm_lookup_def table_of_def
        empty_db_def col_type_def dm_lookup_table_def arrange_def rows_as_def)
  show ?thesis
    using getsert_race [OF example_setting(1,3) none look look, of "''n1''" _ _ "''n2''"]
    by (metis example_setting(2) prod.collapse)
qed

section \<open>Requests that fail\<close>

lemma no_keyspace_refused:
  assumes "keyspace b \<noteq> Some ''affinity''"
  shows "cql_select (keyspace b) (uuid_ok b) (tkey b) db q_messages_without_cursor vals = None"
    and "cql_select (keyspace b) (uuid_ok b) (tkey b) db q_messages_with_cursor vals = None"
    and "cql_select (keyspace b) (uuid_ok b) (tkey b) db q_room_without_cursor vals = None"
    and "cql_select (keyspace b) (uuid_ok b) (tkey b) db q_room_with_cursor vals = None"
    and "cql_select (keyspace b) (uuid_ok b) (tkey b) db q_conversation_history vals = None"
  using assms by (simp_all add: statement_defs table_of_def)

lemma query_refused:
  assumes "serves d b" and "is_select stmt"
    and "cql_select (keyspace b) (uuid_ok b) (tkey b) (contents b w) stmt vals = None"
  shows "\<exists>e w'. and_then (query_unpaged d w stmt vals) f = (w', Inl e) \<and> contents b w' = contents b w"
  by (rule read_refused [OF serves_select [OF assms(1,2)] assms(3)])

lemma fetches_without_keyspace:
  assumes "serves d b" and "keyspace b \<noteq> Some ''affinity''"
  shows "\<exists>e w'. fetch_paginated_messages d w pid conv cursor = (w', Inl e)"
    and "\<exists>e w'. fetch_paginated_room_messages d w pid conv cursor = (w', Inl e)"
    and "\<exists>e w'. fetch_conversation_history d w pid conv = (w', Inl e)"
proof -
  show "\<exists>e w'. fetch_paginated_messages d w pid conv cursor = (w', Inl e)"
    using query_refused [OF assms(1) _ no_keyspace_refused(1) [OF assms(2)]]
      query_refused [OF assms(1) _ no_keyspace_refused(2) [OF assms(2)]]
    by (cases cursor) (simp_all add: fetch_paginated_messages_def, blast+)
  show "\<exists>e w'. fetch_paginated_room_messages d w pid conv cursor = (w', Inl e)"
    using query_refused [OF assms(1) _ no_keyspace_refused(3) [OF assms(2)]]
      query_refused [OF assms(1) _ no_keyspace_refused(4) [OF assms(2)]]
    by (cases cursor) (simp_all add: fetch_paginated_room_messages_def, blast+)
  show "\<exists>e w'. fetch_conversation_history d w pid conv = (w', Inl e)"
    using query_refused [OF assms(1) _ no_keyspace_refused(5) [OF assms(2)]]
    by (simp add: fetch_conversation_history_def) blast
qed

text \<open>
  C40. On the session the service starts with, which has no keyspace, every read of a page of
  messages, of a page of room messages and of a whole conversation fails: their statements name
  their table without a keyspace. Hypothesis: a database answers on that session.
\<close>

theorem history_reads_fail_as_started:
  assumes "service_start connect w0 node = (w, Inr (session, queries))"
    and "\<forall>w1 w2 s. connect node None w1 = (w2, Inr s) \<longrightarrow> (\<exists>b. serves s b \<and> keyspace b = None)"
  shows "\<not> GetPaginatedMessagesResponse.success (snd (service_get_paginated_messages u session w req)) \<and>
    \<not> GetPaginatedRoomMessagesResponse.success (snd (service_get_paginated_room_messages u session w req')) \<and>
    \<not> FetchConversationHistoryResponse.success (snd (service_fetch_conversation_history u session w req''))"
proof -
  obtain b where b: "serves session b" "keyspace b \<noteq> Some ''affinity''"
    using service_start_session [OF assms(1)] assms(2) by fastforce
  have fails: "fetch_paginated_messages session w pid conv cursor \<noteq> (w', Inr ms)"
    "fetch_paginated_room_messages session w pid conv cursor \<noteq> (w', Inr rs)"
    "fetch_conversation_history session w pid conv \<noteq> (w', Inr hs)" for pid conv cursor w' ms rs hs
    using fetches_without_keyspace [OF b, of w pid conv] by (metis Pair_inject sum.distinct(1))+
  have "\<not> GetPaginatedMessagesResponse.success (snd (service_get_paginated_messages u session w req))"
    by (auto simp: service_get_paginated_messages_def fails split: option.splits prod.splits sum.splits)
  moreover have "\<not> GetPaginatedRoomMessagesResponse.success (snd (service_get_paginated_room_messages u session w req'))"
    by (auto simp: service_get_paginated_room_messages_def fails split: option.splits prod.splits sum.splits)
  moreover have "\<not> FetchConversationHistoryResponse.success (snd (service_fetch_conversation_history u session w req''))"
    by (auto simp: service_fetch_conversation_history_def fails split: prod.splits sum.splits)
  ultimately show ?thesis by blast
qed

text \<open>A connector for examples.\<close>

definition mem_connector :: "(database, result_set, result_set, Stmt) connector" where
  "mem_connector node ks w = (w, Inr (mem_session ks True uint))"

lemma mem_connector_starts:
  "service_start mem_connector w ''db'' =
     (w, Inr (projr (snd (mem_connector ''db'' None w)), q_fetch_after))"
  by (simp add: service_start_def run_database_migrations_def migrations_new_def migration_defs run_statement_def prepare_queries_def
      mem_connector_def mem_session_def)

theorem history_reads_fail_as_started_witness:
  "\<not> GetPaginatedMessagesResponse.success (snd (service_get_paginated_messages unary_uuid
      (projr (snd (mem_connector ''db'' None example_db))) example_db
      \<lparr>GetPaginatedMessagesRequest.project_id = ''p'', GetPaginatedMessagesRequest.conversation_id = ''c'',
       GetPaginatedMessagesRequest.cursor_message_id = []\<rparr>))"
proof -
  have "\<exists>b. serves s b \<and> keyspace b = None" if "mem_connector ''db'' None w1 = (w2, Inr s)" for w1 w2 s
    using that mem_session_serves [of None True uint]
    by (intro exI [of _ "mem_backend None True uint"]) (simp add: mem_connector_def mem_backend_def)
  then show ?thesis
    using history_reads_fail_as_started [OF mem_connector_starts [of example_db]] by blast
qed

lemma strict_statements:
  assumes "db ''direct_messages'' = Some (direct_messages_table, rows)"
    and "db ''room_messages'' = Some (room_messages_table, rows')"
  shows "cql_select ks False tk db q_messages_with_cursor [TextV pid, TextV conv, UuidV c] = None"
    and "cql_select ks False tk db q_room_with_cursor [TextV pid, TextV conv, UuidV c] = None"
    and "cql_select ks False tk db q_fetch_after [TextV pid, TextV conv, UuidV c] = None"
    and "\<exists>cells. cql_select (Some ''affinity'') False tk db q_conversation_history [TextV pid, TextV conv] =
      Some ([Timeuuid_t, Text_t, Text_t, Text_t, Timestamp_t], cells)"
  using assms
  by (simp_all add: statement_defs table_of_def col_type_def direct_messages_table_def room_messages_table_def)

text \<open>A read that the driver refuses to convert.\<close>

lemma query_mismatch:
  assumes "serves d b" and "is_select stmt"
    and "cql_select (keyspace b) (uuid_ok b) (tkey b) (contents b w) stmt vals = Some (ctys, cells)"
    and "\<And>rr. typed_rows (uuid_ok b) tys dec (result_set_of b rr) (rows rr)"
    and "\<not> list_all2 (reads (uuid_ok b)) tys ctys"
  shows "\<exists>e w'. and_then (query_unpaged d w stmt vals) (\<lambda>w r. (w, map_sum (\<lambda>e. e) f (read_rows d rows r))) = (w', Inl e)"
proof -
  obtain e w' where "and_then (query_unpaged d w stmt vals) (\<lambda>w r. (w, read_rows d rows r)) = (w', Inl e)"
    using read_type_mismatch [OF serves_select [OF assms(1,2)] assms(3,4,5)] by blast
  from and_then_map_error [OF this, of f] show ?thesis by blast
qed

lemma strict_sync_refused:
  assumes "serves d b" and "\<not> uuid_ok b" and "db_ok (contents b w)" and "statement_of b queries = q_fetch_after"
  shows "\<exists>e w'. fetch_messages_after d queries w pid conv i = (w', Inl e)"
proof -
  obtain rows rows' where db: "contents b w ''direct_messages'' = Some (direct_messages_table, rows)"
    "contents b w ''room_messages'' = Some (room_messages_table, rows')"
    using db_ok_tables(1,3) [OF assms(3)] by blast
  have "select_answered d b w q_fetch_after [TextV pid, TextV conv, UuidV i]
      (execute_unpaged d w queries [TextV pid, TextV conv, UuidV i])"
    using serves_execute [OF assms(1), of queries] assms(4) by simp
  from read_refused [OF this] strict_statements(3) [of "contents b w", OF db] assms(2)
  show ?thesis by (simp add: fetch_messages_after_def) blast
qed

lemma strict_page_refused:
  assumes "serves d b" and "keyspace b = Some ''affinity''" and "\<not> uuid_ok b" and "db_ok (contents b w)"
  shows "\<exists>e w'. fetch_paginated_messages d w pid conv cursor = (w', Inl e)"
proof -
  obtain rows rows' where db: "contents b w ''direct_messages'' = Some (direct_messages_table, rows)"
    "contents b w ''room_messages'' = Some (room_messages_table, rows')"
    using db_ok_tables(1,3) [OF assms(4)] by blast
  show ?thesis
  proof (cases cursor)
    case None
    then show ?thesis
      using query_mismatch [OF assms(1) _ cql_messages_without_cursor [of "contents b w", OF db(1),
            of "uuid_ok b" "tkey b" pid conv, folded assms(2)] serves_rows(3) [OF assms(1)], of "map db_message"] assms(3)
      by (simp add: fetch_paginated_messages_def)
  next
    case (Some c)
    then show ?thesis
      using query_refused [OF assms(1), of q_messages_with_cursor w "[TextV pid, TextV conv, UuidV c]"]
        strict_statements(1) [of "contents b w", OF db] assms(3)
      by (simp add: fetch_paginated_messages_def) blast
  qed
qed

lemma strict_room_page_refused:
  assumes "serves d b" and "keyspace b = Some ''affinity''" and "\<not> uuid_ok b" and "db_ok (contents b w)"
  shows "\<exists>e w'. fetch_paginated_room_messages d w pid conv cursor = (w', Inl e)"
proof -
  obtain rows rows' where db: "contents b w ''direct_messages'' = Some (direct_messages_table, rows)"
    "contents b w ''room_messages'' = Some (room_messages_table, rows')"
    using db_ok_tables(1,3) [OF assms(4)] by blast
  show ?thesis
  proof (cases cursor)
    case None
    then show ?thesis
      using query_mismatch [OF assms(1) _ cql_room_without_cursor [of "contents b w", OF db(2),
            of "uuid_ok b" "tkey b" pid conv, folded assms(2)] serves_rows(4) [OF assms(1)], of "map db_room_message"] assms(3)
      by (simp add: fetch_paginated_room_messages_def)
  next
    case (Some c)
    then show ?thesis
      using query_refused [OF assms(1), of q_room_with_cursor w "[TextV pid, TextV conv, UuidV c]"]
        strict_statements(2) [of "contents b w", OF db] assms(3)
      by (simp add: fetch_paginated_room_messages_def) blast
  qed
qed

lemma strict_fetches:
  assumes "serves d b" and "keyspace b = Some ''affinity''" and "\<not> uuid_ok b" and "db_ok (contents b w)"
    and "statement_of b queries = q_fetch_after"
  shows "\<exists>e w'. fetch_paginated_messages d w pid conv cursor = (w', Inl e)"
    and "\<exists>e w'. fetch_paginated_room_messages d w pid conv cursor = (w', Inl e)"
    and "\<exists>e w'. fetch_conversation_history d w pid conv = (w', Inl e)"
    and "\<exists>e w'. fetch_messages_after d queries w pid conv i = (w', Inl e)"
proof -
  obtain rows rows' where db: "contents b w ''direct_messages'' = Some (direct_messages_table, rows)"
    "contents b w ''room_messages'' = Some (room_messages_table, rows')"
    using db_ok_tables(1,3) [OF assms(4)] by blast
  obtain cells where "cql_select (keyspace b) (uuid_ok b) (tkey b) (contents b w) q_conversation_history
      [TextV pid, TextV conv] = Some ([Timeuuid_t, Text_t, Text_t, Text_t, Timestamp_t], cells)"
    using strict_statements(4) [of "contents b w", OF db, of "tkey b" pid conv] assms(2,3) by auto
  from read_type_mismatch [OF serves_select [OF assms(1)] this serves_rows(2) [OF assms(1)]] assms(3)
  show "\<exists>e w'. fetch_conversation_history d w pid conv = (w', Inl e)"
    by (simp add: fetch_conversation_history_def) blast
qed (rule strict_page_refused [OF assms(1-4)] strict_room_page_refused [OF assms(1-4)]
    strict_sync_refused [OF assms(1,3-5)])+

text \<open>Whatever the session, a read leaves the database as it is, and the messages it answers are stored ones.\<close>

lemma fetch_contents:
  assumes "serves d b"
  shows "contents b (fst (fetch_paginated_messages d w pid conv cursor)) = contents b w"
    and "statement_of b queries = q_fetch_after \<Longrightarrow>
      contents b (fst (fetch_messages_after d queries w pid conv i)) = contents b w"
  using serves_select [OF assms, of q_messages_without_cursor w "[TextV pid, TextV conv]"]
    serves_select [OF assms, of q_messages_with_cursor w "[TextV pid, TextV conv, UuidV (the cursor)]"]
    serves_execute [OF assms, of queries w "[TextV pid, TextV conv, UuidV i]"]
  by (auto simp: fetch_paginated_messages_def fetch_messages_after_def and_then_def select_answered_def
      split: option.splits prod.splits sum.splits)

lemma fetched_are_stored:
  assumes "serves d b" and "db_ok (contents b w)"
  shows "snd (fetch_paginated_messages d w pid conv cursor) = Inr ms \<Longrightarrow>
      set ms \<subseteq> set (history (tkey b) (contents b w) pid conv)"
    and "statement_of b queries = q_fetch_after \<Longrightarrow> snd (fetch_messages_after d queries w pid conv i) = Inr ms \<Longrightarrow>
      set ms \<subseteq> set (history (tkey b) (contents b w) pid conv)"
proof -
  have ok: "dm_table_ok (contents b w)" using assms(2) by (simp add: db_ok_def)
  show "set ms \<subseteq> set (history (tkey b) (contents b w) pid conv)"
    if "snd (fetch_paginated_messages d w pid conv cursor) = Inr ms"
  proof (cases "keyspace b = Some ''affinity'' \<and> uuid_ok b")
    case True
    then show ?thesis
      using fetch_paginated_messages_page [OF assms(1) _ _ ok, of pid conv cursor] that
      by (fastforce dest!: set_take_subset [THEN subsetD])
  next
    case False
    then show ?thesis
      using fetches_without_keyspace(1) [OF assms(1), of w pid conv cursor]
        strict_page_refused [OF assms(1) _ _ assms(2), of pid conv cursor] that by fastforce
  qed
  show "set ms \<subseteq> set (history (tkey b) (contents b w) pid conv)"
    if "statement_of b queries = q_fetch_after" "snd (fetch_messages_after d queries w pid conv i) = Inr ms"
  proof (cases "uuid_ok b")
    case True
    then show ?thesis using fetch_messages_after_exact [OF assms(1) True ok that(1), of pid conv i] that(2) by auto
  next
    case False
    then show ?thesis using strict_sync_refused [OF assms(1) False assms(2) that(1), of pid conv i] that(2) by fastforce
  qed
qed

text \<open>
  A driver that does not take a \<^verbatim>\<open>uuid::Uuid\<close> for a column of type \<^verbatim>\<open>timeuuid\<close> makes every room
  write fail, and every read of pages, of room pages, of a whole conversation and of missed messages,
  even with the right keyspace; a direct message, whose id is converted to \<^verbatim>\<open>CqlTimeuuid\<close> first, is
  still written.
\<close>

theorem strict_timeuuid_driver:
  assumes "serves d b" and "keyspace b = Some ''affinity''" and "\<not> uuid_ok b" and "db_ok (contents b w)"
    and "statement_of b queries = q_fetch_after"
  shows "\<not> WriteRoomMessageResponse.success (snd (service_write_room_message u d w req1)) \<and>
    \<not> GetPaginatedMessagesResponse.success (snd (service_get_paginated_messages u d w req2)) \<and>
    \<not> GetPaginatedRoomMessagesResponse.success (snd (service_get_paginated_room_messages u d w req3)) \<and>
    \<not> FetchConversationHistoryResponse.success (snd (service_fetch_conversation_history u d w req4)) \<and>
    \<not> SyncMessagesResponse.success (snd (service_sync_messages u d queries w req5)) \<and>
    (WriteDmRequest.project_id req6 \<noteq> [] \<and> WriteDmRequest.conversation_id req6 \<noteq> [] \<and>
     parse_str u (WriteDmRequest.message_id req6) \<noteq> None \<longrightarrow>
     WriteDmResponse.success (snd (service_write_dm u d w req6)))"
proof -
  have fails: "fetch_paginated_messages d w pid conv cursor \<noteq> (w', Inr ms)"
    "fetch_paginated_room_messages d w pid conv cursor \<noteq> (w', Inr rs)"
    "fetch_conversation_history d w pid conv \<noteq> (w', Inr hs)"
    "fetch_messages_after d queries w pid conv i \<noteq> (w', Inr ms)" for pid conv cursor w' ms rs hs i
    using strict_fetches [OF assms, of pid conv] by (metis Pair_inject sum.distinct(1))+
  have room: "write_room_message_row d w m \<noteq> (w', Inr ())" for m w'
    using write_room_message_effect [OF assms(1,4), of m] assms(3) by auto
  have "\<not> WriteRoomMessageResponse.success (snd (service_write_room_message u d w req1))"
    by (auto simp: service_write_room_message_def room split: option.splits prod.splits sum.splits)
  moreover have "\<not> GetPaginatedMessagesResponse.success (snd (service_get_paginated_messages u d w req2))"
    by (auto simp: service_get_paginated_messages_def fails split: option.splits prod.splits sum.splits)
  moreover have "\<not> GetPaginatedRoomMessagesResponse.success (snd (service_get_paginated_room_messages u d w req3))"
    by (auto simp: service_get_paginated_room_messages_def fails split: option.splits prod.splits sum.splits)
  moreover have "\<not> FetchConversationHistoryResponse.success (snd (service_fetch_conversation_history u d w req4))"
    by (auto simp: service_fetch_conversation_history_def fails split: prod.splits sum.splits)
  moreover have "\<not> SyncMessagesResponse.success (snd (service_sync_messages u d queries w req5))"
    by (auto simp: service_sync_messages_def fails split: option.splits prod.splits sum.splits)
  moreover have "WriteDmResponse.success (snd (service_write_dm u d w req6))"
    if "WriteDmRequest.project_id req6 \<noteq> []" "WriteDmRequest.conversation_id req6 \<noteq> []"
      "parse_str u (WriteDmRequest.message_id req6) = Some mid" for mid
    using service_write_dm_effect [OF assms(1,4) that] by auto
  ultimately show ?thesis by blast
qed

theorem strict_timeuuid_driver_witness:
  "\<not> SyncMessagesResponse.success (snd (service_sync_messages unary_uuid (mem_session (Some ''affinity'') False uint)
      q_fetch_after example_db \<lparr>SyncMessagesRequest.project_id = ''p'', SyncMessagesRequest.conversation_id = ''c'',
      last_message_id = ''x''\<rparr>)) \<and>
   WriteDmResponse.success (snd (service_write_dm unary_uuid (mem_session (Some ''affinity'') False uint)
      example_db example_request))"
proof -
  have b: "keyspace (mem_backend (Some ''affinity'') False uint) = Some ''affinity''"
    "\<not> uuid_ok (mem_backend (Some ''affinity'') False uint)"
    "db_ok (contents (mem_backend (Some ''affinity'') False uint) example_db)"
    "statement_of (mem_backend (Some ''affinity'') False uint) q_fetch_after = q_fetch_after"
    by (simp_all add: mem_backend_def example_db_ok)
  show ?thesis
    using strict_timeuuid_driver [OF mem_session_serves b] example_setting(4-6) by blast
qed

text \<open>
  C36. Requests are checked before the database is touched: one that lacks its project or its
  conversation, room or user, that names one user twice, or whose message id or cursor is not a
  UUID, is refused and leaves the state as it was, whatever the driver does.
\<close>

theorem invalid_requests_refused:
  "(WriteDmRequest.project_id r1 = [] \<or> WriteDmRequest.conversation_id r1 = [] \<or>
      parse_str u (WriteDmRequest.message_id r1) = None \<longrightarrow>
      fst (service_write_dm u d w r1) = w \<and> \<not> WriteDmResponse.success (snd (service_write_dm u d w r1))) \<and>
   (WriteRoomMessageRequest.project_id r2 = [] \<or> WriteRoomMessageRequest.room_id r2 = [] \<or>
      parse_str u (WriteRoomMessageRequest.message_id r2) = None \<longrightarrow>
      fst (service_write_room_message u d w r2) = w \<and>
      \<not> WriteRoomMessageResponse.success (snd (service_write_room_message u d w r2))) \<and>
   (GetSertConversationRequest.project_id r3 = [] \<or> user_id_1 r3 = [] \<or> user_id_2 r3 = [] \<or> user_id_1 r3 = user_id_2 r3 \<longrightarrow>
      fst (get_sert_conversation u d w r3) = w \<and>
      \<not> GetSertConversationResponse.success (snd (get_sert_conversation u d w r3))) \<and>
   (GetPaginatedMessagesRequest.project_id r4 = [] \<or> GetPaginatedMessagesRequest.conversation_id r4 = [] \<or>
      (\<not> trim_is_empty (GetPaginatedMessagesRequest.cursor_message_id r4) \<and>
       parse_str u (GetPaginatedMessagesRequest.cursor_message_id r4) = None) \<longrightarrow>
      fst (service_get_paginated_messages u d w r4) = w \<and>
      \<not> GetPaginatedMessagesResponse.success (snd (service_get_paginated_messages u d w r4))) \<and>
   (SyncMessagesRequest.project_id r5 = [] \<or> SyncMessagesRequest.conversation_id r5 = [] \<or>
      parse_str u (last_message_id r5) = None \<longrightarrow>
      fst (service_sync_messages u d queries w r5) = w \<and>
      \<not> SyncMessagesResponse.success (snd (service_sync_messages u d queries w r5)))"
proof -
  have "fst (service_get_paginated_messages u d w r4) = w \<and>
      \<not> GetPaginatedMessagesResponse.success (snd (service_get_paginated_messages u d w r4))"
    if "GetPaginatedMessagesRequest.project_id r4 = [] \<or> GetPaginatedMessagesRequest.conversation_id r4 = [] \<or>
      (\<not> trim_is_empty (GetPaginatedMessagesRequest.cursor_message_id r4) \<and>
       parse_str u (GetPaginatedMessagesRequest.cursor_message_id r4) = None)"
    using that by (auto simp: service_get_paginated_messages_def parse_cursor_def split: option.splits)
  moreover have "fst (service_sync_messages u d queries w r5) = w \<and>
      \<not> SyncMessagesResponse.success (snd (service_sync_messages u d queries w r5))"
    if "SyncMessagesRequest.project_id r5 = [] \<or> SyncMessagesRequest.conversation_id r5 = [] \<or>
      parse_str u (last_message_id r5) = None"
    using that by (auto simp: service_sync_messages_def split: option.splits)
  ultimately show ?thesis
    by (auto simp: service_write_dm_def service_write_room_message_def get_sert_conversation_def
        split: option.splits)
qed

theorem invalid_requests_refused_witness:
  "\<not> GetSertConversationResponse.success (snd (get_sert_conversation unary_uuid example_session empty_db
     \<lparr>GetSertConversationRequest.project_id = ''p'', user_id_1 = ''ann'', user_id_2 = ''ann''\<rparr>))"
  using invalid_requests_refused [of _ unary_uuid example_session empty_db _
      "\<lparr>GetSertConversationRequest.project_id = ''p'', user_id_1 = ''ann'', user_id_2 = ''ann''\<rparr>"] by simp

end
