(* ===== verification/Chat_Types.thy ===== *)
theory Chat_Types
  imports Prelude
begin

text \<open>
  The data of \<^verbatim>\<open>peroxo/src/tenant.rs\<close>, \<^verbatim>\<open>peroxo/src/chat.rs\<close> and the messages of the actors
  (\<^verbatim>\<open>actors/room_actor.rs\<close>, \<^verbatim>\<open>actors/message_router/messages.rs\<close>), for the default build
  (feature \<^verbatim>\<open>persistence\<close> on, \<^verbatim>\<open>mongo_db\<close> off).

  The channels of tokio are not part of the sources. A handle to one
  (\<^verbatim>\<open>mpsc::Sender<ChatMessage>\<close>, \<^verbatim>\<open>mpsc::UnboundedSender<RoomMessage>\<close>, \<^verbatim>\<open>oneshot::Sender\<close>) is
  modelled by its identity, a number that all clones of the handle share; what a handler does
  with a channel is an \<open>Effect\<close> that the handler returns, in program order. A oneshot sender that
  is dropped without a value gives no effect. \<open>CountMessage l\<close> increments the counter
  \<^verbatim>\<open>websocket_messages_total\<close> at label \<open>l\<close>.
\<close>

section \<open>Tenants\<close>

record TenantUserId =
  project_id :: string
  user_id :: string

text \<open>The message \<^verbatim>\<open>UserToken\<close> of \<^verbatim>\<open>auth_service.proto\<close>, as tonic's generated code has it.\<close>

record UserToken =
  project_id :: string
  user_id :: string
  expires_at :: u64

definition tenant_new :: "string \<Rightarrow> string \<Rightarrow> TenantUserId" where
  "tenant_new p u = \<lparr>TenantUserId.project_id = p, TenantUserId.user_id = u\<rparr>"

definition from_token :: "UserToken \<Rightarrow> (string, TenantUserId) result" where
  "from_token token =
     Inr \<lparr>TenantUserId.project_id = UserToken.project_id token,
          TenantUserId.user_id = UserToken.user_id token\<rparr>"

definition tenant_display :: "TenantUserId \<Rightarrow> string" where
  "tenant_display t = TenantUserId.project_id t @ '':'' @ TenantUserId.user_id t"

lemma tenant_new_inject [simp]: "tenant_new p u = tenant_new p' u' \<longleftrightarrow> p = p' \<and> u = u'"
  by (simp add: tenant_new_def)

section \<open>Chat messages\<close>

datatype PresenceStatus = Online | Offline

datatype MessageStatus = Delivered | Persisted | Failed string

record MessageAckResponse =
  message_id :: uuid
  timestamp :: millis
  status :: MessageStatus

record ResponseDirectMessage =
  conversation_id :: string
  message_id :: uuid
  sender_id :: string
  recipient_id :: string
  message_text :: string
  created_at :: millis

record PaginatedMessagesResponse =
  messages :: "ResponseDirectMessage list"
  next_cursor :: "string option"
  has_more :: bool

datatype ChatMessage =
    SendDirectMessage string TenantUserId string uuid
  | DirectMessage TenantUserId string uuid millis
  | Presence TenantUserId PresenceStatus
  | MessageAck uuid uuid millis MessageStatus
  | GetPaginatedMessages string "uuid option" string
  | ChatHistoryResponse "ResponseDirectMessage list" bool "uuid option"
  | RoomMessage string TenantUserId string uuid
  | JoinRoom string
  | LeaveRoom string
  | SyncMessages string string uuid
  | SyncMessagesResponse "ResponseDirectMessage list"

section \<open>Channel handles\<close>

type_synonym session_sender = nat
type_synonym room_sender = nat
type_synonym oneshot = nat

text \<open>A reference to the shared \<^verbatim>\<open>Arc<PersistenceService>\<close>.\<close>

type_synonym persistence_ref = nat

section \<open>Messages of the actors\<close>

datatype RoomMessage =
    AddMember TenantUserId session_sender oneshot
  | RemoveMember TenantUserId
  | SendMessage TenantUserId string uuid "oneshot option"
  | GetMembers oneshot
  | GetPaginatedMessages string "uuid option" oneshot

datatype RouterMessage =
    RegisterUser TenantUserId session_sender oneshot
  | UnregisterUser TenantUserId
  | SendDirectMessage string TenantUserId TenantUserId string uuid "oneshot option"
  | GetOnlineUsers oneshot
  | GetPaginatedMessages string "uuid option" string oneshot
  | JoinRoom TenantUserId string session_sender oneshot
  | LeaveRoom TenantUserId string
  | SendRoomMessage string TenantUserId string uuid "oneshot option"
  | GetRoomMembers string oneshot
  | SyncMessages string string uuid oneshot

section \<open>Effects of a handler\<close>

text \<open>The value types of the oneshot channels, as one sum.\<close>

datatype Reply =
    UnitReply "(string, unit) result"
  | AckReply MessageAckResponse
  | UsersReply "TenantUserId list"
  | MembersReply "TenantUserId list option"
  | PageReply "(string, PaginatedMessagesResponse) result"
  | SyncReply "(string, ResponseDirectMessage list) result"

text \<open>The bodies the actors pass to \<^verbatim>\<open>tokio::spawn\<close>, with what each captures.\<close>

datatype Task =
    PersistDirectMessage string TenantUserId TenantUserId string uuid millis oneshot
  | PersistRoomMessage string TenantUserId string uuid millis oneshot
  | FetchPage string "uuid option" string oneshot
  | FetchSync string string uuid oneshot
  | RelayJoin oneshot oneshot
  | RelayMembers oneshot oneshot
  | RunRoom room_sender string persistence_ref

datatype Effect =
    TrySend session_sender ChatMessage
  | SendRoom room_sender RoomMessage
  | Respond oneshot Reply
  | Spawn Task
  | CountMessage string

text \<open>\<^verbatim>\<open>unwrap\<close> of a \<^verbatim>\<open>None\<close> and of an \<^verbatim>\<open>Err\<close>.\<close>

datatype Panic = UnwrapNone | UnwrapErr

text \<open>The messages offered to one session's channel, in the order they were offered.\<close>

fun offered :: "session_sender \<Rightarrow> Effect list \<Rightarrow> ChatMessage list" where
  "offered s [] = []"
| "offered s (TrySend s' m # es) = (if s' = s then m # offered s es else offered s es)"
| "offered s (_ # es) = offered s es"

lemma offered_append [simp]: "offered s (es @ es') = offered s es @ offered s es'"
  by (induction es rule: offered.induct [of _ s]) auto

text \<open>The messages sent to one room actor, in order.\<close>

fun room_mail :: "room_sender \<Rightarrow> Effect list \<Rightarrow> RoomMessage list" where
  "room_mail r [] = []"
| "room_mail r (SendRoom r' m # es) = (if r' = r then m # room_mail r es else room_mail r es)"
| "room_mail r (_ # es) = room_mail r es"

lemma room_mail_append [simp]: "room_mail r (es @ es') = room_mail r es @ room_mail r es'"
  by (induction es rule: room_mail.induct [of _ r]) auto

text \<open>The values sent on one oneshot channel.\<close>

fun replies :: "oneshot \<Rightarrow> Effect list \<Rightarrow> Reply list" where
  "replies c [] = []"
| "replies c (Respond c' v # es) = (if c' = c then v # replies c es else replies c es)"
| "replies c (_ # es) = replies c es"

lemma replies_append [simp]: "replies c (es @ es') = replies c es @ replies c es'"
  by (induction es rule: replies.induct [of _ c]) auto

lemma offered_map_TrySend:
  "offered s (map (\<lambda>(k, s'). TrySend s' m) kvs) = map (\<lambda>_. m) (filter (\<lambda>(k, s'). s' = s) kvs)"
  by (induction kvs) auto

lemma room_mail_map_TrySend [simp]: "room_mail r (map (\<lambda>(k, s'). TrySend s' m) kvs) = []"
  by (induction kvs) auto

lemma replies_map_TrySend [simp]: "replies c (map (\<lambda>(k, s'). TrySend s' m) kvs) = []"
  by (induction kvs) auto

end
