(* ===== verification/Persistence.thy ===== *)
theory Persistence
  imports Chat_Types Chat_Proto
begin

text \<open>
  \<^verbatim>\<open>peroxo/src/actors/persistance_actor\<close> in the default build: the gateway's client of
  \<^verbatim>\<open>chat-service\<close>, with its two retry loops and its four handlers.

  The stub tonic generates is an argument, a \<open>ChatClient\<close> of one operation per call: it takes the
  state \<open>'w\<close> of the network and the service to the next one and to the response or the gRPC
  status. \<open>show_status\<close> is \<^verbatim>\<open>Status\<close>'s \<^verbatim>\<open>Display\<close>. \<open>new_v4 u i\<close> is the id generated where the
  message at position \<open>i\<close> has no readable id. A loop returns the state of the network, the delays it slept, in milliseconds, and its
  result; \<^const>\<open>Inl\<close> there is the panic of \<^verbatim>\<open>last_error.unwrap()\<close>. The counters of type \<^verbatim>\<open>u32\<close> are
  natural numbers: they stay at or below \<open>max_retries + 1\<close>, and both callers pass 3.
\<close>

section \<open>The client stub\<close>

record ('w, 'st) ChatClient =
  write_dm :: "'w \<Rightarrow> WriteDmRequest \<Rightarrow> 'w \<times> ('st, WriteDmResponse) result"
  write_room_message :: "'w \<Rightarrow> WriteRoomMessageRequest \<Rightarrow> 'w \<times> ('st, WriteRoomMessageResponse) result"
  get_paginated_messages :: "'w \<Rightarrow> GetPaginatedMessagesRequest \<Rightarrow> 'w \<times> ('st, GetPaginatedMessagesResponse) result"
  sync_messages :: "'w \<Rightarrow> SyncMessagesRequest \<Rightarrow> 'w \<times> ('st, SyncMessagesResponse) result"
  show_status :: "'st \<Rightarrow> string"

type_synonym ('w, 'st, 'r) retry_result = "'w \<times> nat list \<times> (Panic, ('st, 'r) result) result"

section \<open>Retry loops\<close>

function write_dm_loop ::
  "('w, 'st) ChatClient \<Rightarrow> WriteDmRequest \<Rightarrow> nat \<Rightarrow> nat \<Rightarrow> 'st option \<Rightarrow> 'w \<Rightarrow>
   ('w, 'st, WriteDmResponse) retry_result" where
  "write_dm_loop client request max_retries attempts last_error w =
     (if attempts \<le> max_retries then
        (case write_dm client w request of
           (w', Inr response) \<Rightarrow> (w', [], Inr (Inr response))
         | (w', Inl e) \<Rightarrow>
             (if attempts + 1 \<le> max_retries
              then (let (w'', ds, r) =
                      write_dm_loop client request max_retries (attempts + 1) (Some e) w'
                    in (w'', 100 * (attempts + 1) # ds, r))
              else write_dm_loop client request max_retries (attempts + 1) (Some e) w'))
      else (case last_error of
              None \<Rightarrow> (w, [], Inl UnwrapNone)
            | Some e \<Rightarrow> (w, [], Inr (Inl e))))"
  by pat_completeness auto
termination
  by (relation "measure (\<lambda>(client, request, max_retries, attempts, last_error, w). max_retries + 1 - attempts)") auto

declare write_dm_loop.simps [simp del]

definition write_dm_with_retry ::
  "('w, 'st) ChatClient \<Rightarrow> 'w \<Rightarrow> WriteDmRequest \<Rightarrow> nat \<Rightarrow> ('w, 'st, WriteDmResponse) retry_result" where
  "write_dm_with_retry client w request max_retries = write_dm_loop client request max_retries 0 None w"

function write_room_message_loop ::
  "('w, 'st) ChatClient \<Rightarrow> WriteRoomMessageRequest \<Rightarrow> nat \<Rightarrow> nat \<Rightarrow> 'st option \<Rightarrow> 'w \<Rightarrow>
   ('w, 'st, WriteRoomMessageResponse) retry_result" where
  "write_room_message_loop client request max_retries attempts last_error w =
     (if attempts \<le> max_retries then
        (case write_room_message client w request of
           (w', Inr response) \<Rightarrow> (w', [], Inr (Inr response))
         | (w', Inl e) \<Rightarrow>
             (if attempts + 1 \<le> max_retries
              then (let (w'', ds, r) =
                      write_room_message_loop client request max_retries (attempts + 1) (Some e) w'
                    in (w'', 100 * (attempts + 1) # ds, r))
              else write_room_message_loop client request max_retries (attempts + 1) (Some e) w'))
      else (case last_error of
              None \<Rightarrow> (w, [], Inl UnwrapNone)
            | Some e \<Rightarrow> (w, [], Inr (Inl e))))"
  by pat_completeness auto
termination
  by (relation "measure (\<lambda>(client, request, max_retries, attempts, last_error, w). max_retries + 1 - attempts)") auto

declare write_room_message_loop.simps [simp del]

definition write_room_message_with_retry ::
  "('w, 'st) ChatClient \<Rightarrow> 'w \<Rightarrow> WriteRoomMessageRequest \<Rightarrow> nat \<Rightarrow>
   ('w, 'st, WriteRoomMessageResponse) retry_result" where
  "write_room_message_with_retry client w request max_retries =
     write_room_message_loop client request max_retries 0 None w"

section \<open>Handlers\<close>

definition dm_request ::
  "UuidOps \<Rightarrow> string \<Rightarrow> TenantUserId \<Rightarrow> TenantUserId \<Rightarrow> string \<Rightarrow> uuid \<Rightarrow> millis \<Rightarrow> WriteDmRequest" where
  "dm_request u conv tenant_sender_id tenant_receiver_id message_content mid ts =
     \<lparr>WriteDmRequest.project_id = TenantUserId.project_id tenant_sender_id,
      WriteDmRequest.conversation_id = conv,
      WriteDmRequest.sender_id = TenantUserId.user_id tenant_sender_id,
      WriteDmRequest.receiver_id = TenantUserId.user_id tenant_receiver_id,
      WriteDmRequest.message = message_content,
      WriteDmRequest.message_id = to_string u mid,
      WriteDmRequest.timestamp = ts\<rparr>"

definition handle_persist_direct_message ::
  "UuidOps \<Rightarrow> ('w, 'st) ChatClient \<Rightarrow> 'w \<Rightarrow> string \<Rightarrow> TenantUserId \<Rightarrow> TenantUserId \<Rightarrow> string \<Rightarrow> uuid \<Rightarrow>
   millis \<Rightarrow> 'w \<times> (Panic, (string, unit) result) result" where
  "handle_persist_direct_message u client w conv tenant_sender_id tenant_receiver_id message_content mid ts =
     (let request = dm_request u conv tenant_sender_id tenant_receiver_id message_content mid ts
      in case write_dm_with_retry client w request 3 of
           (w', ds, Inl p) \<Rightarrow> (w', Inl p)
         | (w', ds, Inr (Inr response)) \<Rightarrow>
             (w', Inr (if WriteDmResponse.success response then Inr ()
                       else Inl (WriteDmResponse.error_message response)))
         | (w', ds, Inr (Inl e)) \<Rightarrow> (w', Inr (Inl (''gRPC call failed: '' @ show_status client e))))"

definition room_request ::
  "UuidOps \<Rightarrow> string \<Rightarrow> TenantUserId \<Rightarrow> string \<Rightarrow> uuid \<Rightarrow> millis \<Rightarrow> WriteRoomMessageRequest" where
  "room_request u rid sender message_content mid ts =
     \<lparr>WriteRoomMessageRequest.project_id = TenantUserId.project_id sender,
      WriteRoomMessageRequest.room_id = rid,
      WriteRoomMessageRequest.sender_id = TenantUserId.user_id sender,
      WriteRoomMessageRequest.content = message_content,
      WriteRoomMessageRequest.message_id = to_string u mid,
      WriteRoomMessageRequest.timestamp = ts\<rparr>"

definition handle_persist_room_message ::
  "UuidOps \<Rightarrow> ('w, 'st) ChatClient \<Rightarrow> 'w \<Rightarrow> string \<Rightarrow> TenantUserId \<Rightarrow> string \<Rightarrow> uuid \<Rightarrow> millis \<Rightarrow>
   'w \<times> (Panic, (string, unit) result) result" where
  "handle_persist_room_message u client w rid sender message_content mid ts =
     (let request = room_request u rid sender message_content mid ts
      in case write_room_message_with_retry client w request 3 of
           (w', ds, Inl p) \<Rightarrow> (w', Inl p)
         | (w', ds, Inr (Inr response)) \<Rightarrow>
             (w', Inr (if WriteRoomMessageResponse.success response then Inr ()
                       else Inl (WriteRoomMessageResponse.error_message response)))
         | (w', ds, Inr (Inl e)) \<Rightarrow> (w', Inr (Inl (''gRPC call failed: '' @ show_status client e))))"

text \<open>The closure both read handlers map over the messages of a response.\<close>

definition response_direct_message :: "UuidOps \<Rightarrow> nat \<Rightarrow> DirectMessagePb \<Rightarrow> ResponseDirectMessage" where
  "response_direct_message u i msg =
     \<lparr>ResponseDirectMessage.conversation_id = DirectMessagePb.conversation_id msg,
      ResponseDirectMessage.message_id =
        (case parse_str u (DirectMessagePb.message_id msg) of Some uid \<Rightarrow> uid | None \<Rightarrow> new_v4 u i),
      ResponseDirectMessage.sender_id = DirectMessagePb.sender_id msg,
      ResponseDirectMessage.recipient_id = DirectMessagePb.recipient_id msg,
      ResponseDirectMessage.message_text = DirectMessagePb.message_text msg,
      ResponseDirectMessage.created_at = DirectMessagePb.created_at msg\<rparr>"

definition response_direct_messages :: "UuidOps \<Rightarrow> DirectMessagePb list \<Rightarrow> ResponseDirectMessage list" where
  "response_direct_messages u msgs = map (\<lambda>(i, m). response_direct_message u i m) (enumerate 0 msgs)"

definition persistence_get_paginated_messages ::
  "UuidOps \<Rightarrow> ('w, 'st) ChatClient \<Rightarrow> 'w \<Rightarrow> string \<Rightarrow> uuid option \<Rightarrow> string \<Rightarrow>
   'w \<times> (string, PaginatedMessagesResponse) result" where
  "persistence_get_paginated_messages u client w pid mid conv =
     (let request =
        \<lparr>GetPaginatedMessagesRequest.project_id = pid,
         GetPaginatedMessagesRequest.conversation_id = conv,
         GetPaginatedMessagesRequest.cursor_message_id =
           (case mid of Some cursor_id \<Rightarrow> to_string u cursor_id | None \<Rightarrow> [])\<rparr>
      in case get_paginated_messages client w request of
           (w', Inr response) \<Rightarrow>
             if GetPaginatedMessagesResponse.success response
             then (let cursor =
                     (if GetPaginatedMessagesResponse.next_cursor response = [] then None
                      else Some (GetPaginatedMessagesResponse.next_cursor response))
                   in (w', Inr \<lparr>PaginatedMessagesResponse.messages =
                          response_direct_messages u (GetPaginatedMessagesResponse.messages response),
                        PaginatedMessagesResponse.next_cursor = cursor,
                        PaginatedMessagesResponse.has_more = (cursor \<noteq> None)\<rparr>))
             else (w', Inl (GetPaginatedMessagesResponse.error_message response))
         | (w', Inl e) \<Rightarrow> (w', Inl (''gRPC call failed: '' @ show_status client e)))"

definition persistence_sync_messages ::
  "UuidOps \<Rightarrow> ('w, 'st) ChatClient \<Rightarrow> 'w \<Rightarrow> string \<Rightarrow> string \<Rightarrow> uuid \<Rightarrow>
   'w \<times> (string, ResponseDirectMessage list) result" where
  "persistence_sync_messages u client w pid conv mid =
     (let request =
        \<lparr>SyncMessagesRequest.project_id = pid,
         SyncMessagesRequest.conversation_id = conv,
         SyncMessagesRequest.last_message_id = to_string u mid\<rparr>
      in case sync_messages client w request of
           (w', Inr response) \<Rightarrow>
             if SyncMessagesResponse.success response
             then (w', Inr (response_direct_messages u (SyncMessagesResponse.messages response)))
             else (w', Inl (SyncMessagesResponse.error_message response))
         | (w', Inl e) \<Rightarrow> (w', Inl (''gRPC call failed: '' @ show_status client e)))"

section \<open>The contract of a retry loop\<close>

text \<open>
  \<open>after call w k\<close> is the state after \<open>k\<close> calls from \<open>w\<close>, \<open>outcome call w k\<close> what call number \<open>k\<close>
  (from 0) answers.
\<close>

primrec after :: "('w \<Rightarrow> 'w \<times> 'a) \<Rightarrow> 'w \<Rightarrow> nat \<Rightarrow> 'w" where
  "after call w 0 = w"
| "after call w (Suc k) = after call (fst (call w)) k"

definition outcome :: "('w \<Rightarrow> 'w \<times> 'a) \<Rightarrow> 'w \<Rightarrow> nat \<Rightarrow> 'a" where
  "outcome call w k = snd (call (after call w k))"

definition backoff :: "nat \<Rightarrow> nat list" where
  "backoff k = map (\<lambda>i. 100 * (i + 1)) [0..<k]"

lemma outcome_simps [simp]:
  "outcome call w 0 = snd (call w)"
  "outcome call w (Suc k) = outcome call (fst (call w)) k"
  by (simp_all add: outcome_def)

lemma first_success_cases:
  obtains (found) k r where "k \<le> n" "outcome call w k = Inr r" "\<forall>i<k. \<exists>e. outcome call w i = Inl e"
  | (none) "\<forall>i\<le>n. \<exists>e. outcome call w i = Inl e"
proof (cases "\<exists>k\<le>n. is_ok (outcome call w k)")
  case True
  define k where "k = (LEAST k. k \<le> n \<and> is_ok (outcome call w k))"
  have "k \<le> n \<and> is_ok (outcome call w k)" unfolding k_def using True by (rule LeastI_ex)
  moreover have "\<not> is_ok (outcome call w i)" if "i < k" for i
    using not_less_Least [of i] that \<open>k \<le> n \<and> _\<close> unfolding k_def by force
  ultimately show ?thesis
    using found by (auto simp: is_ok_iff) (metis sum.exhaust)
next
  case False
  then show ?thesis using none by (auto simp: is_ok_iff) (metis sum.exhaust)
qed

text \<open>
  The law is one turn of the loop. What follows for every such loop: it ends with the first
  response, after one call more than the failures before it and the delays between them; or it
  makes all \<open>max_retries + 1\<close> calls and returns the last error. It never panics.
\<close>

locale retry_loop =
  fixes loop :: "nat \<Rightarrow> nat \<Rightarrow> 'st option \<Rightarrow> 'w \<Rightarrow> ('w, 'st, 'r) retry_result"
    and call :: "'w \<Rightarrow> 'w \<times> ('st, 'r) result"
  assumes turn:
    "loop max_retries attempts last_error w =
     (if attempts \<le> max_retries then
        (case call w of
           (w', Inr response) \<Rightarrow> (w', [], Inr (Inr response))
         | (w', Inl e) \<Rightarrow>
             (if attempts + 1 \<le> max_retries
              then (let (w'', ds, r) = loop max_retries (attempts + 1) (Some e) w'
                    in (w'', 100 * (attempts + 1) # ds, r))
              else loop max_retries (attempts + 1) (Some e) w'))
      else (case last_error of
              None \<Rightarrow> (w, [], Inl UnwrapNone)
            | Some e \<Rightarrow> (w, [], Inr (Inl e))))"
begin

lemma ends_with_success_from:
  "outcome call w k = Inr r \<Longrightarrow> \<forall>i<k. \<exists>e. outcome call w i = Inl e \<Longrightarrow> a + k \<le> n \<Longrightarrow>
   loop n a l w = (after call w (Suc k), map (\<lambda>i. 100 * (i + 1)) [a..<a + k], Inr (Inr r))"
proof (induction k arbitrary: a l w)
  case 0
  then show ?case by (cases "call w") (simp add: turn [of n a])
next
  case (Suc k)
  obtain w' e where c: "call w = (w', Inl e)"
    using Suc.prems(2) by (cases "call w") force
  have 2: "\<forall>i<k. \<exists>e. outcome call w' i = Inl e"
    using Suc.prems(2) c by (metis Suc_less_eq fst_conv outcome_simps(2))
  have "loop n (Suc a) (Some e) w' =
      (after call w' (Suc k), map (\<lambda>i. 100 * (i + 1)) [Suc a..<Suc a + k], Inr (Inr r))"
    using Suc.prems(1,3) c 2 by (intro Suc.IH) simp_all
  then show ?case
    using Suc.prems(3) c by (simp add: turn [of n a] upt_conv_Cons del: upt_Suc)
qed

lemma ends_with_last_error_from:
  "\<forall>i\<le>k. \<exists>e. outcome call w i = Inl e \<Longrightarrow> a + k = n \<Longrightarrow> outcome call w k = Inl e \<Longrightarrow>
   loop n a l w = (after call w (Suc k), map (\<lambda>i. 100 * (i + 1)) [a..<a + k], Inr (Inl e))"
proof (induction k arbitrary: a l w)
  case 0
  then show ?case by (cases "call w") (simp add: turn [of n n] turn [of n "Suc n"])
next
  case (Suc k)
  obtain w' e' where c: "call w = (w', Inl e')"
    using Suc.prems(1) by (cases "call w") force
  have "\<forall>i\<le>k. \<exists>e. outcome call w' i = Inl e"
    using Suc.prems(1) c by (metis Suc_le_mono fst_conv outcome_simps(2))
  then have "loop n (Suc a) (Some e') w' =
      (after call w' (Suc k), map (\<lambda>i. 100 * (i + 1)) [Suc a..<Suc a + k], Inr (Inl e))"
    using Suc.prems(2,3) c by (intro Suc.IH) simp_all
  then show ?case
    using Suc.prems(2) c by (auto simp: turn [of n a] upt_conv_Cons simp del: upt_Suc)
qed

lemma ends_with_success:
  "k \<le> n \<Longrightarrow> outcome call w k = Inr r \<Longrightarrow> \<forall>i<k. \<exists>e. outcome call w i = Inl e \<Longrightarrow>
   loop n 0 None w = (after call w (Suc k), backoff k, Inr (Inr r))"
  using ends_with_success_from [of w k r 0 n None] by (simp add: backoff_def)

lemma ends_with_last_error:
  "\<forall>i\<le>n. \<exists>e. outcome call w i = Inl e \<Longrightarrow> outcome call w n = Inl e \<Longrightarrow>
   loop n 0 None w = (after call w (Suc n), backoff n, Inr (Inl e))"
  using ends_with_last_error_from [of n w 0 n e None] by (simp add: backoff_def)

lemma never_panics: "\<exists>w' ds r. loop n 0 None w = (w', ds, Inr r)"
proof (cases rule: first_success_cases [of n call w])
  case (found k r)
  then show ?thesis using ends_with_success by blast
next
  case none
  then obtain e where "outcome call w n = Inl e" by blast
  then show ?thesis using ends_with_last_error none by blast
qed

end

interpretation dm_retry: retry_loop "write_dm_loop client request" "\<lambda>w. write_dm client w request"
  for client request
  by unfold_locales (rule write_dm_loop.simps)

interpretation room_retry: retry_loop "write_room_message_loop client request"
    "\<lambda>w. write_room_message client w request"
  for client request
  by unfold_locales (rule write_room_message_loop.simps)

section \<open>Properties\<close>

lemma write_dm_with_retry_success:
  "k \<le> n \<Longrightarrow> outcome (\<lambda>w. write_dm client w request) w k = Inr r \<Longrightarrow>
   \<forall>i<k. \<exists>e. outcome (\<lambda>w. write_dm client w request) w i = Inl e \<Longrightarrow>
   write_dm_with_retry client w request n =
     (after (\<lambda>w. write_dm client w request) w (Suc k), backoff k, Inr (Inr r))"
  unfolding write_dm_with_retry_def by (rule dm_retry.ends_with_success)

lemma write_dm_with_retry_failure:
  "\<forall>i\<le>n. \<exists>e. outcome (\<lambda>w. write_dm client w request) w i = Inl e \<Longrightarrow>
   outcome (\<lambda>w. write_dm client w request) w n = Inl e \<Longrightarrow>
   write_dm_with_retry client w request n =
     (after (\<lambda>w. write_dm client w request) w (Suc n), backoff n, Inr (Inl e))"
  unfolding write_dm_with_retry_def by (rule dm_retry.ends_with_last_error)

lemma write_room_message_with_retry_success:
  "k \<le> n \<Longrightarrow> outcome (\<lambda>w. write_room_message client w request) w k = Inr r \<Longrightarrow>
   \<forall>i<k. \<exists>e. outcome (\<lambda>w. write_room_message client w request) w i = Inl e \<Longrightarrow>
   write_room_message_with_retry client w request n =
     (after (\<lambda>w. write_room_message client w request) w (Suc k), backoff k, Inr (Inr r))"
  unfolding write_room_message_with_retry_def by (rule room_retry.ends_with_success)

lemma write_room_message_with_retry_failure:
  "\<forall>i\<le>n. \<exists>e. outcome (\<lambda>w. write_room_message client w request) w i = Inl e \<Longrightarrow>
   outcome (\<lambda>w. write_room_message client w request) w n = Inl e \<Longrightarrow>
   write_room_message_with_retry client w request n =
     (after (\<lambda>w. write_room_message client w request) w (Suc n), backoff n, Inr (Inl e))"
  unfolding write_room_message_with_retry_def by (rule room_retry.ends_with_last_error)


text \<open>A service for examples: its state is the list of the answers it has left, then it fails.\<close>

definition scripted_dm :: "((string, WriteDmResponse) result) list \<Rightarrow> WriteDmRequest \<Rightarrow>
   ((string, WriteDmResponse) result) list \<times> (string, WriteDmResponse) result" where
  "scripted_dm w request = (case w of [] \<Rightarrow> ([], Inl ''down'') | a # w' \<Rightarrow> (w', a))"

definition example_client :: "((string, WriteDmResponse) result list, string) ChatClient" where
  "example_client = \<lparr>write_dm = scripted_dm,
     write_room_message = (\<lambda>w _. (w, Inl ''down'')),
     get_paginated_messages = (\<lambda>w _. (w, Inr \<lparr>GetPaginatedMessagesResponse.success = True,
       GetPaginatedMessagesResponse.error_message = [],
       GetPaginatedMessagesResponse.messages = [\<lparr>DirectMessagePb.conversation_id = ''c'',
         DirectMessagePb.message_id = ''x'', DirectMessagePb.sender_id = ''ann'',
         DirectMessagePb.recipient_id = ''bob'', DirectMessagePb.message_text = ''hi'',
         DirectMessagePb.created_at = 5\<rparr>],
       GetPaginatedMessagesResponse.next_cursor = ''x''\<rparr>)),
     sync_messages = (\<lambda>w _. (w, Inl ''down'')), show_status = (\<lambda>s. s)\<rparr>"

definition written_ok :: WriteDmResponse where
  "written_ok = \<lparr>WriteDmResponse.success = True, WriteDmResponse.error_message = []\<rparr>"


text \<open>
  \<open>accepted call n w\<close>: one of the first \<open>n + 1\<close> calls is answered, all before it fail, and the
  answer is a success.
\<close>

definition accepted :: "('r \<Rightarrow> bool) \<Rightarrow> ('w \<Rightarrow> 'w \<times> ('st, 'r) result) \<Rightarrow> nat \<Rightarrow> 'w \<Rightarrow> bool" where
  "accepted ok call n w \<longleftrightarrow>
     (\<exists>k\<le>n. (\<exists>r. outcome call w k = Inr r \<and> ok r) \<and> (\<forall>i<k. \<exists>e. outcome call w i = Inl e))"

lemma first_response_unique:
  assumes "outcome call w k = Inr r" and "\<forall>i<k. \<exists>e. outcome call w i = Inl e"
    and "outcome call w k' = Inr r'" and "\<forall>i<k'. \<exists>e. outcome call w i = Inl e"
  shows "k = k'"
  using assms by (metis Inl_Inr_False linorder_neqE_nat)

lemma accepted_iff:
  "k \<le> n \<Longrightarrow> outcome call w k = Inr r \<Longrightarrow> \<forall>i<k. \<exists>e. outcome call w i = Inl e \<Longrightarrow>
   accepted ok call n w \<longleftrightarrow> ok r"
  unfolding accepted_def by (metis first_response_unique sum.inject(2))

lemma not_accepted: "\<forall>i\<le>n. \<exists>e. outcome call w i = Inl e \<Longrightarrow> \<not> accepted ok call n w"
  unfolding accepted_def by (metis Inl_Inr_False)

text \<open>
  Persisting a direct or a room message always ends with a result, and it reports success
  exactly when one of at most four attempts was answered and that answer was a success; a refusal
  by the service is final and is not tried again.
\<close>

theorem persist_ok_iff_accepted:
  "(\<exists>w' res.
      handle_persist_direct_message u client w conv sender receiver text mid ts = (w', Inr res) \<and>
      (res = Inr () \<longleftrightarrow> accepted WriteDmResponse.success
         (\<lambda>w. write_dm client w (dm_request u conv sender receiver text mid ts)) 3 w)) \<and>
   (\<exists>w' res.
      handle_persist_room_message u client w rid sender text mid ts = (w', Inr res) \<and>
      (res = Inr () \<longleftrightarrow> accepted WriteRoomMessageResponse.success
         (\<lambda>w. write_room_message client w (room_request u rid sender text mid ts)) 3 w))"
  (is "?dm \<and> ?room")
proof
  let ?call = "\<lambda>w. write_dm client w (dm_request u conv sender receiver text mid ts)"
  show ?dm
  proof (cases rule: first_success_cases [of 3 ?call w])
    case (found k r)
    then show ?thesis
      using write_dm_with_retry_success [of k 3 client "dm_request u conv sender receiver text mid ts" w r]
        accepted_iff [OF found]
      by (auto simp: handle_persist_direct_message_def)
  next
    case none
    then obtain e where "outcome ?call w 3 = Inl e" by blast
    then show ?thesis
      using none write_dm_with_retry_failure [of 3 client "dm_request u conv sender receiver text mid ts" w e]
        not_accepted [OF none]
      by (auto simp: handle_persist_direct_message_def)
  qed
next
  let ?call = "\<lambda>w. write_room_message client w (room_request u rid sender text mid ts)"
  show ?room
  proof (cases rule: first_success_cases [of 3 ?call w])
    case (found k r)
    then show ?thesis
      using write_room_message_with_retry_success [of k 3 client "room_request u rid sender text mid ts" w r]
        accepted_iff [OF found]
      by (auto simp: handle_persist_room_message_def)
  next
    case none
    then obtain e where "outcome ?call w 3 = Inl e" by blast
    then show ?thesis
      using none write_room_message_with_retry_failure [of 3 client "room_request u rid sender text mid ts" w e]
        not_accepted [OF none]
      by (auto simp: handle_persist_room_message_def)
  qed
qed

lemma response_direct_messages_ids:
  assumes "uuid_ops u"
    and "map DirectMessagePb.message_id msgs = map (to_string u) ids"
  shows "map ResponseDirectMessage.message_id (response_direct_messages u msgs) = ids"
proof (rule nth_equalityI)
  have len: "length msgs = length ids" using assms(2) map_eq_imp_length_eq by blast
  then show "length (map ResponseDirectMessage.message_id (response_direct_messages u msgs)) = length ids"
    by (simp add: response_direct_messages_def)
  fix i
  assume "i < length (map ResponseDirectMessage.message_id (response_direct_messages u msgs))"
  then have i: "i < length msgs" by (simp add: response_direct_messages_def)
  have "DirectMessagePb.message_id (msgs ! i) = to_string u (ids ! i)"
    using assms(2) i len by (metis nth_map)
  then show "map ResponseDirectMessage.message_id (response_direct_messages u msgs) ! i = ids ! i"
    using i uuid_ops_parse [OF assms(1)] by (simp add: response_direct_messages_def response_direct_message_def nth_enumerate_eq)
qed

text \<open>
  A page the service answers reaches the session with the ids the service wrote, in the same
  order, and says there is more exactly when the service gave a cursor. Hypothesis: the crate
  \<^verbatim>\<open>uuid\<close> reads back what it prints.
\<close>

theorem page_from_service:
  assumes "uuid_ops u"
    and "get_paginated_messages client w
        \<lparr>GetPaginatedMessagesRequest.project_id = pid, GetPaginatedMessagesRequest.conversation_id = conv,
         GetPaginatedMessagesRequest.cursor_message_id = (case mid of Some c \<Rightarrow> to_string u c | None \<Rightarrow> [])\<rparr> =
      (w', Inr response)"
    and "GetPaginatedMessagesResponse.success response"
    and "map DirectMessagePb.message_id (GetPaginatedMessagesResponse.messages response) = map (to_string u) ids"
  shows "\<exists>page. persistence_get_paginated_messages u client w pid mid conv = (w', Inr page) \<and>
    map ResponseDirectMessage.message_id (PaginatedMessagesResponse.messages page) = ids \<and>
    map ResponseDirectMessage.message_text (PaginatedMessagesResponse.messages page) =
      map DirectMessagePb.message_text (GetPaginatedMessagesResponse.messages response) \<and>
    (has_more page \<longleftrightarrow> GetPaginatedMessagesResponse.next_cursor response \<noteq> [])"
proof -
  have "map ResponseDirectMessage.message_text (response_direct_messages u msgs) = map DirectMessagePb.message_text msgs"
    for msgs
    by (rule nth_equalityI)
       (simp_all add: response_direct_messages_def response_direct_message_def nth_enumerate_eq)
  then show ?thesis
    using assms(2,3) response_direct_messages_ids [OF assms(1,4)]
    by (simp add: persistence_get_paginated_messages_def)
qed

theorem page_from_service_witness:
  "\<exists>page. persistence_get_paginated_messages unary_uuid example_client [] ''p'' None ''c'' = ([], Inr page) \<and>
    map ResponseDirectMessage.message_id (PaginatedMessagesResponse.messages page) = [0] \<and> has_more page"
  using page_from_service [OF unary_uuid_ops, of example_client "[]" "''p''" "''c''" None "[]" _ "[0]"]
  by (auto simp: example_client_def unary_uuid_def)

end
