(* ===== verification/Chat_Network.thy ===== *)
theory Chat_Network
  imports Chat_Service Persistence
begin

text \<open>
  The gateway's client of the chat service connected to the handlers of the chat service, over a
  network that may lose requests and answers; and what persisting a direct message comes to there.
\<close>

section \<open>The network\<close>

text \<open>
  What the network does to one call: it delivers the request and the answer, it loses the request,
  or it loses the answer of a request that was served. A lost call ends with a status. The network
  is the list of what happens to the calls to come; past its end every call is delivered.
\<close>

datatype 'st Fate = Delivered | RequestLost 'st | AnswerLost 'st

definition over_network ::
  "('w \<Rightarrow> 'q \<Rightarrow> 'w \<times> 'r) \<Rightarrow> 'st Fate list \<times> 'w \<Rightarrow> 'q \<Rightarrow> ('st Fate list \<times> 'w) \<times> ('st, 'r) result" where
  "over_network serve net q =
     (case net of
        ([], w) \<Rightarrow> (([], fst (serve w q)), Inr (snd (serve w q)))
      | (Delivered # fs, w) \<Rightarrow> ((fs, fst (serve w q)), Inr (snd (serve w q)))
      | (RequestLost e # fs, w) \<Rightarrow> ((fs, w), Inl e)
      | (AnswerLost e # fs, w) \<Rightarrow> ((fs, fst (serve w q)), Inl e))"

text \<open>The client of the gateway, connected to the handlers of the chat service.\<close>

definition service_client ::
  "UuidOps \<Rightarrow> ('w, 'r, 'rows, 'p) Session \<Rightarrow> 'p \<Rightarrow> ('st \<Rightarrow> string) \<Rightarrow> ('st Fate list \<times> 'w, 'st) ChatClient" where
  "service_client u d queries show_st =
     \<lparr>write_dm = over_network (service_write_dm u d),
      write_room_message = over_network (service_write_room_message u d),
      get_paginated_messages = over_network (service_get_paginated_messages u d),
      sync_messages = over_network (service_sync_messages u d queries),
      show_status = show_st\<rparr>"

fun lost :: "'st Fate \<Rightarrow> bool" where
  "lost Delivered = False"
| "lost _ = True"

definition losses :: "'st Fate list \<Rightarrow> nat" where
  "losses fs = length (takeWhile lost fs)"

lemma over_network_simps [simp]:
  "over_network serve ([], w) q = (([], fst (serve w q)), Inr (snd (serve w q)))"
  "over_network serve (Delivered # fs, w) q = ((fs, fst (serve w q)), Inr (snd (serve w q)))"
  "over_network serve (RequestLost e # fs, w) q = ((fs, w), Inl e)"
  "over_network serve (AnswerLost e # fs, w) q = ((fs, fst (serve w q)), Inl e)"
  by (simp_all add: over_network_def)

lemma losses_simps [simp]:
  "losses [] = 0" "losses (Delivered # fs) = 0" "losses (RequestLost e # fs) = Suc (losses fs)"
  "losses (AnswerLost e # fs) = Suc (losses fs)"
  by (simp_all add: losses_def)

text \<open>
  A served call that reaches a state with \<open>done\<close>, answers \<open>r\<close> there and keeps \<open>done\<close>: the calls before
  the first delivered one are lost and leave the state as it was or \<open>done\<close>.
\<close>

lemma calls_lost:
  "i < losses fs \<Longrightarrow> \<exists>e. outcome (\<lambda>n. over_network serve n q) (fs, w) i = Inl e"
proof (induction fs arbitrary: i w)
  case (Cons f fs)
  then show ?case by (cases f; cases i) auto
qed simp

lemma call_served:
  assumes "\<And>w. start w \<or> finished w \<Longrightarrow> finished (fst (serve w q)) \<and> snd (serve w q) = r"
  shows "start w \<or> finished w \<Longrightarrow>
    outcome (\<lambda>n. over_network serve n q) (fs, w) (losses fs) = Inr r \<and>
    finished (snd (after (\<lambda>n. over_network serve n q) (fs, w) (Suc (losses fs))))"
proof (induction fs arbitrary: w)
  case Nil
  then show ?case using assms [of w] by simp
next
  case (Cons f fs)
  then show ?case using assms [of w] by (cases f) auto
qed

lemma calls_keep:
  assumes "\<And>w. start w \<or> finished w \<Longrightarrow> finished (fst (serve w q)) \<and> snd (serve w q) = r"
  shows "start w \<or> finished w \<Longrightarrow>
    start (snd (after (\<lambda>n. over_network serve n q) (fs, w) k)) \<or>
    finished (snd (after (\<lambda>n. over_network serve n q) (fs, w) k))"
proof (induction k arbitrary: fs w)
  case (Suc k)
  obtain fs' w' r' where step: "over_network serve (fs, w) q = ((fs', w'), r')" by (metis prod.exhaust)
  then have "start w' \<or> finished w'"
    using assms [OF Suc.prems] Suc.prems by (cases fs; cases "hd fs") auto
  then show ?case using Suc.IH [of w' fs'] step by simp
qed simp

text \<open>
  The call of the chat service is such a call: from the state before, or the state with the message
  written, it answers success and leaves the message written once.
\<close>

lemma write_served_once:
  assumes "uuid_ops u" and "serves d b" and "db_ok db"
    and "TenantUserId.project_id sender \<noteq> []" and "conv \<noteq> []"
    and row: "row = requested_row (dm_request u conv sender receiver body mid ts) mid"
    and x: "contents b x = db \<or> contents b x = dm_written row db"
  shows "contents b (fst (service_write_dm u d x (dm_request u conv sender receiver body mid ts))) = dm_written row db \<and>
    snd (service_write_dm u d x (dm_request u conv sender receiver body mid ts)) =
      \<lparr>WriteDmResponse.success = True, WriteDmResponse.error_message = []\<rparr>"
proof -
  have "db_ok (contents b x)" using x assms(3) dm_written_ok by metis
  then obtain x' where "service_write_dm u d x (dm_request u conv sender receiver body mid ts) =
      (x', \<lparr>WriteDmResponse.success = True, WriteDmResponse.error_message = []\<rparr>)"
    "contents b x' = dm_written row (contents b x)"
    using service_write_dm_effect [OF assms(2), of x "dm_request u conv sender receiver body mid ts" u mid] assms(1,4,5)
    by (auto simp: dm_request_def row uuid_ops_parse)
  then show ?thesis using x dm_written_twice [OF assms(3)] by auto
qed

text \<open>Persisting, when a call gets through in time and when none does.\<close>

lemma service_client_call:
  "(\<lambda>n. write_dm (service_client u d queries show_st) n req) = (\<lambda>n. over_network (service_write_dm u d) n req)"
  by (simp add: service_client_def)

lemma persist_delivered:
  assumes "losses fs \<le> 3"
    and "outcome (\<lambda>n. over_network (service_write_dm u d) n (dm_request u conv sender receiver body mid ts)) (fs, w) (losses fs) =
      Inr \<lparr>WriteDmResponse.success = True, WriteDmResponse.error_message = []\<rparr>"
  shows "handle_persist_direct_message u (service_client u d queries show_st) (fs, w) conv sender receiver body mid ts =
    (after (\<lambda>n. over_network (service_write_dm u d) n (dm_request u conv sender receiver body mid ts)) (fs, w)
      (Suc (losses fs)), Inr (Inr ()))"
proof -
  let ?req = "dm_request u conv sender receiver body mid ts" and ?client = "service_client u d queries show_st"
  have "write_dm_with_retry ?client (fs, w) ?req 3 =
      (after (\<lambda>n. over_network (service_write_dm u d) n ?req) (fs, w) (Suc (losses fs)), backoff (losses fs),
       Inr (Inr \<lparr>WriteDmResponse.success = True, WriteDmResponse.error_message = []\<rparr>))"
    using write_dm_with_retry_success [of "losses fs" 3 ?client ?req "(fs, w)", unfolded service_client_call] assms
      calls_lost [of _ fs "service_write_dm u d" ?req w] by blast
  then show ?thesis by (simp add: handle_persist_direct_message_def)
qed

lemma persist_lost:
  assumes "\<not> losses fs \<le> 3"
  shows "\<exists>e. handle_persist_direct_message u (service_client u d queries show_st) (fs, w) conv sender receiver body mid ts =
    (after (\<lambda>n. over_network (service_write_dm u d) n (dm_request u conv sender receiver body mid ts)) (fs, w) (Suc 3),
     Inr (Inl e))"
proof -
  let ?req = "dm_request u conv sender receiver body mid ts"
  have all: "\<forall>i\<le>3. \<exists>e. outcome (\<lambda>n. over_network (service_write_dm u d) n ?req) (fs, w) i = Inl e"
    using assms calls_lost [of _ fs "service_write_dm u d" ?req w] by (meson le_less_trans not_le)
  then obtain e where "outcome (\<lambda>n. over_network (service_write_dm u d) n ?req) (fs, w) 3 = Inl e" by blast
  then show ?thesis
    using write_dm_with_retry_failure [of 3 "service_client u d queries show_st" ?req "(fs, w)" e, unfolded service_client_call] all
    by (simp add: handle_persist_direct_message_def)
qed

end
