(* ===== verification/Room_Actor.thy ===== *)
theory Room_Actor
  imports Chat_Types Interfaces
begin

text \<open>
  \<^verbatim>\<open>peroxo/src/actors/room_actor.rs\<close>: the actor that owns one room's member table. Its inputs
  are the messages it receives and the ticks of its 60 second clean-up timer
  (\<^verbatim>\<open>tokio::select!\<close> takes either), in any order. A received message carries the reading of
  \<^verbatim>\<open>chrono::Utc::now\<close> its handler makes, a tick carries what \<^verbatim>\<open>Sender::is_closed\<close> says of each
  member's channel at that moment. \<open>iter\<close> is the iteration order of the member table.
\<close>

section \<open>State\<close>

record RoomActor =
  room_id :: string
  members :: "(TenantUserId, session_sender) hash_map"
  persistence :: "persistence_ref option"

definition room_new :: "string \<Rightarrow> persistence_ref \<Rightarrow> RoomActor" where
  "room_new rid p = \<lparr>room_id = rid, members = [], persistence = Some p\<rparr>"

section \<open>Handlers\<close>

definition handle_add_member ::
  "RoomActor \<Rightarrow> TenantUserId \<Rightarrow> session_sender \<Rightarrow> oneshot \<Rightarrow> RoomActor \<times> Effect list" where
  "handle_add_member self tenant_user_id sender respond_to =
     (if hm_contains_key (members self) tenant_user_id
      then (self, [Respond respond_to (UnitReply (Inl ''User already in room''))])
      else (self\<lparr>members := hm_insert (members self) tenant_user_id sender\<rparr>,
            [Respond respond_to (UnitReply (Inr ()))]))"

definition handle_remove_member :: "RoomActor \<Rightarrow> TenantUserId \<Rightarrow> RoomActor" where
  "handle_remove_member self tenant_user_id =
     self\<lparr>members := hm_remove (members self) tenant_user_id\<rparr>"

definition room_handle_send_message ::
  "((TenantUserId, session_sender) hash_map \<Rightarrow> (TenantUserId \<times> session_sender) list) \<Rightarrow>
   millis \<Rightarrow> RoomActor \<Rightarrow> TenantUserId \<Rightarrow> string \<Rightarrow> uuid \<Rightarrow> oneshot option \<Rightarrow> Effect list" where
  "room_handle_send_message iter now self from content mid respond_to =
     (case persistence self of
        None \<Rightarrow> []
      | Some p \<Rightarrow>
          (case respond_to of
             None \<Rightarrow> []
           | Some responder \<Rightarrow>
               [Spawn (PersistRoomMessage (room_id self) from content mid now responder)])) @
     map (\<lambda>(member_id, sender). TrySend sender (ChatMessage.RoomMessage (room_id self) from content mid))
       (iter (members self))"

definition room_handle_get_paginated_messages ::
  "RoomActor \<Rightarrow> string \<Rightarrow> uuid option \<Rightarrow> oneshot \<Rightarrow> Effect list" where
  "room_handle_get_paginated_messages self pid mid respond_to =
     (case persistence self of
        None \<Rightarrow> []
      | Some p \<Rightarrow> [Spawn (FetchPage pid mid (room_id self) respond_to)])"

fun room_handle_message ::
  "((TenantUserId, session_sender) hash_map \<Rightarrow> (TenantUserId \<times> session_sender) list) \<Rightarrow>
   millis \<Rightarrow> RoomActor \<Rightarrow> RoomMessage \<Rightarrow> RoomActor \<times> Effect list" where
  "room_handle_message iter now self (AddMember tenant_user_id sender respond_to) =
     handle_add_member self tenant_user_id sender respond_to"
| "room_handle_message iter now self (RemoveMember tenant_user_id) =
     (handle_remove_member self tenant_user_id, [])"
| "room_handle_message iter now self (SendMessage from content mid respond_to) =
     (self, room_handle_send_message iter now self from content mid respond_to)"
| "room_handle_message iter now self (GetMembers respond_to) =
     (self, [Respond respond_to (UsersReply (map fst (iter (members self))))])"
| "room_handle_message iter now self (RoomMessage.GetPaginatedMessages pid mid respond_to) =
     (self, room_handle_get_paginated_messages self pid mid respond_to)"

definition room_cleanup :: "(session_sender \<Rightarrow> bool) \<Rightarrow> RoomActor \<Rightarrow> RoomActor" where
  "room_cleanup is_closed self = self\<lparr>members := hm_retain (\<lambda>_ sender. \<not> is_closed sender) (members self)\<rparr>"

section \<open>The actor loop\<close>

datatype RoomInput = Recv millis RoomMessage | CleanupTick "session_sender \<Rightarrow> bool"

fun room_step ::
  "((TenantUserId, session_sender) hash_map \<Rightarrow> (TenantUserId \<times> session_sender) list) \<Rightarrow>
   RoomActor \<Rightarrow> RoomInput \<Rightarrow> (Panic, RoomActor \<times> Effect list) result" where
  "room_step iter self (Recv now m) = Inr (room_handle_message iter now self m)"
| "room_step iter self (CleanupTick is_closed) = Inr (room_cleanup is_closed self, [])"

definition room_run ::
  "((TenantUserId, session_sender) hash_map \<Rightarrow> (TenantUserId \<times> session_sender) list) \<Rightarrow>
   RoomActor \<Rightarrow> RoomInput list \<Rightarrow> (Panic, RoomActor \<times> Effect list) result" where
  "room_run iter self inputs = actor_run (room_step iter) self inputs"

text \<open>
  The task a broadcast spawns (lines 187 to 214): it awaits the persistence call, whose outcome
  is \<open>outcome\<close>, and acknowledges on the responder.
\<close>

definition room_persist_task :: "(string, unit) result \<Rightarrow> millis \<Rightarrow> uuid \<Rightarrow> oneshot \<Rightarrow> Effect list" where
  "room_persist_task outcome now mid responder =
     (case outcome of
        Inr _ \<Rightarrow> [Respond responder (AckReply \<lparr>MessageAckResponse.message_id = mid, timestamp = now,
                    status = Persisted\<rparr>)]
      | Inl e \<Rightarrow> [Respond responder (AckReply \<lparr>MessageAckResponse.message_id = mid, timestamp = now,
                    status = Failed e\<rparr>)])"

lemmas room_defs = handle_add_member_def handle_remove_member_def room_handle_send_message_def
  room_handle_get_paginated_messages_def room_cleanup_def

declare room_defs [handler_defs]

section \<open>Invariant\<close>

definition room_inv :: "RoomActor \<Rightarrow> bool" where
  "room_inv self \<longleftrightarrow> hm_wf (members self) \<and> persistence self \<noteq> None"

lemma room_inv_new [simp]: "room_inv (room_new rid p)"
  by (simp add: room_inv_def room_new_def)

lemma room_handle_message_inv:
  "room_inv self \<Longrightarrow> room_inv (fst (room_handle_message iter now self m))"
  by (cases m) (auto simp: room_inv_def handler_defs)

lemma room_cleanup_inv: "room_inv self \<Longrightarrow> room_inv (room_cleanup c self)"
  by (simp add: room_inv_def room_cleanup_def)

lemma room_step_ok:
  "room_inv self \<Longrightarrow> \<exists>self' es. room_step iter self i = Inr (self', es) \<and> room_inv self'"
  by (cases i) (auto intro: room_cleanup_inv dest: room_handle_message_inv [of self iter] split: prod.splits simp: prod_eq_iff)

lemma room_step_frame:
  "room_step iter self i = Inr (self', es) \<Longrightarrow>
   room_id self' = room_id self \<and> persistence self' = persistence self"
  by (cases i)
     (auto simp: handler_defs split: if_splits elim!: room_handle_message.elims)

interpretation room: growing_actor "room_step iter" room_inv
  "\<lambda>s t. room_id t = room_id s \<and> persistence t = persistence s"
  by unfold_locales (blast intro: room_step_ok, auto dest: room_step_frame)

section \<open>The member table as a registry\<close>

definition room_add :: "RoomActor \<Rightarrow> TenantUserId \<Rightarrow> session_sender \<Rightarrow> RoomActor \<times> bool" where
  "room_add self k v =
     (let (self', es) = handle_add_member self k v 0
      in (self', replies 0 es = [UnitReply (Inr ())]))"

interpretation room_members: registry room_add handle_remove_member "\<lambda>s. hm_get (members s)" room_inv
  by unfold_locales
     (auto simp: room_add_def handler_defs room_inv_def hm_contains_key_def Let_def)

section \<open>Properties\<close>

lemma length_filter_iter:
  assumes "hash_iter iter"
  shows "length (filter p (iter m)) = length (filter p m)"
proof -
  have "mset (filter p (iter m)) = mset (filter p m)"
    using assms by (simp add: hash_iter_mset)
  then show ?thesis by (rule mset_eq_length)
qed

lemma offered_broadcast:
  assumes "hash_iter iter"
  shows "offered s (room_handle_send_message iter now self from content mid respond_to) =
     replicate (length (filter (\<lambda>(k, s'). s' = s) (members self)))
       (ChatMessage.RoomMessage (room_id self) from content mid)"
  using length_filter_iter [OF assms]
  by (simp add: room_handle_send_message_def offered_map_TrySend map_replicate_const
      split: option.splits)

text \<open>
  C24. A broadcast offers the message to every member's channel exactly once (as often as the
  member table holds the channel) and to no other channel, whatever the iteration order of the
  table, and it keeps room, sender, content and id. It does so for any sender: membership of
  the sender is not checked.
\<close>

theorem room_broadcast_exact:
  assumes "hash_iter iter"
  shows "offered s (snd (room_handle_message iter now self (SendMessage from content mid respond_to))) =
     replicate (length (filter (\<lambda>(k, s'). s' = s) (members self)))
       (ChatMessage.RoomMessage (room_id self) from content mid)"
  by (simp add: offered_broadcast [OF assms])

definition example_room :: RoomActor where
  "example_room =
     \<lparr>room_id = ''lobby'',
      members = [(tenant_new ''p'' ''ann'', 1), (tenant_new ''p'' ''bob'', 2)],
      persistence = Some 0\<rparr>"

theorem room_broadcast_exact_witness:
  "offered 2 (snd (room_handle_message rev 5 example_room
      (SendMessage (tenant_new ''p'' ''eve'') ''hi'' 9 None))) =
     [ChatMessage.RoomMessage ''lobby'' (tenant_new ''p'' ''eve'') ''hi'' 9]"
  using room_broadcast_exact [OF hash_iter_rev, of 2 5 example_room "tenant_new ''p'' ''eve''" "''hi''" 9 None]
  by (simp add: example_room_def)

text \<open>
  The member table of a room refines the specification of a registry: after any sequence of
  joins and leaves, the table is the map the specification computes, and a join is answered
  with success exactly where the specification admits it.
\<close>

theorem room_members_refine:
  assumes "room_inv self"
  shows "(hm_get (members (fst (registry_run room_add handle_remove_member self xs))),
          snd (registry_run room_add handle_remove_member self xs)) =
         spec_run (hm_get (members self)) xs"
  using room_members.run_refines [OF assms, of xs] by blast

theorem room_members_refine_witness:
  "room_inv example_room \<and>
   (hm_get (members (fst (registry_run room_add handle_remove_member example_room
       [Add (tenant_new ''p'' ''ann'') 7, Remove (tenant_new ''p'' ''bob'')]))),
    snd (registry_run room_add handle_remove_member example_room
       [Add (tenant_new ''p'' ''ann'') 7, Remove (tenant_new ''p'' ''bob'')])) =
   (hm_get [(tenant_new ''p'' ''ann'', 1)], [False, True])"
proof -
  have inv: "room_inv example_room"
    by (simp add: room_inv_def example_room_def hm_wf_def)
  show ?thesis
    using inv room_members_refine [OF inv, of "[Add (tenant_new ''p'' ''ann'') 7, Remove (tenant_new ''p'' ''bob'')]"]
    by (auto simp: example_room_def hm_get_def fun_eq_iff)
qed

text \<open>
  The clean-up tick removes exactly the members whose channel is closed: no member with an
  open channel is evicted, and none with a closed channel stays.
\<close>

theorem room_cleanup_exact:
  assumes "room_inv self"
  shows "room_step iter self (CleanupTick is_closed) = Inr (room_cleanup is_closed self, []) \<and>
    hm_get (members (room_cleanup is_closed self)) u =
      (case hm_get (members self) u of
         None \<Rightarrow> None
       | Some s \<Rightarrow> if is_closed s then None else Some s)"
  using assms
  by (simp add: room_cleanup_def room_inv_def hm_get_retain split: option.splits)

theorem room_cleanup_exact_witness:
  "hm_get (members (room_cleanup (\<lambda>s. s = 1) example_room)) (tenant_new ''p'' ''ann'') = None \<and>
   hm_get (members (room_cleanup (\<lambda>s. s = 1) example_room)) (tenant_new ''p'' ''bob'') = Some 2"
proof -
  have inv: "room_inv example_room"
    by (simp add: room_inv_def example_room_def hm_wf_def)
  show ?thesis
    using room_cleanup_exact [OF inv, of rev "\<lambda>s. s = 1" "tenant_new ''p'' ''ann''"]
      room_cleanup_exact [OF inv, of rev "\<lambda>s. s = 1" "tenant_new ''p'' ''bob''"]
    by (simp add: example_room_def hm_get_def)
qed

text \<open>
  A user who lost the connection and joins the room again before the clean-up tick is refused,
  because the table still holds the closed channel; messages are not offered to the new channel,
  and after the tick the user is not a member at all.
\<close>

theorem rejoin_before_cleanup_lost:
  assumes iter: "hash_iter iter" and inv: "room_inv self"
    and stale: "hm_get (members self) u = Some old" "is_closed old"
    and fresh: "new \<notin> snd ` set (members self)"
  shows "\<exists>self' es.
    room_run iter self [Recv t1 (AddMember u new c), Recv t2 (SendMessage from content mid None)]
      = Inr (self', es) \<and>
    replies c es = [UnitReply (Inl ''User already in room'')] \<and>
    offered new es = [] \<and>
    hm_get (members (room_cleanup is_closed self')) u = None"
proof -
  have "filter (\<lambda>(k, s'). s' = new) (members self) = []"
    using fresh by (force simp: filter_empty_conv)
  then have "offered new (room_handle_send_message iter t2 self from content mid None) = []"
    by (simp add: offered_broadcast [OF iter])
  moreover have "replies c (room_handle_send_message iter t2 self from content mid None) = []"
    by (simp add: room_handle_send_message_def split: option.splits)
  moreover have "hm_get (members (room_cleanup is_closed self)) u = None"
    using inv stale by (simp add: room_cleanup_def room_inv_def hm_get_retain)
  ultimately show ?thesis
    using stale by (simp add: room_run_def handle_add_member_def hm_contains_key_def)
qed

theorem rejoin_before_cleanup_lost_witness:
  "\<exists>self' es.
    room_run rev example_room
      [Recv 1 (AddMember (tenant_new ''p'' ''ann'') 7 4),
       Recv 2 (SendMessage (tenant_new ''p'' ''bob'') ''hi'' 9 None)] = Inr (self', es) \<and>
    replies 4 es = [UnitReply (Inl ''User already in room'')] \<and>
    offered 7 es = [] \<and>
    hm_get (members (room_cleanup (\<lambda>s. s = 1) self')) (tenant_new ''p'' ''ann'') = None"
  by (rule rejoin_before_cleanup_lost [OF hash_iter_rev, of example_room "tenant_new ''p'' ''ann''" 1])
     (simp_all add: example_room_def room_inv_def hm_wf_def hm_get_def)

text \<open>
  A room actor never panics and keeps its invariant over any sequence of messages and ticks:
  it stays the actor of the same room with the same persistence service, and no user is in its
  table twice.
\<close>

theorem room_run_safe:
  assumes "room_inv self"
  shows "\<exists>self' es. room_run iter self inputs = Inr (self', es) \<and> room_inv self' \<and>
    room_id self' = room_id self \<and> persistence self' = persistence self"
proof -
  obtain self' es where 1: "actor_run (room_step iter) self inputs = Inr (self', es)" "room_inv self'"
    using room.run_ok [OF assms] by blast
  then show ?thesis
    using room.run_below [OF assms 1(1)] by (simp add: room_run_def)
qed

theorem room_run_safe_witness:
  "\<exists>self' es. room_run rev (room_new ''lobby'' 0)
     [Recv 1 (AddMember (tenant_new ''p'' ''ann'') 7 4), CleanupTick (\<lambda>_. False)] = Inr (self', es) \<and>
     room_inv self' \<and> room_id self' = ''lobby'' \<and> persistence self' = Some 0"
  using room_run_safe [OF room_inv_new, of rev "''lobby''" 0
      "[Recv 1 (AddMember (tenant_new ''p'' ''ann'') 7 4), CleanupTick (\<lambda>_. False)]"]
  by (simp add: room_new_def)

end
