(* ===== verification/Message_Router.thy ===== *)
theory Message_Router
  imports Room_Actor
begin

text \<open>
  \<^verbatim>\<open>peroxo/src/actors/message_router\<close>: the central actor that owns the table of connected users
  and the table of rooms. \<open>router_step\<close> is the \<^verbatim>\<open>match\<close> of \<^verbatim>\<open>MessageRouter::run\<close>, one equation
  per message, over the handlers of \<^verbatim>\<open>handlers.rs\<close>.

  What a handler obtains from outside is in the \<open>RouterEnv\<close> of the message: the readings of the
  clock, the handles of channels it creates, and whether the receiving end of a room's channel is
  still there (\<^verbatim>\<open>UnboundedSender::send\<close> fails exactly when it is not).
\<close>

section \<open>State\<close>

record MessageRouter =
  users :: "(TenantUserId, session_sender) hash_map"
  online_users :: "TenantUserId list"
  persistence :: "persistence_ref option"
  rooms :: "(string, room_sender) hash_map"

record RouterEnv =
  now_persist :: millis
  now_message :: millis
  new_room :: room_sender
  new_oneshot :: oneshot
  room_open :: "room_sender \<Rightarrow> bool"

definition router_new :: "persistence_ref \<Rightarrow> MessageRouter" where
  "router_new p = \<lparr>users = [], online_users = [], persistence = Some p, rooms = []\<rparr>"

section \<open>Handlers\<close>

definition handle_register_user ::
  "MessageRouter \<Rightarrow> TenantUserId \<Rightarrow> session_sender \<Rightarrow> oneshot \<Rightarrow> MessageRouter \<times> Effect list" where
  "handle_register_user self tenant_user_id sender respond_to =
     (if hm_contains_key (users self) tenant_user_id
      then (self, [Respond respond_to (UnitReply (Inl ''User already online''))])
      else (self\<lparr>users := hm_insert (users self) tenant_user_id sender,
                 online_users := online_users self @ [tenant_user_id]\<rparr>,
            [Respond respond_to (UnitReply (Inr ()))]))"

definition handle_unregister_user :: "MessageRouter \<Rightarrow> TenantUserId \<Rightarrow> MessageRouter" where
  "handle_unregister_user self tenant_user_id =
     (if hm_get (users self) tenant_user_id \<noteq> None
      then self\<lparr>users := hm_remove (users self) tenant_user_id,
                online_users := filter (\<lambda>u. u \<noteq> tenant_user_id) (online_users self)\<rparr>
      else self)"

definition router_handle_direct_message ::
  "RouterEnv \<Rightarrow> MessageRouter \<Rightarrow> string \<Rightarrow> TenantUserId \<Rightarrow> TenantUserId \<Rightarrow> string \<Rightarrow> uuid \<Rightarrow>
   oneshot option \<Rightarrow> Effect list" where
  "router_handle_direct_message env self conv from to content mid respond_to =
     (case persistence self of
        None \<Rightarrow> []
      | Some p \<Rightarrow>
          (case respond_to of
             None \<Rightarrow> []
           | Some responder \<Rightarrow>
               [Spawn (PersistDirectMessage conv from to content mid (now_persist env) responder)])) @
     (case hm_get (users self) to of
        None \<Rightarrow> []
      | Some recipient_sender \<Rightarrow>
          [TrySend recipient_sender (DirectMessage from content mid (now_message env))])"

definition handle_get_paginated_chat_history ::
  "MessageRouter \<Rightarrow> string \<Rightarrow> uuid option \<Rightarrow> string \<Rightarrow> oneshot \<Rightarrow> Effect list" where
  "handle_get_paginated_chat_history self pid mid conv respond_to =
     (case persistence self of
        None \<Rightarrow> []
      | Some p \<Rightarrow> [Spawn (FetchPage pid mid conv respond_to)])"

definition handle_join_room ::
  "RouterEnv \<Rightarrow> MessageRouter \<Rightarrow> TenantUserId \<Rightarrow> string \<Rightarrow> session_sender \<Rightarrow> oneshot \<Rightarrow>
   (Panic, MessageRouter \<times> Effect list) result" where
  "handle_join_room env self tenant_user_id rid sender respond_to =
     (let found =
        (case hm_get (rooms self) rid of
           Some room_sender \<Rightarrow> Inr (self, [], room_sender)
         | None \<Rightarrow>
             (case persistence self of
                None \<Rightarrow> Inl UnwrapNone
              | Some p \<Rightarrow>
                  Inr (self\<lparr>rooms := hm_insert (rooms self) rid (new_room env)\<rparr>,
                       [Spawn (RunRoom (new_room env) rid p)], new_room env)))
      in case found of
           Inl e \<Rightarrow> Inl e
         | Inr (self', es, room_sender) \<Rightarrow>
             (if room_open env room_sender
              then Inr (self', es @
                     [SendRoom room_sender (AddMember tenant_user_id sender (new_oneshot env)),
                      Spawn (RelayJoin (new_oneshot env) respond_to)])
              else Inr (self', es @
                     [Respond respond_to (UnitReply (Inl ''Failed to communicate with room''))])))"

definition handle_leave_room :: "RouterEnv \<Rightarrow> MessageRouter \<Rightarrow> TenantUserId \<Rightarrow> string \<Rightarrow> Effect list" where
  "handle_leave_room env self tenant_user_id rid =
     (case hm_get (rooms self) rid of
        None \<Rightarrow> []
      | Some room_sender \<Rightarrow>
          if room_open env room_sender then [SendRoom room_sender (RemoveMember tenant_user_id)] else [])"

definition router_handle_room_message ::
  "RouterEnv \<Rightarrow> MessageRouter \<Rightarrow> string \<Rightarrow> TenantUserId \<Rightarrow> string \<Rightarrow> uuid \<Rightarrow> oneshot option \<Rightarrow>
   Effect list" where
  "router_handle_room_message env self rid from content mid respond_to =
     (case hm_get (rooms self) rid of
        Some room_sender \<Rightarrow>
          if room_open env room_sender
          then [SendRoom room_sender (SendMessage from content mid respond_to)] else []
      | None \<Rightarrow>
          (case respond_to of
             None \<Rightarrow> []
           | Some responder \<Rightarrow>
               [Respond responder (AckReply \<lparr>MessageAckResponse.message_id = mid,
                  timestamp = now_message env, status = Failed ''Room not found''\<rparr>)]))"

definition handle_get_room_members :: "RouterEnv \<Rightarrow> MessageRouter \<Rightarrow> string \<Rightarrow> oneshot \<Rightarrow> Effect list" where
  "handle_get_room_members env self rid respond_to =
     (case hm_get (rooms self) rid of
        Some room_sender \<Rightarrow>
          if room_open env room_sender
          then [SendRoom room_sender (GetMembers (new_oneshot env)),
                Spawn (RelayMembers (new_oneshot env) respond_to)]
          else [Respond respond_to (MembersReply None)]
      | None \<Rightarrow> [Respond respond_to (MembersReply None)])"

definition router_handle_sync_messages ::
  "MessageRouter \<Rightarrow> string \<Rightarrow> string \<Rightarrow> uuid \<Rightarrow> oneshot \<Rightarrow> Effect list" where
  "router_handle_sync_messages self pid conv mid respond_to =
     (case persistence self of
        Some p \<Rightarrow> [Spawn (FetchSync pid conv mid respond_to)]
      | None \<Rightarrow> [Respond respond_to (SyncReply (Inl ''Persistence not available''))])"

section \<open>The actor loop\<close>

fun router_step ::
  "MessageRouter \<Rightarrow> RouterEnv \<times> RouterMessage \<Rightarrow> (Panic, MessageRouter \<times> Effect list) result" where
  "router_step self (env, RegisterUser tenant_user_id sender respond_to) =
     Inr (handle_register_user self tenant_user_id sender respond_to)"
| "router_step self (env, UnregisterUser tenant_user_id) =
     Inr (handle_unregister_user self tenant_user_id, [])"
| "router_step self (env, RouterMessage.SendDirectMessage conv from to content mid respond_to) =
     Inr (self, router_handle_direct_message env self conv from to content mid respond_to)"
| "router_step self (env, GetOnlineUsers respond_to) =
     Inr (self, [Respond respond_to (UsersReply (online_users self))])"
| "router_step self (env, RouterMessage.GetPaginatedMessages pid mid conv respond_to) =
     Inr (self, handle_get_paginated_chat_history self pid mid conv respond_to)"
| "router_step self (env, RouterMessage.JoinRoom tenant_user_id rid sender respond_to) =
     handle_join_room env self tenant_user_id rid sender respond_to"
| "router_step self (env, RouterMessage.LeaveRoom tenant_user_id rid) =
     Inr (self, handle_leave_room env self tenant_user_id rid)"
| "router_step self (env, SendRoomMessage rid from content mid respond_to) =
     Inr (self, router_handle_room_message env self rid from content mid respond_to)"
| "router_step self (env, GetRoomMembers rid respond_to) =
     Inr (self, handle_get_room_members env self rid respond_to)"
| "router_step self (env, RouterMessage.SyncMessages pid conv mid respond_to) =
     Inr (self, router_handle_sync_messages self pid conv mid respond_to)"

definition router_run ::
  "MessageRouter \<Rightarrow> (RouterEnv \<times> RouterMessage) list \<Rightarrow> (Panic, MessageRouter \<times> Effect list) result" where
  "router_run self inputs = actor_run router_step self inputs"

section \<open>The spawned tasks\<close>

text \<open>
  Each task awaits one answer and sends it on. The awaited answer is an argument: the outcome of
  the persistence call, or what the inner oneshot channel gave (\<^const>\<open>None\<close>: its sender was
  dropped).
\<close>

definition dm_persist_task :: "(string, unit) result \<Rightarrow> millis \<Rightarrow> uuid \<Rightarrow> oneshot \<Rightarrow> Effect list" where
  "dm_persist_task outcome now mid responder =
     CountMessage ''peristed'' #
     (case outcome of
        Inr _ \<Rightarrow> [Respond responder (AckReply \<lparr>MessageAckResponse.message_id = mid, timestamp = now,
                    status = Persisted\<rparr>)]
      | Inl e \<Rightarrow> [Respond responder (AckReply \<lparr>MessageAckResponse.message_id = mid, timestamp = now,
                    status = Failed e\<rparr>)])"

definition relay_join_task :: "(string, unit) result option \<Rightarrow> oneshot \<Rightarrow> Effect list" where
  "relay_join_task room_response respond_to =
     (case room_response of
        Some res \<Rightarrow> [Respond respond_to (UnitReply res)]
      | None \<Rightarrow> [Respond respond_to (UnitReply (Inl ''Room response timeout''))])"

definition relay_members_task :: "TenantUserId list option \<Rightarrow> oneshot \<Rightarrow> Effect list" where
  "relay_members_task room_response respond_to =
     (case room_response of
        Some ms \<Rightarrow> [Respond respond_to (MembersReply (Some ms))]
      | None \<Rightarrow> [Respond respond_to (MembersReply None)])"

definition fetch_page_task :: "(string, PaginatedMessagesResponse) result \<Rightarrow> oneshot \<Rightarrow> Effect list" where
  "fetch_page_task res respond_to = [Respond respond_to (PageReply res)]"

definition fetch_sync_task :: "(string, ResponseDirectMessage list) result \<Rightarrow> oneshot \<Rightarrow> Effect list" where
  "fetch_sync_task res respond_to = [Respond respond_to (SyncReply res)]"

lemmas router_defs = handle_register_user_def handle_unregister_user_def
  router_handle_direct_message_def handle_get_paginated_chat_history_def handle_join_room_def
  handle_leave_room_def router_handle_room_message_def handle_get_room_members_def
  router_handle_sync_messages_def

section \<open>Invariant\<close>

definition router_inv :: "MessageRouter \<Rightarrow> bool" where
  "router_inv self \<longleftrightarrow>
     hm_wf (users self) \<and> distinct (online_users self) \<and>
     set (online_users self) = dom (hm_get (users self)) \<and>
     hm_wf (rooms self) \<and> persistence self \<noteq> None"

lemma router_inv_new [simp]: "router_inv (router_new p)"
  by (simp add: router_inv_def router_new_def hm_get_def [abs_def])

lemma register_inv:
  "router_inv self \<Longrightarrow> router_inv (fst (handle_register_user self u s c))"
  by (auto simp: router_inv_def handle_register_user_def hm_contains_key_def dom_def)

lemma unregister_inv: "router_inv self \<Longrightarrow> router_inv (handle_unregister_user self u)"
  by (auto simp: router_inv_def handle_unregister_user_def)

lemma join_room_ok:
  assumes "router_inv self"
  shows "\<exists>self' es. handle_join_room env self u rid s c = Inr (self', es) \<and> router_inv self' \<and>
    users self' = users self \<and> hm_get (rooms self) \<subseteq>\<^sub>m hm_get (rooms self') \<and>
    persistence self' = persistence self"
  using assms
  by (cases "hm_get (rooms self) rid")
     (auto simp: handle_join_room_def router_inv_def map_le_def)

lemma register_ok:
  "router_inv self \<Longrightarrow> \<exists>self' es. handle_register_user self u s c = (self', es) \<and> router_inv self'"
  using register_inv [of self u s c] by (cases "handle_register_user self u s c") auto

lemma router_step_ok:
  assumes "router_inv self"
  shows "\<exists>self' es. router_step self i = Inr (self', es) \<and> router_inv self'"
proof -
  obtain env m where i: "i = (env, m)" by (cases i)
  show ?thesis
  proof (cases m)
    case (JoinRoom u rid s c)
    then show ?thesis using join_room_ok [OF assms, of env u rid s c] by (auto simp: i)
  qed (use assms register_ok [OF assms] unregister_inv [OF assms] in \<open>auto simp: i\<close>)
qed

lemma router_step_frame:
  assumes "router_inv self" and "router_step self i = Inr (self', es)"
  shows "hm_get (rooms self) \<subseteq>\<^sub>m hm_get (rooms self') \<and> persistence self' = persistence self"
proof -
  obtain env m where i: "i = (env, m)" by (cases i)
  show ?thesis
  proof (cases m)
    case (JoinRoom u rid s c)
    then show ?thesis using join_room_ok [OF assms(1), of env u rid s c] assms(2) by (auto simp: i)
  qed (use assms(2) in \<open>auto simp: i router_defs split: if_splits\<close>)
qed

interpretation router: growing_actor router_step router_inv
  "\<lambda>s t. hm_get (rooms s) \<subseteq>\<^sub>m hm_get (rooms t) \<and> persistence t = persistence s"
  by unfold_locales
     (blast intro: router_step_ok, auto dest: router_step_frame intro: map_le_trans)

section \<open>The user table as a registry\<close>

definition router_add :: "MessageRouter \<Rightarrow> TenantUserId \<Rightarrow> session_sender \<Rightarrow> MessageRouter \<times> bool" where
  "router_add self k v =
     (let (self', es) = handle_register_user self k v 0
      in (self', replies 0 es = [UnitReply (Inr ())]))"

interpretation router_users: registry router_add handle_unregister_user "\<lambda>s. hm_get (users s)" router_inv
proof (unfold_locales, goal_cases)
  case (4 s k v)
  then show ?case using register_inv [OF 4, of k v 0] by (simp add: router_add_def split_beta)
next
  case (5 s k)
  then show ?case by (rule unregister_inv)
qed (auto simp: router_add_def router_defs hm_contains_key_def fun_eq_iff)

section \<open>Properties\<close>

subsection \<open>Presence\<close>

text \<open>
  Whatever messages the router receives from its start, in whatever order and with whatever
  readings of the environment, it does not panic, and the list of online users holds exactly the
  users of the table, each once.
\<close>

theorem router_presence:
  "\<exists>self' es. router_run (router_new p) inputs = Inr (self', es) \<and>
     distinct (online_users self') \<and>
     set (online_users self') = dom (hm_get (users self'))"
  using router.run_ok [OF router_inv_new [of p], of inputs]
  by (auto simp: router_run_def router_inv_def)

text \<open>The registrations and removals among the router's messages.\<close>

fun registry_view :: "RouterMessage \<Rightarrow> (TenantUserId, session_sender) RegistryOp list" where
  "registry_view (RegisterUser u s c) = [Add u s]"
| "registry_view (UnregisterUser u) = [Remove u]"
| "registry_view _ = []"

definition registry_trace ::
  "(RouterEnv \<times> RouterMessage) list \<Rightarrow> (TenantUserId, session_sender) RegistryOp list" where
  "registry_trace inputs = concat (map (\<lambda>(env, m). registry_view m) inputs)"

lemma spec_run_append:
  "fst (spec_run m (xs @ ys)) = fst (spec_run (fst (spec_run m xs)) ys)"
  by (induction xs arbitrary: m) (auto simp: Let_def split_beta)

lemma router_step_users:
  assumes "router_inv self" and "router_step self (env, m) = Inr (self', es)"
  shows "hm_get (users self') = fst (spec_run (hm_get (users self)) (registry_view m))"
proof (cases m)
  case (RegisterUser u s c)
  then show ?thesis
    using assms(2) by (auto simp: handle_register_user_def hm_contains_key_def split: if_splits)
next
  case (UnregisterUser u)
  then show ?thesis
    using assms(2) by (auto simp: handle_unregister_user_def fun_eq_iff)
next
  case (JoinRoom u rid s c)
  then show ?thesis
    using assms join_room_ok [OF assms(1), of env u rid s c] by auto
qed (use assms in auto)

lemma router_run_users:
  "router_inv self \<Longrightarrow> router_run self inputs = Inr (self', es) \<Longrightarrow>
   hm_get (users self') = fst (spec_run (hm_get (users self)) (registry_trace inputs))"
proof (induction inputs arbitrary: self es)
  case Nil
  then show ?case by (simp add: router_run_def registry_trace_def)
next
  case (Cons i inputs)
  obtain env m where i: "i = (env, m)" by (cases i)
  obtain self1 es1 where 1: "router_step self i = Inr (self1, es1)" "router_inv self1"
    using router_step_ok [OF Cons.prems(1)] by blast
  obtain es2 where 2: "router_run self1 inputs = Inr (self', es2)"
    using Cons.prems(2) 1(1) by (auto simp: router_run_def split: sum.splits)
  have "hm_get (users self1) = fst (spec_run (hm_get (users self)) (registry_view m))"
    using router_step_users [OF Cons.prems(1)] 1(1) by (simp add: i)
  then show ?case
    using Cons.IH [OF 1(2) 2] by (simp add: registry_trace_def i spec_run_append)
qed

text \<open>
  C21. The user table refines the specification of a registry over every run of the router: the
  table at the end is the map the specification computes from the registrations and removals
  among the messages, whatever other messages come between.
\<close>

theorem router_users_refine:
  assumes "router_inv self" and "router_run self inputs = Inr (self', es)"
  shows "hm_get (users self') = fst (spec_run (hm_get (users self)) (registry_trace inputs))"
  by (rule router_run_users [OF assms])

definition example_env :: RouterEnv where
  "example_env = \<lparr>now_persist = 1, now_message = 2, new_room = 50, new_oneshot = 60, room_open = (\<lambda>_. True)\<rparr>"

definition example_registrations :: "(RouterEnv \<times> RouterMessage) list" where
  "example_registrations =
     [(example_env, RegisterUser (tenant_new ''p'' ''ann'') 1 10),
      (example_env, RegisterUser (tenant_new ''p'' ''ann'') 2 11)]"

theorem router_users_refine_witness:
  "\<exists>self' es. router_run (router_new 0) example_registrations = Inr (self', es) \<and>
     hm_get (users self') (tenant_new ''p'' ''ann'') = Some 1"
proof -
  obtain self' es where r: "router_run (router_new 0) example_registrations = Inr (self', es)"
    using router.run_ok [OF router_inv_new [of 0], of example_registrations]
    by (auto simp: router_run_def)
  show ?thesis
    using r router_users_refine [OF router_inv_new r]
    by (simp add: registry_trace_def example_registrations_def router_new_def)
qed

text \<open>
  A connected user keeps the channel it registered: until an \<^verbatim>\<open>UnregisterUser\<close> for that user
  is handled, no sequence of messages replaces or drops its entry.
\<close>

theorem registered_channel_stable:
  assumes "router_inv self" and "hm_get (users self) u = Some s"
    and "\<forall>(env, m) \<in> set inputs. m \<noteq> UnregisterUser u"
  shows "\<exists>self' es. router_run self inputs = Inr (self', es) \<and> hm_get (users self') u = Some s"
proof -
  obtain self' es where r: "router_run self inputs = Inr (self', es)"
    using router.run_ok [OF assms(1), of inputs] by (auto simp: router_run_def)
  have "Remove u \<notin> set (registry_view m)" if "m \<noteq> UnregisterUser u" for m
    using that by (cases m) auto
  then have "Remove u \<notin> set (registry_trace inputs)"
    using assms(3) by (fastforce simp: registry_trace_def)
  then show ?thesis
    using r router_run_users [OF assms(1) r] spec_run_keeps [of "hm_get (users self)", OF assms(2)] by simp
qed

definition example_router :: MessageRouter where
  "example_router =
     \<lparr>users = [(tenant_new ''p'' ''ann'', 1), (tenant_new ''p'' ''bob'', 2)],
      online_users = [tenant_new ''p'' ''ann'', tenant_new ''p'' ''bob''],
      persistence = Some 0, rooms = [(''lobby'', 40)]\<rparr>"

lemma example_router_inv: "router_inv example_router"
  by (auto simp: router_inv_def example_router_def hm_wf_def dom_hm_get)

theorem registered_channel_stable_witness:
  "\<exists>self' es. router_run example_router example_registrations = Inr (self', es) \<and>
     hm_get (users self') (tenant_new ''p'' ''bob'') = Some 2"
  by (rule registered_channel_stable [OF example_router_inv])
     (simp_all add: example_router_def example_registrations_def hm_get_def)

subsection \<open>Direct messages\<close>

text \<open>
  A direct message is offered to the channel the recipient is registered with, exactly once,
  and to no other channel; whether or not the recipient is online, exactly one task is spawned to
  persist it when the sender waits for an acknowledgement. The project of sender and recipient
  plays no role.
\<close>

theorem direct_message_routing:
  assumes "router_inv self"
  shows "\<exists>es. router_step self (env, RouterMessage.SendDirectMessage conv from to content mid respond_to)
        = Inr (self, es) \<and>
    (\<forall>s. offered s es =
       (if hm_get (users self) to = Some s then [DirectMessage from content mid (now_message env)] else [])) \<and>
    [t. Spawn t \<leftarrow> es] =
       (case respond_to of
          None \<Rightarrow> []
        | Some c \<Rightarrow> [PersistDirectMessage conv from to content mid (now_persist env) c]) \<and>
    (\<forall>c. replies c es = []) \<and> (\<forall>r. room_mail r es = [])"
  using assms
  by (auto simp: router_handle_direct_message_def router_inv_def split: option.splits)

theorem direct_message_routing_witness:
  "\<exists>es. router_step example_router (example_env,
        RouterMessage.SendDirectMessage ''c'' (tenant_new ''q'' ''eve'') (tenant_new ''p'' ''bob'') ''hi'' 9 (Some 3))
        = Inr (example_router, es) \<and> offered 2 es = [DirectMessage (tenant_new ''q'' ''eve'') ''hi'' 9 2]"
  using direct_message_routing [OF example_router_inv, of example_env "''c''" "tenant_new ''q'' ''eve''"
      "tenant_new ''p'' ''bob''" "''hi''" 9 "Some 3"]
  by (auto simp: example_router_def example_env_def hm_get_def)

text \<open>
  The sender of a direct message gets exactly one acknowledgement once the spawned task has
  run: it carries the server's message id, and its status is \<^verbatim>\<open>Persisted\<close> exactly when the
  persistence call succeeded and \<^verbatim>\<open>Failed\<close> with the call's error otherwise. Delivery to the
  recipient does not depend on that outcome.
\<close>

theorem direct_message_acked_once:
  assumes "router_inv self"
    and "router_step self (env, RouterMessage.SendDirectMessage conv from to content mid (Some c))
          = Inr (self', es)"
  shows "[t. Spawn t \<leftarrow> es] = [PersistDirectMessage conv from to content mid (now_persist env) c] \<and>
    replies c (es @ dm_persist_task outcome now mid c) =
      [AckReply \<lparr>MessageAckResponse.message_id = mid, timestamp = now,
         status = (case outcome of Inr _ \<Rightarrow> Persisted | Inl e \<Rightarrow> Failed e)\<rparr>] \<and>
    (\<forall>s. offered s (es @ dm_persist_task outcome now mid c) = offered s es)"
proof -
  obtain p where "persistence self = Some p" using assms(1) by (auto simp: router_inv_def)
  then show ?thesis
    using assms(2)
    by (cases outcome)
       (auto simp: router_handle_direct_message_def dm_persist_task_def split: option.splits)
qed

theorem direct_message_acked_once_witness:
  "\<exists>self' es. router_step example_router (example_env,
        RouterMessage.SendDirectMessage ''c'' (tenant_new ''p'' ''ann'') (tenant_new ''p'' ''bob'') ''hi'' 9 (Some 3))
        = Inr (self', es) \<and>
     replies 3 (es @ dm_persist_task (Inl ''down'') 8 9 3) =
       [AckReply \<lparr>MessageAckResponse.message_id = 9, timestamp = 8, status = Failed ''down''\<rparr>]"
proof -
  let ?i = "(example_env, RouterMessage.SendDirectMessage ''c'' (tenant_new ''p'' ''ann'')
     (tenant_new ''p'' ''bob'') ''hi'' 9 (Some 3))"
  obtain self' es where r: "router_step example_router ?i = Inr (self', es)"
    using router_step_ok [OF example_router_inv] by blast
  show ?thesis
    using r direct_message_acked_once [OF example_router_inv r, of "Inl ''down''" 8] by auto
qed

subsection \<open>Rooms\<close>

text \<open>The messages for one room, as the room's actor should see them.\<close>

fun room_view :: "string \<Rightarrow> RouterEnv \<times> RouterMessage \<Rightarrow> RoomMessage list" where
  "room_view rid (env, RouterMessage.JoinRoom u rid' s c) =
     (if rid' = rid then [AddMember u s (new_oneshot env)] else [])"
| "room_view rid (env, RouterMessage.LeaveRoom u rid') = (if rid' = rid then [RemoveMember u] else [])"
| "room_view rid (env, SendRoomMessage rid' from content mid c) =
     (if rid' = rid then [SendMessage from content mid c] else [])"
| "room_view rid (env, GetRoomMembers rid' c) =
     (if rid' = rid then [GetMembers (new_oneshot env)] else [])"
| "room_view rid (env, _) = []"

text \<open>\<open>r\<close> is the channel of room \<open>rid\<close>, and of no other room.\<close>

definition owns_room :: "MessageRouter \<Rightarrow> string \<Rightarrow> room_sender \<Rightarrow> bool" where
  "owns_room self rid r \<longleftrightarrow>
     (\<forall>rid'. hm_get (rooms self) rid' = Some r \<longleftrightarrow> rid' = rid)"

lemma owns_roomD: "owns_room self rid r \<Longrightarrow> hm_get (rooms self) rid' = Some r \<longleftrightarrow> rid' = rid"
  by (simp add: owns_room_def)

lemma owns_room_insert:
  assumes "owns_room self rid r" and "rid' \<noteq> rid" and "new \<noteq> r"
  shows "owns_room (self\<lparr>rooms := hm_insert (rooms self) rid' new\<rparr>) rid r"
  unfolding owns_room_def using assms(2,3) owns_roomD [OF assms(1)] by simp

lemma owns_room_cases:
  assumes "owns_room self rid r"
  obtains "hm_get (rooms self) rid' = None" "rid' \<noteq> rid"
    | r' where "hm_get (rooms self) rid' = Some r'" "r' = r \<longleftrightarrow> rid' = rid"
  using owns_roomD [OF assms, of rid'] by (cases "hm_get (rooms self) rid'") auto

lemma owns_room_users [simp]:
  "owns_room (self\<lparr>users := x, online_users := y\<rparr>) rid r = owns_room self rid r"
  by (simp add: owns_room_def)

lemma join_room_mail:
  assumes "owns_room self rid r" and "handle_join_room env self u rid' s c = Inr (self', es)"
    and "new_room env \<noteq> r" and "room_open env r"
  shows "room_mail r es = (if rid' = rid then [AddMember u s (new_oneshot env)] else []) \<and>
    owns_room self' rid r"
proof (cases rule: owns_room_cases [OF assms(1), of rid'])
  case 1
  then show ?thesis
    using assms
    by (cases "persistence self"; cases "room_open env (new_room env)")
       (auto simp: handle_join_room_def owns_room_insert)
next
  case (2 r')
  then show ?thesis
    using assms by (cases "room_open env r'") (auto simp: handle_join_room_def)
qed

lemma router_step_room_mail:
  assumes "owns_room self rid r" and "router_step self (env, m) = Inr (self', es)"
    and "new_room env \<noteq> r" and "room_open env r"
  shows "room_mail r es = room_view rid (env, m) \<and> owns_room self' rid r"
proof (cases m)
  case (RegisterUser u s c)
  then show ?thesis using assms by (auto simp: handle_register_user_def split: if_splits)
next
  case (UnregisterUser u)
  then show ?thesis using assms by (auto simp: handle_unregister_user_def)
next
  case (JoinRoom u rid' s c)
  then show ?thesis using join_room_mail [OF assms(1) _ assms(3,4)] assms(2) by simp
next
  case (LeaveRoom u rid')
  then show ?thesis
    using assms
    by (cases rule: owns_room_cases [OF assms(1), of rid']) (auto simp: handle_leave_room_def)
next
  case (SendRoomMessage rid' f x mid c)
  then show ?thesis
    using assms
    by (cases rule: owns_room_cases [OF assms(1), of rid'])
       (auto simp: router_handle_room_message_def split: option.splits)
next
  case (GetRoomMembers rid' c)
  then show ?thesis
    using assms
    by (cases rule: owns_room_cases [OF assms(1), of rid']) (auto simp: handle_get_room_members_def)
qed (use assms in \<open>auto simp: router_defs split: option.splits\<close>)

text \<open>
  Each room's actor gets the joins, leaves, messages and membership queries for its room, all
  of them, none of another room's, and in the order the router received them; the room keeps its
  actor for as long as the router runs.
\<close>

theorem router_room_mail_in_order:
  assumes "router_inv self" and "owns_room self rid r"
    and "\<forall>(env, m) \<in> set inputs. new_room env \<noteq> r \<and> room_open env r"
  shows "\<exists>self' es. router_run self inputs = Inr (self', es) \<and>
    room_mail r es = concat (map (room_view rid) inputs) \<and> owns_room self' rid r"
  using assms
proof (induction inputs arbitrary: self)
  case Nil
  then show ?case by (simp add: router_run_def)
next
  case (Cons i inputs)
  obtain env m where i: "i = (env, m)" by (cases i)
  obtain self1 es1 where 1: "router_step self (env, m) = Inr (self1, es1)" "router_inv self1"
    using router_step_ok [OF Cons.prems(1)] by blast
  have 2: "room_mail r es1 = room_view rid (env, m)" "owns_room self1 rid r"
    using router_step_room_mail [OF Cons.prems(2) 1(1)] Cons.prems(3) by (auto simp: i)
  obtain self2 es2 where "router_run self1 inputs = Inr (self2, es2)"
      "room_mail r es2 = concat (map (room_view rid) inputs)" "owns_room self2 rid r"
    using Cons.IH [OF 1(2) 2(2)] Cons.prems(3) by auto
  with 1(1) 2(1) show ?case by (simp add: i router_run_def)
qed

theorem router_room_mail_in_order_witness:
  "\<exists>self' es. router_run example_router
      [(example_env, RouterMessage.JoinRoom (tenant_new ''p'' ''ann'') ''lobby'' 1 5),
       (example_env, RouterMessage.JoinRoom (tenant_new ''p'' ''bob'') ''other'' 2 6),
       (example_env, SendRoomMessage ''lobby'' (tenant_new ''p'' ''ann'') ''hi'' 9 None)] = Inr (self', es) \<and>
     room_mail 40 es =
       [AddMember (tenant_new ''p'' ''ann'') 1 60, SendMessage (tenant_new ''p'' ''ann'') ''hi'' 9 None]"
proof -
  have own: "owns_room example_router ''lobby'' 40"
    by (simp add: owns_room_def example_router_def hm_get_def)
  show ?thesis
    using router_room_mail_in_order [OF example_router_inv own, of
      "[(example_env, RouterMessage.JoinRoom (tenant_new ''p'' ''ann'') ''lobby'' 1 5),
        (example_env, RouterMessage.JoinRoom (tenant_new ''p'' ''bob'') ''other'' 2 6),
        (example_env, SendRoomMessage ''lobby'' (tenant_new ''p'' ''ann'') ''hi'' 9 None)]"]
    by (simp add: example_env_def) blast
qed

text \<open>
  A join of an unknown room creates exactly one actor for it, with an empty member table and
  the router's persistence service, and the join is the first message that actor gets; a join of a
  known room creates none.
\<close>

theorem join_room_creates_once:
  assumes "router_inv self"
    and "router_step self (env, RouterMessage.JoinRoom u rid s c) = Inr (self', es)"
    and "\<forall>rid'. hm_get (rooms self) rid' \<noteq> Some (new_room env)" and "room_open env (new_room env)"
  shows "[(r, rid', p). Spawn (RunRoom r rid' p) \<leftarrow> es] =
      (case hm_get (rooms self) rid of
         None \<Rightarrow> [(new_room env, rid, the (persistence self))]
       | Some r \<Rightarrow> []) \<and>
    (hm_get (rooms self) rid = None \<longrightarrow>
       owns_room self' rid (new_room env) \<and> room_mail (new_room env) es = [AddMember u s (new_oneshot env)])"
proof (cases "hm_get (rooms self) rid")
  case None
  obtain p where "persistence self = Some p" using assms(1) by (auto simp: router_inv_def)
  then show ?thesis using assms(2-4) None by (auto simp: handle_join_room_def owns_room_def split: if_splits)
next
  case (Some r)
  then show ?thesis using assms(2) by (cases "room_open env r") (auto simp: handle_join_room_def)
qed

theorem join_room_creates_once_witness:
  "\<exists>self' es. router_step example_router
      (example_env, RouterMessage.JoinRoom (tenant_new ''p'' ''bob'') ''other'' 2 6) = Inr (self', es) \<and>
     [(r, rid', p). Spawn (RunRoom r rid' p) \<leftarrow> es] = [(50, ''other'', 0)] \<and>
     room_mail 50 es = [AddMember (tenant_new ''p'' ''bob'') 2 60]"
proof -
  let ?i = "(example_env, RouterMessage.JoinRoom (tenant_new ''p'' ''bob'') ''other'' 2 6)"
  obtain self' es where r: "router_step example_router ?i = Inr (self', es)"
    using router_step_ok [OF example_router_inv] by blast
  have new: "\<forall>rid'. hm_get (rooms example_router) rid' \<noteq> Some (new_room example_env)"
    by (simp add: example_router_def example_env_def hm_get_def)
  have "room_open example_env (new_room example_env)" by (simp add: example_env_def)
  note join_room_creates_once [OF example_router_inv r new this]
  moreover have "hm_get (rooms example_router) ''other'' = None" "persistence example_router = Some 0"
      "new_room example_env = 50" "new_oneshot example_env = 60"
    by (simp_all add: example_router_def example_env_def hm_get_def)
  ultimately show ?thesis using r by (intro exI [of _ self'] exI [of _ es]) simp
qed

text \<open>
  A message to a room nobody has joined is acknowledged once, as failed, and goes nowhere.
\<close>

theorem room_message_unknown_room:
  assumes "hm_get (rooms self) rid = None"
  shows "router_step self (env, SendRoomMessage rid from content mid (Some c)) =
    Inr (self, [Respond c (AckReply \<lparr>MessageAckResponse.message_id = mid,
       timestamp = now_message env, status = Failed ''Room not found''\<rparr>)])"
  using assms by (simp add: router_handle_room_message_def)

theorem room_message_unknown_room_witness:
  "router_step example_router (example_env, SendRoomMessage ''x'' (tenant_new ''p'' ''ann'') ''hi'' 9 (Some 3)) =
    Inr (example_router, [Respond 3 (AckReply \<lparr>MessageAckResponse.message_id = 9,
       timestamp = 2, status = Failed ''Room not found''\<rparr>)])"
  using room_message_unknown_room [of example_router "''x''" example_env "tenant_new ''p'' ''ann''" "''hi''" 9 3]
  by (simp add: example_router_def example_env_def hm_get_def)

end
