(* ===== verification/User_Session.thy ===== *)
theory User_Session
  imports Message_Router
begin

text \<open>
  \<^verbatim>\<open>peroxo/src/actors/user_session\<close> and \<^verbatim>\<open>connection_manager.rs\<close>: the life of one WebSocket
  connection. The receive task turns the client's frames into router messages, the send task
  writes what arrives on the session's and the acknowledgement channel to the socket.

  Not part of the sources and so arguments: serde's \<open>parse\<close> and \<open>to_json\<close>, the frames of the
  socket, and per frame a \<open>SessionEnv\<close> (is the router still receiving, the oneshot channel
  created, the value of \<^verbatim>\<open>Uuid::now_v1\<close>). The inputs of the receive task are the frames it handles
  before it ends or is aborted. Lines written with \<^verbatim>\<open>error!\<close> are effects, those of \<^verbatim>\<open>debug!\<close> and
  \<^verbatim>\<open>info!\<close> are left out.
\<close>

section \<open>Frames and effects\<close>

datatype WsFrame = Text string | Binary string | Ping string | Pong string | Close

record SessionEnv =
  router_open :: bool
  new_reply :: oneshot
  now_v1 :: uuid

text \<open>
  \<open>AwaitAck c i\<close>, \<open>AwaitHistory c\<close> and \<open>AwaitSync c\<close> are the tasks a handler spawns to await the
  answer on the oneshot channel \<open>c\<close>.
\<close>

datatype SessionEffect =
    SendRouter RouterMessage
  | AwaitAck oneshot uuid
  | AwaitHistory oneshot
  | AwaitSync oneshot
  | CountReceived
  | GaugeInc
  | GaugeDec
  | LogError string

section \<open>Handlers of client messages\<close>

definition session_handle_direct_message ::
  "SessionEnv \<Rightarrow> string \<Rightarrow> TenantUserId \<Rightarrow> TenantUserId \<Rightarrow> string \<Rightarrow> uuid \<Rightarrow>
   SessionEffect list \<times> (string, unit) result" where
  "session_handle_direct_message env conv user_token to content client_message_id =
     (if router_open env
      then ([CountReceived,
             SendRouter (RouterMessage.SendDirectMessage conv user_token to content (now_v1 env)
               (Some (new_reply env))),
             AwaitAck (new_reply env) client_message_id], Inr ())
      else ([CountReceived, LogError (''Failed to send message to router for user '' @ tenant_display user_token)],
            Inl ''Router communication failed''))"

definition session_handle_room_message ::
  "SessionEnv \<Rightarrow> TenantUserId \<Rightarrow> string \<Rightarrow> TenantUserId \<Rightarrow> string \<Rightarrow> uuid \<Rightarrow>
   SessionEffect list \<times> (string, unit) result" where
  "session_handle_room_message env uid rid from content client_message_id =
     (if from \<noteq> uid then ([], Inl ''User ID mismatch'')
      else if router_open env
      then ([SendRouter (SendRoomMessage rid from content (now_v1 env) (Some (new_reply env))),
             AwaitAck (new_reply env) client_message_id], Inr ())
      else ([], Inl ''Failed to send to router''))"

definition log_failure :: "string \<Rightarrow> SessionEffect list \<times> (string, unit) result \<Rightarrow> SessionEffect list" where
  "log_failure what r =
     (case r of
        (es, Inr _) \<Rightarrow> es
      | (es, Inl e) \<Rightarrow> es @ [LogError (what @ e)])"

text \<open>The body of the receive loop for one text frame (\<^verbatim>\<open>session.rs\<close>, lines 129 to 269).\<close>

definition handle_text ::
  "(string \<Rightarrow> (string, ChatMessage) result) \<Rightarrow> TenantUserId \<Rightarrow> session_sender \<Rightarrow> SessionEnv \<Rightarrow> string \<Rightarrow>
   SessionEffect list" where
  "handle_text parse uid session_sender env text =
     (case parse text of
        Inl e \<Rightarrow> [LogError (''Failed to parse message from '' @ tenant_display uid @ '': '' @ e)]
      | Inr (ChatMessage.SendDirectMessage conv to content client_message_id) \<Rightarrow>
          log_failure ''Failed to handle direct message: ''
            (session_handle_direct_message env conv uid to content client_message_id)
      | Inr (ChatMessage.GetPaginatedMessages pid mid conv) \<Rightarrow>
          (if router_open env
           then [SendRouter (RouterMessage.GetPaginatedMessages pid mid conv (new_reply env)),
                 AwaitHistory (new_reply env)]
           else [LogError ''Failed to send chat history request to router''])
      | Inr (ChatMessage.RoomMessage rid from content mid) \<Rightarrow>
          log_failure ''Failed to handle room message: ''
            (session_handle_room_message env uid rid from content mid)
      | Inr (ChatMessage.JoinRoom rid) \<Rightarrow>
          (if router_open env
           then [SendRouter (RouterMessage.JoinRoom uid rid session_sender (new_reply env))]
           else [LogError ''Failed to send join room request to router''])
      | Inr (ChatMessage.SyncMessages pid conv mid) \<Rightarrow>
          (if router_open env
           then [SendRouter (RouterMessage.SyncMessages pid conv mid (new_reply env)),
                 AwaitSync (new_reply env)]
           else [LogError ''Failed to send sync messages request to router''])
      | Inr _ \<Rightarrow> [])"

section \<open>The two tasks of a session\<close>

fun recv_task ::
  "(string \<Rightarrow> (string, ChatMessage) result) \<Rightarrow> TenantUserId \<Rightarrow> session_sender \<Rightarrow>
   (SessionEnv \<times> (string, WsFrame) result) list \<Rightarrow> SessionEffect list" where
  "recv_task parse uid session_sender [] = []"
| "recv_task parse uid session_sender ((env, item) # items) =
     (case item of
        Inr (Text text) \<Rightarrow>
          handle_text parse uid session_sender env text @ recv_task parse uid session_sender items
      | _ \<Rightarrow> [])"

text \<open>
  What the send task reads: a message of the session channel or of the acknowledgement channel,
  or the end of one of them, with the result of the socket write it leads to.
\<close>

datatype SendInput = FromSession "ChatMessage option" | FromAck "ChatMessage option"

datatype SendEffect = WsSend string | CountSent | SerializeFailed string

fun send_task ::
  "(ChatMessage \<Rightarrow> (string, string) result) \<Rightarrow> (SendInput \<times> bool) list \<Rightarrow> SendEffect list" where
  "send_task to_json [] = []"
| "send_task to_json ((FromSession None, ok) # inputs) = []"
| "send_task to_json ((FromSession (Some msg), ok) # inputs) =
     (case to_json msg of
        Inr json \<Rightarrow> if ok then WsSend json # CountSent # send_task to_json inputs else []
      | Inl e \<Rightarrow> SerializeFailed e # send_task to_json inputs)"
| "send_task to_json ((FromAck None, ok) # inputs) = []"
| "send_task to_json ((FromAck (Some msg), ok) # inputs) =
     (case to_json msg of
        Inr json \<Rightarrow> if ok then WsSend json # send_task to_json inputs else []
      | Inl e \<Rightarrow> SerializeFailed e # send_task to_json inputs)"

text \<open>The spawned tasks: the message each puts on the acknowledgement channel, if any.\<close>

definition ack_task :: "uuid \<Rightarrow> MessageAckResponse option \<Rightarrow> ChatMessage option" where
  "ack_task client_message_id response =
     map_option (\<lambda>r. MessageAck client_message_id (MessageAckResponse.message_id r)
       (timestamp r) (status r)) response"

definition history_task ::
  "UuidOps \<Rightarrow> (string, PaginatedMessagesResponse) result option \<Rightarrow> ChatMessage option" where
  "history_task u response =
     (case response of
        Some (Inr p) \<Rightarrow>
          Some (ChatHistoryResponse (messages p) (has_more p) (Option.bind (next_cursor p) (parse_str u)))
      | Some (Inl e) \<Rightarrow> None
      | None \<Rightarrow> None)"

definition sync_task :: "(string, ResponseDirectMessage list) result option \<Rightarrow> ChatMessage option" where
  "sync_task response =
     (case response of
        Some (Inr ms) \<Rightarrow> Some (SyncMessagesResponse ms)
      | Some (Inl e) \<Rightarrow> None
      | None \<Rightarrow> None)"

section \<open>A whole connection\<close>

text \<open>
  \<^verbatim>\<open>UserSession::new\<close>: register with the router and await its answer, \<open>response\<close>
  (\<^const>\<open>None\<close>: the router dropped the oneshot sender).
\<close>

definition session_new ::
  "TenantUserId \<Rightarrow> session_sender \<Rightarrow> oneshot \<Rightarrow> bool \<Rightarrow> (string, unit) result option \<Rightarrow>
   SessionEffect list \<times> (string, unit) result" where
  "session_new uid sender c is_open response =
     (if \<not> is_open then ([], Inl ''Failed to communicate with message router'')
      else ([SendRouter (RegisterUser uid sender c)],
            case response of
              Some (Inr _) \<Rightarrow> Inr ()
            | Some (Inl e) \<Rightarrow> Inl e
            | None \<Rightarrow> Inl ''Router response channel closed''))"

definition session_run ::
  "(string \<Rightarrow> (string, ChatMessage) result) \<Rightarrow> TenantUserId \<Rightarrow> session_sender \<Rightarrow>
   (SessionEnv \<times> (string, WsFrame) result) list \<Rightarrow> SessionEffect list" where
  "session_run parse uid session_sender items =
     recv_task parse uid session_sender items @ [SendRouter (UnregisterUser uid), GaugeDec]"

definition handle_connection ::
  "(string \<Rightarrow> (string, ChatMessage) result) \<Rightarrow> TenantUserId \<Rightarrow> session_sender \<Rightarrow> oneshot \<Rightarrow> bool \<Rightarrow>
   (string, unit) result option \<Rightarrow> (SessionEnv \<times> (string, WsFrame) result) list \<Rightarrow> SessionEffect list" where
  "handle_connection parse uid sender c is_open response items =
     (case session_new uid sender c is_open response of
        (es, Inr _) \<Rightarrow> es @ [GaugeInc] @ session_run parse uid sender items
      | (es, Inl e) \<Rightarrow> es @ [LogError (''Failed to create session for '' @ tenant_display uid @ '': '' @ e)])"

lemmas session_defs = session_handle_direct_message_def session_handle_room_message_def
  log_failure_def handle_text_def

section \<open>Properties\<close>

fun routed :: "SessionEffect list \<Rightarrow> RouterMessage list" where
  "routed [] = []"
| "routed (SendRouter m # es) = m # routed es"
| "routed (_ # es) = routed es"

lemma routed_append [simp]: "routed (es @ es') = routed es @ routed es'"
  by (induction es rule: routed.induct) auto

text \<open>
  \<open>acts_for uid s m\<close>: the message \<open>m\<close> speaks for the user \<open>uid\<close> and, where it hands over a
  channel, for the channel \<open>s\<close>.
\<close>

fun acts_for :: "TenantUserId \<Rightarrow> session_sender \<Rightarrow> RouterMessage \<Rightarrow> bool" where
  "acts_for uid s (RegisterUser u s' c) \<longleftrightarrow> u = uid \<and> s' = s"
| "acts_for uid s (UnregisterUser u) \<longleftrightarrow> u = uid"
| "acts_for uid s (RouterMessage.SendDirectMessage conv from to content mid c) \<longleftrightarrow> from = uid"
| "acts_for uid s (RouterMessage.JoinRoom u rid s' c) \<longleftrightarrow> u = uid \<and> s' = s"
| "acts_for uid s (RouterMessage.LeaveRoom u rid) \<longleftrightarrow> u = uid"
| "acts_for uid s (SendRoomMessage rid from content mid c) \<longleftrightarrow> from = uid"
| "acts_for uid s _ \<longleftrightarrow> True"

lemma handle_text_routed:
  "m \<in> set (routed (handle_text parse uid s env t)) \<Longrightarrow>
   acts_for uid s m \<and>
   (\<forall>u rid. m \<noteq> RouterMessage.LeaveRoom u rid) \<and> (\<forall>u. m \<noteq> UnregisterUser u) \<and>
   (\<forall>u s c. m \<noteq> RegisterUser u s c)"
  by (auto simp: session_defs split: sum.splits ChatMessage.splits if_splits)

lemma recv_task_routed:
  "m \<in> set (routed (recv_task parse uid s items)) \<Longrightarrow>
   acts_for uid s m \<and>
   (\<forall>u rid. m \<noteq> RouterMessage.LeaveRoom u rid) \<and> (\<forall>u. m \<noteq> UnregisterUser u) \<and>
   (\<forall>u s c. m \<noteq> RegisterUser u s c)"
  by (induction parse uid s items rule: recv_task.induct)
     (auto split: sum.splits WsFrame.splits dest: handle_text_routed)

lemma recv_task_no_lifecycle [simp]:
  "RegisterUser u s' c \<notin> set (routed (recv_task parse uid s items))"
  "UnregisterUser u \<notin> set (routed (recv_task parse uid s items))"
  "RouterMessage.LeaveRoom u rid \<notin> set (routed (recv_task parse uid s items))"
  by (meson recv_task_routed)+

lemma connection_acts_for:
  "m \<in> set (routed (handle_connection parse uid s c is_open response items)) \<Longrightarrow> acts_for uid s m"
  by (auto simp: handle_connection_def session_new_def session_run_def
      split: option.splits sum.splits if_splits dest: recv_task_routed)

text \<open>
  No connection can act for another user: every router message a connection causes, from its
  registration to its removal, speaks for the user the connection was authenticated as and hands
  over no channel but its own, whatever frames the client sends.
\<close>

theorem session_speaks_for_itself:
  "\<forall>m \<in> set (routed (handle_connection parse uid s c is_open response items)). acts_for uid s m"
  using connection_acts_for by blast

text \<open>A parser for examples: it knows the texts of a table.\<close>

definition table_parse :: "(string \<times> ChatMessage) list \<Rightarrow> string \<Rightarrow> (string, ChatMessage) result" where
  "table_parse tab t = (case map_of tab t of None \<Rightarrow> Inl ''unknown'' | Some m \<Rightarrow> Inr m)"

definition example_session_env :: SessionEnv where
  "example_session_env = \<lparr>router_open = True, new_reply = 70, now_v1 = 80\<rparr>"

theorem session_speaks_for_itself_witness:
  "list_all (acts_for (tenant_new ''p'' ''ann'') 1) (routed (handle_connection
      (table_parse [(''t'', ChatMessage.RoomMessage ''lobby'' (tenant_new ''p'' ''bob'') ''x'' 1)])
      (tenant_new ''p'' ''ann'') 1 5 True (Some (Inr ())) [(example_session_env, Inr (Text ''t''))]))"
  unfolding list_all_iff by (rule session_speaks_for_itself)

text \<open>
  A connection the router accepts sends the registration first and its removal last, and
  neither of them in between; a connection that is refused sends nothing after the registration.
  The gauge of active connections is raised once and lowered once for an accepted connection and
  is not touched for a refused one.
\<close>

theorem session_lifecycle:
  "routed (handle_connection parse uid s c True response items) =
     RegisterUser uid s c #
     (if response = Some (Inr ())
      then routed (recv_task parse uid s items) @ [UnregisterUser uid] else []) \<and>
   (\<forall>u s' c'. RegisterUser u s' c' \<notin> set (routed (recv_task parse uid s items))) \<and>
   (\<forall>u. UnregisterUser u \<notin> set (routed (recv_task parse uid s items))) \<and>
   filter (\<lambda>e. e = GaugeInc \<or> e = GaugeDec) (handle_connection parse uid s c True response items) =
     (if response = Some (Inr ()) then [GaugeInc, GaugeDec] else [])"
proof -
  have gauge: "filter (\<lambda>e. e = GaugeInc \<or> e = GaugeDec) (recv_task parse uid s items) = []"
    by (induction parse uid s items rule: recv_task.induct)
       (auto simp: session_defs split: sum.splits WsFrame.splits ChatMessage.splits if_splits)
  show ?thesis
    using gauge by (auto simp: handle_connection_def session_new_def session_run_def
        split: option.splits sum.splits)
qed

text \<open>
  Message ids are the server's: every direct or room message a client frame leads to carries
  the id generated for that frame, together with the reply channel created for it, whatever id the
  client wrote; the acknowledgement then echoes the client's id beside the server's.
\<close>

theorem session_assigns_message_ids:
  "(\<forall>conv from to content mid c.
      RouterMessage.SendDirectMessage conv from to content mid c \<in> set (routed (handle_text parse uid s env t)) \<longrightarrow>
      mid = now_v1 env \<and> c = Some (new_reply env) \<and>
      (\<exists>cid. parse t = Inr (ChatMessage.SendDirectMessage conv to content cid) \<and>
         AwaitAck (new_reply env) cid \<in> set (handle_text parse uid s env t) \<and>
         ack_task cid (Some r) = Some (MessageAck cid (MessageAckResponse.message_id r) (timestamp r) (status r)))) \<and>
   (\<forall>rid from content mid c.
      SendRoomMessage rid from content mid c \<in> set (routed (handle_text parse uid s env t)) \<longrightarrow>
      mid = now_v1 env \<and> c = Some (new_reply env))"
  by (auto simp: session_defs ack_task_def split: sum.splits ChatMessage.splits if_splits)

theorem session_assigns_message_ids_witness:
  "RouterMessage.SendDirectMessage ''c'' (tenant_new ''p'' ''ann'') (tenant_new ''p'' ''bob'') ''hi'' 80 (Some 70)
     \<in> set (routed (handle_text
         (table_parse [(''t'', ChatMessage.SendDirectMessage ''c'' (tenant_new ''p'' ''bob'') ''hi'' 3)])
         (tenant_new ''p'' ''ann'') 1 example_session_env ''t'')) \<and>
   (80 :: uuid) = now_v1 example_session_env"
proof -
  let ?parse = "table_parse [(''t'', ChatMessage.SendDirectMessage ''c'' (tenant_new ''p'' ''bob'') ''hi'' 3)]"
  have "RouterMessage.SendDirectMessage ''c'' (tenant_new ''p'' ''ann'') (tenant_new ''p'' ''bob'') ''hi'' 80 (Some 70)
     \<in> set (routed (handle_text ?parse (tenant_new ''p'' ''ann'') 1 example_session_env ''t''))"
    by (simp add: session_defs table_parse_def example_session_env_def)
  then show ?thesis
    using session_assigns_message_ids [of ?parse "tenant_new ''p'' ''ann''" 1 example_session_env "''t''"] by blast
qed

definition is_text :: "SessionEnv \<times> (string, WsFrame) result \<Rightarrow> bool" where
  "is_text i = (case snd i of Inr (Text t) \<Rightarrow> True | _ \<Rightarrow> False)"

text \<open>
  The receive task handles the longest prefix of text frames and nothing after it: the first
  frame that is not text, a ping or a pong as well as a close or an error, ends the session.
\<close>

theorem recv_task_text_prefix:
  "recv_task parse uid s items =
     concat (map (\<lambda>(env, i). case i of Inr (Text t) \<Rightarrow> handle_text parse uid s env t | _ \<Rightarrow> [])
       (takeWhile is_text items))"
  by (induction parse uid s items rule: recv_task.induct)
     (auto simp: is_text_def split: sum.splits WsFrame.splits)

text \<open>
  A client cannot leave a room: no frame, whatever it holds, makes the session send a
  \<^verbatim>\<open>LeaveRoom\<close> to the router; a frame with the client's \<^verbatim>\<open>LeaveRoom\<close> has no effect at all.
\<close>

theorem client_leave_room_ignored:
  "(\<forall>u rid. RouterMessage.LeaveRoom u rid \<notin>
      set (routed (handle_connection parse uid s c is_open response items))) \<and>
   (\<forall>t rid. parse t = Inr (ChatMessage.LeaveRoom rid) \<longrightarrow> handle_text parse uid s env t = [])"
  by (auto simp: handle_connection_def session_new_def session_run_def handle_text_def
      split: option.splits sum.splits if_splits)

theorem client_leave_room_ignored_witness:
  "handle_text (table_parse [(''t'', ChatMessage.LeaveRoom ''lobby'')]) (tenant_new ''p'' ''ann'') 1
     example_session_env ''t'' = []"
  using client_leave_room_ignored [of "table_parse [(''t'', ChatMessage.LeaveRoom ''lobby'')]"]
  by (simp add: table_parse_def)

text \<open>
  Requests for history and for missed messages name their project themselves: a client of any
  project gets a request for any other project and conversation sent to the router.
\<close>

theorem history_request_project_unchecked:
  assumes "router_open env"
  shows "(parse t = Inr (ChatMessage.GetPaginatedMessages pid mid conv) \<longrightarrow>
      routed (handle_text parse uid s env t) =
        [RouterMessage.GetPaginatedMessages pid mid conv (new_reply env)]) \<and>
    (parse t = Inr (ChatMessage.SyncMessages pid conv mid') \<longrightarrow>
      routed (handle_text parse uid s env t) =
        [RouterMessage.SyncMessages pid conv mid' (new_reply env)])"
  using assms by (auto simp: handle_text_def)

theorem history_request_project_unchecked_witness:
  "routed (handle_text (table_parse [(''t'', ChatMessage.GetPaginatedMessages ''other'' None ''c'')])
     (tenant_new ''p'' ''ann'') 1 example_session_env ''t'') =
   [RouterMessage.GetPaginatedMessages ''other'' None ''c'' 70]"
  using history_request_project_unchecked [of example_session_env
      "table_parse [(''t'', ChatMessage.GetPaginatedMessages ''other'' None ''c'')]" "''t''" "''other''" None "''c''"
      "tenant_new ''p'' ''ann''" 1]
  by (simp add: table_parse_def example_session_env_def)

fun input_message :: "SendInput \<Rightarrow> ChatMessage option" where
  "input_message (FromSession m) = m"
| "input_message (FromAck m) = m"

text \<open>
  While the socket accepts writes and messages serialise, the send task writes every message
  it reads, from either channel, once and in order, and it counts exactly those of the session
  channel.
\<close>

theorem send_task_in_order:
  assumes "\<forall>(i, ok) \<in> set inputs. ok \<and> (\<exists>m. input_message i = Some m \<and> to_json m = Inr (json m))"
  shows "[t. WsSend t \<leftarrow> send_task to_json inputs] =
      map (\<lambda>(i, ok). json (the (input_message i))) inputs \<and>
    length (filter (\<lambda>e. e = CountSent) (send_task to_json inputs)) =
      length (filter (\<lambda>(i, ok). case i of FromSession _ \<Rightarrow> True | FromAck _ \<Rightarrow> False) inputs)"
  using assms by (induction to_json inputs rule: send_task.induct) auto

theorem send_task_in_order_witness:
  "[t. WsSend t \<leftarrow> send_task (\<lambda>_. Inr ''j'') [(FromAck (Some (ChatMessage.JoinRoom ''a'')), True),
       (FromSession (Some (ChatMessage.JoinRoom ''b'')), True)]] = [''j'', ''j''] \<and>
   length (filter (\<lambda>e. e = CountSent)
     (send_task (\<lambda>_. Inr ''j'') [(FromAck (Some (ChatMessage.JoinRoom ''a'')), True),
       (FromSession (Some (ChatMessage.JoinRoom ''b'')), True)])) = 1"
  using send_task_in_order [of "[(FromAck (Some (ChatMessage.JoinRoom ''a'')), True),
       (FromSession (Some (ChatMessage.JoinRoom ''b'')), True)]" "\<lambda>_. Inr ''j''" "\<lambda>_. ''j''"]
  by simp

end
