(* ===== verification/Gateway_System.thy ===== *)
theory Gateway_System
  imports User_Session
begin

text \<open>
  The actors of the gateway together: the sessions, the router with its mailbox, the room actors
  with theirs, and the spawned tasks, interleaved in any order the scheduler of tokio may choose.

  \<open>gateway_move\<close> is one step of the whole: it runs one turn of one task with the definitions of
  \<open>User_Session\<close>, \<open>Message_Router\<close> and \<open>Room_Actor\<close> and hands the effects to the channels. The label of
  the step, a \<open>Move\<close>, names the task and holds what the task obtains from outside. An unbounded
  channel is a list of the messages in flight. Messages to the router are kept with the session that
  sent them, and the ones it has handled are logged; both are ghost data no step depends on.

  Handles are unique: a step that creates a channel takes a handle that was never used.
  A session's channel holds 100 messages and \<^verbatim>\<open>try_send\<close> drops what does not fit; \<open>delivered\<close> is what was
  offered to it, so what a client can get is part of it.
\<close>

section \<open>State\<close>

text \<open>
  \<open>Registering c\<close>: \<^verbatim>\<open>UserSession::new\<close> awaits \<open>c\<close>. \<open>Refused\<close>: it returned an error. \<open>Active\<close>: in \<^verbatim>\<open>run\<close>.
  \<open>Closed\<close>: \<^verbatim>\<open>run\<close> has sent \<^verbatim>\<open>UnregisterUser\<close>.
\<close>

datatype Phase = Registering oneshot | Refused | Active | Closed

record SessionTask =
  session_user :: TenantUserId
  session_phase :: Phase

record GatewayState =
  hub :: MessageRouter
  mailbox :: "(session_sender \<times> RouterMessage) list"
  handled :: "(session_sender \<times> RouterMessage) list"
  sessions :: "session_sender \<rightharpoonup> SessionTask"
  room_tasks :: "room_sender \<rightharpoonup> RoomActor \<times> RoomMessage list"
  spawned :: "Task list"
  answers :: "oneshot \<rightharpoonup> Reply"
  delivered :: "(session_sender \<times> ChatMessage) list"
  used_oneshots :: "oneshot set"
  connections_active :: int

definition gateway_init :: "persistence_ref \<Rightarrow> GatewayState" where
  "gateway_init p =
     \<lparr>hub = router_new p, mailbox = [], handled = [], sessions = Map.empty, room_tasks = Map.empty,
      spawned = [], answers = Map.empty, delivered = [], used_oneshots = {}, connections_active = 0\<rparr>"

section \<open>Effects\<close>

text \<open>The room actors a list of effects starts, and the other tasks it spawns.\<close>

fun started :: "Effect list \<Rightarrow> room_sender \<rightharpoonup> RoomActor" where
  "started [] r = None"
| "started (Spawn (RunRoom r' rid p) # es) r = (if r' = r then Some (room_new rid p) else started es r)"
| "started (_ # es) r = started es r"

fun other_tasks :: "Effect list \<Rightarrow> Task list" where
  "other_tasks [] = []"
| "other_tasks (Spawn (RunRoom r rid p) # es) = other_tasks es"
| "other_tasks (Spawn t # es) = t # other_tasks es"
| "other_tasks (_ # es) = other_tasks es"

fun try_sends :: "Effect list \<Rightarrow> (session_sender \<times> ChatMessage) list" where
  "try_sends [] = []"
| "try_sends (TrySend s m # es) = (s, m) # try_sends es"
| "try_sends (_ # es) = try_sends es"

text \<open>A room's mailbox gets its mail, a oneshot channel its first value.\<close>

definition apply_effects :: "Effect list \<Rightarrow> GatewayState \<Rightarrow> GatewayState" where
  "apply_effects es g = g\<lparr>
     room_tasks := (\<lambda>r. case started es r of
         Some a \<Rightarrow> Some (a, room_mail r es)
       | None \<Rightarrow> map_option (\<lambda>(a, q). (a, q @ room_mail r es)) (room_tasks g r)),
     spawned := spawned g @ other_tasks es,
     answers := (\<lambda>c. case answers g c of
         Some v \<Rightarrow> Some v
       | None \<Rightarrow> (case replies c es of [] \<Rightarrow> None | v # _ \<Rightarrow> Some v)),
     delivered := delivered g @ try_sends es\<rparr>"

definition gauge_change :: "SessionEffect list \<Rightarrow> int" where
  "gauge_change es = int (length (filter (\<lambda>e. e = GaugeInc) es)) - int (length (filter (\<lambda>e. e = GaugeDec) es))"

text \<open>The effects of a session: its messages go to the mailbox, the gauge moves.\<close>

definition session_effects :: "session_sender \<Rightarrow> SessionEffect list \<Rightarrow> GatewayState \<Rightarrow> GatewayState" where
  "session_effects s es g = g\<lparr>
     mailbox := mailbox g @ map (Pair s) (routed es),
     connections_active := connections_active g + gauge_change es\<rparr>"

section \<open>Steps\<close>

text \<open>What a spawned task awaits: the outcome of a call of the persistence service.\<close>

datatype Outcome =
    Written "(string, unit) result" millis
  | PageRead "(string, PaginatedMessagesResponse) result"
  | SyncRead "(string, ResponseDirectMessage list) result"
  | Relayed

fun task_effects :: "(oneshot \<rightharpoonup> Reply) \<Rightarrow> Task \<Rightarrow> Outcome \<Rightarrow> Effect list option" where
  "task_effects ans (PersistDirectMessage conv from to content mid ts c) (Written res now) =
     Some (dm_persist_task res now mid c)"
| "task_effects ans (PersistRoomMessage rid from content mid ts c) (Written res now) =
     Some (room_persist_task res now mid c)"
| "task_effects ans (FetchPage pid mid conv c) (PageRead res) = Some (fetch_page_task res c)"
| "task_effects ans (FetchSync pid conv mid c) (SyncRead res) = Some (fetch_sync_task res c)"
| "task_effects ans (RelayJoin inner c) Relayed =
     (case ans inner of Some (UnitReply res) \<Rightarrow> Some (relay_join_task (Some res) c) | _ \<Rightarrow> None)"
| "task_effects ans (RelayMembers inner c) Relayed =
     (case ans inner of Some (UsersReply ms) \<Rightarrow> Some (relay_members_task (Some ms) c) | _ \<Rightarrow> None)"
| "task_effects ans _ _ = None"

text \<open>
  \<open>Connect\<close>: a new socket of an authenticated user. \<open>Route\<close>: one turn of the router. \<open>Answered\<close>: a session
  gets the answer to its registration. \<open>Frame\<close>: one text frame. \<open>Hangup\<close>: a session ends.
  \<open>RoomTurn\<close>, \<open>RoomTick\<close>: one turn of a room. \<open>Finish i\<close>: the spawned task number \<open>i\<close> ends.
\<close>

datatype Move =
    Connect TenantUserId session_sender oneshot
  | Route RouterEnv
  | Answered session_sender
  | Frame session_sender SessionEnv string
  | Hangup session_sender
  | RoomTurn room_sender millis
  | RoomTick room_sender "session_sender \<Rightarrow> bool"
  | Finish nat Outcome

definition set_phase :: "session_sender \<Rightarrow> SessionTask \<Rightarrow> Phase \<Rightarrow> GatewayState \<Rightarrow> GatewayState" where
  "set_phase s t ph g = g\<lparr>sessions := (sessions g)(s \<mapsto> t\<lparr>session_phase := ph\<rparr>)\<rparr>"

definition connect_move :: "TenantUserId \<Rightarrow> session_sender \<Rightarrow> oneshot \<Rightarrow> GatewayState \<Rightarrow> GatewayState option" where
  "connect_move uid s c g =
     (if sessions g s = None \<and> c \<notin> used_oneshots g
      then Some (session_effects s (fst (session_new uid s c True None))
        (g\<lparr>sessions := (sessions g)(s \<mapsto> \<lparr>session_user = uid, session_phase = Registering c\<rparr>),
           used_oneshots := insert c (used_oneshots g)\<rparr>))
      else None)"

definition route_move :: "RouterEnv \<Rightarrow> GatewayState \<Rightarrow> GatewayState option" where
  "route_move env g =
     (case mailbox g of
        [] \<Rightarrow> None
      | (o', m) # q \<Rightarrow>
          if room_tasks g (new_room env) = None \<and> new_oneshot env \<notin> used_oneshots g
          then (case router_step (hub g) (env, m) of
              Inl p \<Rightarrow> None
            | Inr (self, es) \<Rightarrow>
                Some (apply_effects es (g\<lparr>hub := self, mailbox := q, handled := handled g @ [(o', m)],
                  used_oneshots := insert (new_oneshot env) (used_oneshots g)\<rparr>)))
          else None)"

text \<open>
  \<^verbatim>\<open>ConnectionManager::handle_connection\<close> after the answer: the session runs, and the gauge goes up, or
  an error is logged.
\<close>

definition answered_move :: "session_sender \<Rightarrow> GatewayState \<Rightarrow> GatewayState option" where
  "answered_move s g =
     (case sessions g s of
        None \<Rightarrow> None
      | Some t \<Rightarrow>
          (case session_phase t of
             Registering c \<Rightarrow>
               (case answers g c of
                  Some (UnitReply res) \<Rightarrow>
                    (case snd (session_new (session_user t) s c True (Some res)) of
                       Inr _ \<Rightarrow> Some (session_effects s [GaugeInc] (set_phase s t Active g))
                     | Inl e \<Rightarrow> Some (set_phase s t Refused g))
                | _ \<Rightarrow> None)
           | _ \<Rightarrow> None))"

text \<open>
  A frame is also handled after the end of the session: \<^verbatim>\<open>abort\<close> takes effect at the next await of
  the receive task, which may still be inside a handler when \<^verbatim>\<open>UnregisterUser\<close> is sent.
\<close>

definition frame_move ::
  "(string \<Rightarrow> (string, ChatMessage) result) \<Rightarrow> session_sender \<Rightarrow> SessionEnv \<Rightarrow> string \<Rightarrow> GatewayState \<Rightarrow>
   GatewayState option" where
  "frame_move parse s env body g =
     (case sessions g s of
        None \<Rightarrow> None
      | Some t \<Rightarrow>
          if (session_phase t = Active \<or> session_phase t = Closed) \<and> new_reply env \<notin> used_oneshots g
          then Some (session_effects s (handle_text parse (session_user t) s env body)
            (g\<lparr>used_oneshots := insert (new_reply env) (used_oneshots g)\<rparr>))
          else None)"

definition hangup_move ::
  "(string \<Rightarrow> (string, ChatMessage) result) \<Rightarrow> session_sender \<Rightarrow> GatewayState \<Rightarrow> GatewayState option" where
  "hangup_move parse s g =
     (case sessions g s of
        None \<Rightarrow> None
      | Some t \<Rightarrow>
          if session_phase t = Active
          then Some (session_effects s (session_run parse (session_user t) s []) (set_phase s t Closed g))
          else None)"

definition room_move ::
  "((TenantUserId, session_sender) hash_map \<Rightarrow> (TenantUserId \<times> session_sender) list) \<Rightarrow>
   room_sender \<Rightarrow> RoomInput \<Rightarrow> RoomMessage list \<Rightarrow> RoomActor \<Rightarrow> GatewayState \<Rightarrow> GatewayState option" where
  "room_move iter r i q a g =
     (case room_step iter a i of
        Inl p \<Rightarrow> None
      | Inr (a', es) \<Rightarrow> Some (apply_effects es (g\<lparr>room_tasks := (room_tasks g)(r \<mapsto> (a', q))\<rparr>)))"

text \<open>The receiving end of a session's channel is gone at the latest when the session has ended.\<close>

definition ended :: "GatewayState \<Rightarrow> session_sender \<Rightarrow> bool" where
  "ended g s = (case sessions g s of
      None \<Rightarrow> False
    | Some t \<Rightarrow> session_phase t = Refused \<or> session_phase t = Closed)"

definition finish_move :: "nat \<Rightarrow> Outcome \<Rightarrow> GatewayState \<Rightarrow> GatewayState option" where
  "finish_move i res g =
     (if i < length (spawned g)
      then map_option (\<lambda>es. apply_effects es (g\<lparr>spawned := take i (spawned g) @ drop (Suc i) (spawned g)\<rparr>))
        (task_effects (answers g) (spawned g ! i) res)
      else None)"

fun gateway_move ::
  "(string \<Rightarrow> (string, ChatMessage) result) \<Rightarrow>
   ((TenantUserId, session_sender) hash_map \<Rightarrow> (TenantUserId \<times> session_sender) list) \<Rightarrow>
   GatewayState \<Rightarrow> Move \<Rightarrow> GatewayState option" where
  "gateway_move parse iter g (Connect uid s c) = connect_move uid s c g"
| "gateway_move parse iter g (Route env) = route_move env g"
| "gateway_move parse iter g (Answered s) = answered_move s g"
| "gateway_move parse iter g (Frame s env body) = frame_move parse s env body g"
| "gateway_move parse iter g (Hangup s) = hangup_move parse s g"
| "gateway_move parse iter g (RoomTurn r now) =
     (case room_tasks g r of
        Some (a, m # q) \<Rightarrow> room_move iter r (Recv now m) q a g
      | _ \<Rightarrow> None)"
| "gateway_move parse iter g (RoomTick r closed) =
     (case room_tasks g r of
        Some (a, q) \<Rightarrow> room_move iter r (CleanupTick (\<lambda>s. closed s \<or> ended g s)) q a g
      | None \<Rightarrow> None)"
| "gateway_move parse iter g (Finish i res) = finish_move i res g"

inductive reachable ::
  "(string \<Rightarrow> (string, ChatMessage) result) \<Rightarrow>
   ((TenantUserId, session_sender) hash_map \<Rightarrow> (TenantUserId \<times> session_sender) list) \<Rightarrow>
   GatewayState \<Rightarrow> bool" for parse iter where
  start: "reachable parse iter (gateway_init p)"
| move: "reachable parse iter g \<Longrightarrow> gateway_move parse iter g mv = Some g' \<Longrightarrow> reachable parse iter g'"

section \<open>What the effects of one turn can be\<close>

lemma router_try_sends:
  assumes "router_step self (env, m) = Inr (self', es)" and "(s, cm) \<in> set (try_sends es)"
  shows "\<exists>conv from to content mid c. m = RouterMessage.SendDirectMessage conv from to content mid c \<and>
    hm_get (users self) to = Some s \<and> cm = DirectMessage from content mid (now_message env)"
  using assms by (cases m) (auto simp: router_defs Let_def split: option.splits if_splits sum.splits)

lemma router_mail:
  assumes "router_step self (env, m) = Inr (self', es)" and "rm \<in> set (room_mail r es)"
  shows "\<exists>rid. hm_get (rooms self') rid = Some r \<and>
    ((\<exists>u s c. m = RouterMessage.JoinRoom u rid s c \<and> rm = AddMember u s (new_oneshot env)) \<or>
     (\<exists>u. m = RouterMessage.LeaveRoom u rid \<and> rm = RemoveMember u) \<or>
     (\<exists>from content mid c. m = SendRoomMessage rid from content mid c \<and> rm = SendMessage from content mid c) \<or>
     (\<exists>c. m = GetRoomMembers rid c \<and> rm = GetMembers (new_oneshot env)))"
  using assms by (cases m) (auto simp: router_defs Let_def split: option.splits if_splits sum.splits)

lemma router_started:
  assumes "router_step self (env, m) = Inr (self', es)" and "started es r = Some a"
  shows "r = new_room env \<and> (\<exists>u rid s c p. m = RouterMessage.JoinRoom u rid s c \<and> a = room_new rid p \<and>
    rooms self' = hm_insert (rooms self) rid r)"
  using assms by (cases m) (auto simp: router_defs Let_def split: option.splits if_splits sum.splits)

lemma router_rooms:
  assumes "router_step self (env, m) = Inr (self', es)" and "hm_get (rooms self') rid = Some r"
  shows "hm_get (rooms self) rid = Some r \<or> r = new_room env \<and> (\<exists>p. started es r = Some (room_new rid p))"
  using assms by (cases m) (auto simp: router_defs Let_def split: option.splits if_splits sum.splits)

lemma router_users_from:
  assumes "router_step self (env, m) = Inr (self', es)" and "hm_get (users self') u = Some s"
  shows "hm_get (users self) u = Some s \<or> (\<exists>c. m = RegisterUser u s c)"
  using assms by (cases m) (auto simp: router_defs Let_def split: option.splits if_splits sum.splits)

lemma no_mail_in_broadcast [simp]:
  "started (map (\<lambda>(k, s). TrySend s m) kvs) r = None"
  "other_tasks (map (\<lambda>(k, s). TrySend s m) kvs) = []"
  "try_sends (map (\<lambda>(k, s). TrySend s m) kvs) = map (\<lambda>(k, s). (s, m)) kvs"
  by (induction kvs) auto

lemma room_turn_effects:
  assumes "room_step iter a i = Inr (a', es)"
  shows "room_mail r es = []" "started es r = None"
  using assms
  by (cases i; auto simp: handler_defs split: if_splits option.splits elim!: room_handle_message.elims)+

lemma room_turn_try_sends:
  assumes "hash_iter iter" and "room_inv a" and "room_step iter a i = Inr (a', es)" and "(s, cm) \<in> set (try_sends es)"
  shows "\<exists>now from content mid c u. i = Recv now (SendMessage from content mid c) \<and>
    hm_get (members a) u = Some s \<and> cm = ChatMessage.RoomMessage (room_id a) from content mid"
proof -
  have iter: "set (iter m) = set m" for m
    using assms(1) unfolding hash_iter_def by (metis set_mset_mset)
  have mem: "hm_get (members a) u = Some s'" if "(u, s') \<in> set (members a)" for u s'
    using that assms(2) by (simp add: room_inv_def hm_wf_def hm_get_def)
  show ?thesis
    using assms(3,4)
    by (cases i)
       (auto simp: handler_defs iter split: if_splits option.splits elim!: room_handle_message.elims,
        (blast intro: mem)+)
qed

lemma room_turn_members:
  assumes "room_inv a" and "room_step iter a i = Inr (a', es)" and "hm_get (members a') u = Some s"
  shows "hm_get (members a) u = Some s \<or> (\<exists>now c. i = Recv now (AddMember u s c))"
  using assms
  by (cases i)
     (auto simp: handler_defs room_inv_def hm_get_retain split: if_splits option.splits elim!: room_handle_message.elims)

end
