(* ===== verification/System_Provenance.thy ===== *)
theory System_Provenance
  imports Gateway_System
begin

text \<open>
  Where the messages of the gateway come from: every message in the router's mailbox, in a room's
  mailbox or offered to a client goes back to a message a session sent, and a session speaks only
  for its own user. The invariant \<open>provenance\<close> holds in every reachable state.
\<close>

section \<open>Where messages come from\<close>

definition joined :: "(session_sender \<times> RouterMessage) list \<Rightarrow> TenantUserId \<Rightarrow> string \<Rightarrow> session_sender \<Rightarrow> bool" where
  "joined h u rid s \<longleftrightarrow> (\<exists>c. (s, RouterMessage.JoinRoom u rid s c) \<in> set h)"

definition posted :: "(session_sender \<times> RouterMessage) list \<Rightarrow> string \<Rightarrow> TenantUserId \<Rightarrow> string \<Rightarrow> uuid \<Rightarrow> bool" where
  "posted h rid from content mid \<longleftrightarrow> (\<exists>s c. (s, SendRoomMessage rid from content mid c) \<in> set h)"

text \<open>Every message in flight or handled speaks for the user of the session that sent it.\<close>

definition spoken_for :: "GatewayState \<Rightarrow> bool" where
  "spoken_for g \<longleftrightarrow> (\<forall>s m. (s, m) \<in> set (mailbox g) \<union> set (handled g) \<longrightarrow>
     (\<exists>t. sessions g s = Some t \<and> acts_for (session_user t) s m))"

definition hub_ok :: "GatewayState \<Rightarrow> bool" where
  "hub_ok g \<longleftrightarrow> router_inv (hub g) \<and>
     (\<forall>u s. hm_get (users (hub g)) u = Some s \<longrightarrow> (\<exists>c. (s, RegisterUser u s c) \<in> set (handled g))) \<and>
     (\<forall>rid r. hm_get (rooms (hub g)) rid = Some r \<longrightarrow> (\<exists>a q. room_tasks g r = Some (a, q) \<and> room_id a = rid))"

definition room_ok :: "(session_sender \<times> RouterMessage) list \<Rightarrow> RoomActor \<Rightarrow> RoomMessage list \<Rightarrow> bool" where
  "room_ok h a q \<longleftrightarrow> room_inv a \<and>
     (\<forall>u s. hm_get (members a) u = Some s \<longrightarrow> joined h u (room_id a) s) \<and>
     (\<forall>u s c. AddMember u s c \<in> set q \<longrightarrow> joined h u (room_id a) s) \<and>
     (\<forall>from content mid c. SendMessage from content mid c \<in> set q \<longrightarrow> posted h (room_id a) from content mid)"

definition rooms_ok :: "GatewayState \<Rightarrow> bool" where
  "rooms_ok g \<longleftrightarrow> (\<forall>r a q. room_tasks g r = Some (a, q) \<longrightarrow> room_ok (handled g) a q)"

fun caused :: "(session_sender \<times> RouterMessage) list \<Rightarrow> session_sender \<Rightarrow> ChatMessage \<Rightarrow> bool" where
  "caused h s (DirectMessage from content mid ts) \<longleftrightarrow>
     (\<exists>s' conv to c c'. (s', RouterMessage.SendDirectMessage conv from to content mid c) \<in> set h \<and>
        (s, RegisterUser to s c') \<in> set h)"
| "caused h s (ChatMessage.RoomMessage rid from content mid) \<longleftrightarrow>
     posted h rid from content mid \<and> (\<exists>u. joined h u rid s)"
| "caused h s _ \<longleftrightarrow> False"

definition deliveries_ok :: "GatewayState \<Rightarrow> bool" where
  "deliveries_ok g \<longleftrightarrow> (\<forall>s cm. (s, cm) \<in> set (delivered g) \<longrightarrow> caused (handled g) s cm)"

lemma joined_mono: "joined h u rid s \<Longrightarrow> set h \<subseteq> set h' \<Longrightarrow> joined h' u rid s"
  by (auto simp: joined_def)

lemma posted_mono: "posted h rid from content mid \<Longrightarrow> set h \<subseteq> set h' \<Longrightarrow> posted h' rid from content mid"
  by (auto simp: posted_def)

lemma caused_mono: "caused h s cm \<Longrightarrow> set h \<subseteq> set h' \<Longrightarrow> caused h' s cm"
  by (cases cm) (auto dest: joined_mono posted_mono, blast)

lemma room_ok_mono: "room_ok h a q \<Longrightarrow> set h \<subseteq> set h' \<Longrightarrow> room_ok h' a q"
  unfolding room_ok_def by (meson joined_mono posted_mono)

lemmas gateway_move_defs = connect_move_def route_move_def answered_move_def frame_move_def hangup_move_def
  room_move_def finish_move_def set_phase_def

lemma apply_effects_fields [simp]:
  "hub (apply_effects es g) = hub g" "mailbox (apply_effects es g) = mailbox g"
  "handled (apply_effects es g) = handled g" "sessions (apply_effects es g) = sessions g"
  "delivered (apply_effects es g) = delivered g @ try_sends es"
  "spawned (apply_effects es g) = spawned g @ other_tasks es"
  "used_oneshots (apply_effects es g) = used_oneshots g"
  "connections_active (apply_effects es g) = connections_active g"
  by (simp_all add: apply_effects_def)

lemma session_effects_fields [simp]:
  "hub (session_effects s es g) = hub g" "handled (session_effects s es g) = handled g"
  "sessions (session_effects s es g) = sessions g" "room_tasks (session_effects s es g) = room_tasks g"
  "delivered (session_effects s es g) = delivered g" "answers (session_effects s es g) = answers g"
  "mailbox (session_effects s es g) = mailbox g @ map (Pair s) (routed es)"
  "spawned (session_effects s es g) = spawned g" "used_oneshots (session_effects s es g) = used_oneshots g"
  "connections_active (session_effects s es g) = connections_active g + gauge_change es"
  by (simp_all add: session_effects_def)

lemma routed_new: "routed (fst (session_new uid s c True res)) = [RegisterUser uid s c]"
  by (simp add: session_new_def)

lemma routed_run: "routed (session_run parse uid s []) = [UnregisterUser uid]"
  by (simp add: session_run_def)

lemma task_effects_mail:
  assumes "task_effects ans t res = Some es"
  shows "room_mail r es = []" "started es r = None" "try_sends es = []" "other_tasks es = []"
  using assms
  by (cases "(ans, t, res)" rule: task_effects.cases;
      auto simp: dm_persist_task_def room_persist_task_def fetch_page_task_def fetch_sync_task_def
        relay_join_task_def relay_members_task_def split: sum.splits option.splits Reply.splits)+

lemma apply_effects_no_mail:
  "(\<And>r. room_mail r es = []) \<Longrightarrow> (\<And>r. started es r = None) \<Longrightarrow> room_tasks (apply_effects es g) = room_tasks g"
  by (simp add: apply_effects_def fun_eq_iff option.map_id split: option.splits)

text \<open>A step keeps every session's user and never forgets a handled message.\<close>

lemma move_grows:
  assumes "gateway_move parse iter g mv = Some g'"
  shows "set (handled g) \<subseteq> set (handled g')"
    and "sessions g s = Some t \<Longrightarrow> \<exists>t'. sessions g' s = Some t' \<and> session_user t' = session_user t"
  using assms
  by (cases mv;
      auto simp: gateway_move_defs split: if_splits option.splits list.splits prod.splits sum.splits Phase.splits
        Reply.splits)+

lemma handle_text_acts: "m \<in> set (routed (handle_text parse uid s env body)) \<Longrightarrow> acts_for uid s m"
  by (simp add: handle_text_routed)

lemma move_mailbox:
  assumes "gateway_move parse iter g mv = Some g'" and "(s, m) \<in> set (mailbox g')"
  shows "(s, m) \<in> set (mailbox g) \<or> (\<exists>t. sessions g' s = Some t \<and> acts_for (session_user t) s m)"
  using assms
  by (cases mv)
     (auto simp: gateway_move_defs routed_new routed_run session_run_def handle_text_acts
       split: if_splits option.splits list.splits prod.splits sum.splits Phase.splits Reply.splits)

lemma move_handled:
  assumes "gateway_move parse iter g mv = Some g'" and "(s, m) \<in> set (handled g')"
  shows "(s, m) \<in> set (mailbox g) \<union> set (handled g)"
  using assms
  by (cases mv)
     (auto simp: gateway_move_defs split: if_splits option.splits list.splits prod.splits sum.splits Phase.splits Reply.splits)

lemma move_spoken_for:
  assumes "spoken_for g" and "gateway_move parse iter g mv = Some g'"
  shows "spoken_for g'"
proof (unfold spoken_for_def, intro allI impI)
  fix s m
  assume "(s, m) \<in> set (mailbox g') \<union> set (handled g')"
  then have "(s, m) \<in> set (mailbox g) \<union> set (handled g) \<or> (\<exists>t. sessions g' s = Some t \<and> acts_for (session_user t) s m)"
    using move_mailbox [OF assms(2)] move_handled [OF assms(2)] by blast
  then show "\<exists>t. sessions g' s = Some t \<and> acts_for (session_user t) s m"
    using assms(1) move_grows(2) [OF assms(2)] unfolding spoken_for_def by metis
qed

fun session_move :: "Move \<Rightarrow> bool" where
  "session_move (Connect uid s c) = True"
| "session_move (Answered s) = True"
| "session_move (Frame s env body) = True"
| "session_move (Hangup s) = True"
| "session_move _ = False"

lemma session_move_quiet:
  assumes "gateway_move parse iter g mv = Some g'" and "session_move mv"
  shows "hub g' = hub g" "handled g' = handled g" "room_tasks g' = room_tasks g" "delivered g' = delivered g"
    "spawned g' = spawned g" "answers g' = answers g"
  using assms
  by (cases mv; auto simp: gateway_move_defs
      split: if_splits option.splits sum.splits Phase.splits Reply.splits)+

lemma route_moveE:
  assumes "route_move env g = Some g'"
  obtains s m q self es where "mailbox g = (s, m) # q" "router_step (hub g) (env, m) = Inr (self, es)"
    "room_tasks g (new_room env) = None" "new_oneshot env \<notin> used_oneshots g"
    "g' = apply_effects es (g\<lparr>hub := self, mailbox := q, handled := handled g @ [(s, m)],
       used_oneshots := insert (new_oneshot env) (used_oneshots g)\<rparr>)"
  using assms by (auto simp: route_move_def split: list.splits if_splits sum.splits)

lemma frame_moveE:
  assumes "frame_move parse s env body g = Some g'"
  obtains t where "sessions g s = Some t" "new_reply env \<notin> used_oneshots g"
    "g' = session_effects s (handle_text parse (session_user t) s env body)
       (g\<lparr>used_oneshots := insert (new_reply env) (used_oneshots g)\<rparr>)"
  using assms by (auto simp: frame_move_def split: option.splits if_splits)

lemma route_hub_ok:
  assumes "hub_ok g" and "spoken_for g" and "route_move env g = Some g'"
  shows "hub_ok g'"
  using assms(3)
proof (rule route_moveE)
  fix s m q self es
  assume mb: "mailbox g = (s, m) # q" and st: "router_step (hub g) (env, m) = Inr (self, es)"
    and g': "g' = apply_effects es (g\<lparr>hub := self, mailbox := q, handled := handled g @ [(s, m)],
       used_oneshots := insert (new_oneshot env) (used_oneshots g)\<rparr>)"
  have h: "set (handled g) \<subseteq> set (handled g')" using g' by auto
  have inv: "router_inv self" using router_step_ok [of "hub g" "(env, m)"] assms(1) st by (auto simp: hub_ok_def)
  have reg: "\<exists>c. (s', RegisterUser u s' c) \<in> set (handled g')" if "hm_get (users self) u = Some s'" for u s'
    using router_users_from [OF st that]
  proof
    assume "hm_get (users (hub g)) u = Some s'"
    then show ?thesis using assms(1) h unfolding hub_ok_def by blast
  next
    assume "\<exists>c. m = RegisterUser u s' c"
    then obtain c where m: "m = RegisterUser u s' c" by blast
    have "acts_for u' s m \<Longrightarrow> s' = s" for u' using m by simp
    then have "s' = s" using assms(2) mb unfolding spoken_for_def by (metis UnI1 list.set_intros(1))
    then show ?thesis using m g' by auto
  qed
  have room: "\<exists>a q. room_tasks g' r = Some (a, q) \<and> room_id a = rid" if "hm_get (rooms self) rid = Some r" for rid r
    using router_rooms [OF st that]
  proof
    assume "hm_get (rooms (hub g)) rid = Some r"
    then obtain a q where a: "room_tasks g r = Some (a, q)" "room_id a = rid" using assms(1) unfolding hub_ok_def by blast
    have "started es r = None"
      using router_started [OF st, of r] a(1) \<open>route_move env g = Some g'\<close>
      by (cases "started es r") (auto elim: route_moveE)
    then show ?thesis using a g' by (auto simp: apply_effects_def)
  next
    assume "r = new_room env \<and> (\<exists>p. started es r = Some (room_new rid p))"
    then show ?thesis using g' by (auto simp: apply_effects_def room_new_def)
  qed
  show ?thesis using inv reg room g' by (simp add: hub_ok_def)
qed

lemma route_room_ok:
  assumes "hub_ok g" and "spoken_for g" and "rooms_ok g" and "route_move env g = Some g'"
  shows "rooms_ok g'"
  using assms(4)
proof (rule route_moveE)
  fix s m q self es
  assume mb: "mailbox g = (s, m) # q" and st: "router_step (hub g) (env, m) = Inr (self, es)"
    and g': "g' = apply_effects es (g\<lparr>hub := self, mailbox := q, handled := handled g @ [(s, m)],
       used_oneshots := insert (new_oneshot env) (used_oneshots g)\<rparr>)"
  have hub': "hub_ok g'" by (rule route_hub_ok [OF assms(1,2,4)])
  have own: "s' = s" if "m = RouterMessage.JoinRoom u rid s' c" for u rid s' c
    using assms(2) mb that unfolding spoken_for_def by fastforce
  have mail: "(rm = AddMember u' s' c \<longrightarrow> joined (handled g') u' (room_id a) s') \<and>
      (rm = SendMessage from content mid c' \<longrightarrow> posted (handled g') (room_id a) from content mid)"
    if rm: "rm \<in> set (room_mail r es)" and a: "room_tasks g' r = Some (a, q')" for rm r a q' u' s' c c' "from" content mid
  proof -
    obtain rid where rid: "hm_get (rooms self) rid = Some r"
      and cases: "(\<exists>u s c. m = RouterMessage.JoinRoom u rid s c \<and> rm = AddMember u s (new_oneshot env)) \<or>
     (\<exists>u. m = RouterMessage.LeaveRoom u rid \<and> rm = RemoveMember u) \<or>
     (\<exists>from content mid c. m = SendRoomMessage rid from content mid c \<and> rm = SendMessage from content mid c) \<or>
     (\<exists>c. m = GetRoomMembers rid c \<and> rm = GetMembers (new_oneshot env))"
      using router_mail [OF st rm] by blast
    have "room_id a = rid" using hub' rid a g' unfolding hub_ok_def by fastforce
    then show ?thesis using cases own g' by (auto simp: joined_def posted_def)
  qed
  have "room_ok (handled g') a q'" if a: "room_tasks g' r = Some (a, q')" for r a q'
  proof (cases "started es r")
    case None
    then obtain q0 where q0: "room_tasks g r = Some (a, q0)" "q' = q0 @ room_mail r es"
      using a g' by (auto simp: apply_effects_def)
    have "room_ok (handled g') a q0"
      using assms(3) q0(1) room_ok_mono [of "handled g" a q0 "handled g'"] g' by (simp add: rooms_ok_def subset_insertI)
    then show ?thesis using mail [OF _ a] q0(2) unfolding room_ok_def by auto
  next
    case (Some a0)
    then obtain rid p where "a = room_new rid p" "q' = room_mail r es"
      using a g' router_started [OF st Some] by (auto simp: apply_effects_def)
    then show ?thesis using mail [OF _ a] by (auto simp: room_ok_def) (simp add: room_new_def)
  qed
  then show ?thesis by (simp add: rooms_ok_def)
qed

lemma route_deliveries_ok:
  assumes "hub_ok g" and "deliveries_ok g" and "route_move env g = Some g'"
  shows "deliveries_ok g'"
  using assms(3)
proof (rule route_moveE)
  fix s m q self es
  assume st: "router_step (hub g) (env, m) = Inr (self, es)"
    and g': "g' = apply_effects es (g\<lparr>hub := self, mailbox := q, handled := handled g @ [(s, m)],
       used_oneshots := insert (new_oneshot env) (used_oneshots g)\<rparr>)"
  have h: "set (handled g) \<subseteq> set (handled g')" using g' by auto
  have "caused (handled g') s' cm" if "(s', cm) \<in> set (try_sends es)" for s' cm
    using router_try_sends [OF st that] assms(1) g' unfolding hub_ok_def by fastforce
  moreover have "caused (handled g') s' cm" if "(s', cm) \<in> set (delivered g)" for s' cm
    using assms(2) that h unfolding deliveries_ok_def by (blast intro: caused_mono)
  ultimately show ?thesis using g' by (auto simp: deliveries_ok_def)
qed

lemma room_moveE:
  assumes "room_move iter r i q a g = Some g'"
  obtains a' es where "room_step iter a i = Inr (a', es)"
    "g' = apply_effects es (g\<lparr>room_tasks := (room_tasks g)(r \<mapsto> (a', q))\<rparr>)"
  using assms by (auto simp: room_move_def split: sum.splits)

lemma finish_moveE:
  assumes "finish_move i res g = Some g'"
  obtains es where "i < length (spawned g)" "task_effects (answers g) (spawned g ! i) res = Some es"
    "g' = apply_effects es (g\<lparr>spawned := take i (spawned g) @ drop (Suc i) (spawned g)\<rparr>)"
  using assms by (auto simp: finish_move_def split: if_splits)

text \<open>The four kinds of steps, with what each of them runs.\<close>

lemma gateway_move_cases:
  assumes "gateway_move parse iter g mv = Some g'"
  obtains (session) "session_move mv"
    | (route) env where "mv = Route env" "route_move env g = Some g'"
    | (room) r i q q0 a where "\<not> session_move mv" "\<forall>env. mv \<noteq> Route env" "room_tasks g r = Some (a, q0)"
        "room_move iter r i q a g = Some g'" "set q \<subseteq> set q0" "\<forall>now m. i = Recv now m \<longrightarrow> m \<in> set q0"
    | (finish) i res where "mv = Finish i res" "finish_move i res g = Some g'"
proof (cases mv)
  case (RoomTurn r now)
  then obtain a m q where "room_tasks g r = Some (a, m # q)" "room_move iter r (Recv now m) q a g = Some g'"
    using assms by (auto simp del: room_step.simps split: option.splits list.splits)
  then show ?thesis using RoomTurn by (intro room [of r a "m # q" "Recv now m" q]) auto
next
  case (RoomTick r closed)
  then obtain a q where "room_tasks g r = Some (a, q)"
    "room_move iter r (CleanupTick (\<lambda>s. closed s \<or> ended g s)) q a g = Some g'"
    using assms by (auto split: option.splits)
  then show ?thesis using RoomTick by (intro room [of r a q _ q]) auto
qed (use assms session route finish in auto)

definition provenance :: "GatewayState \<Rightarrow> bool" where
  "provenance g \<longleftrightarrow> spoken_for g \<and> hub_ok g \<and> rooms_ok g \<and> deliveries_ok g"

lemma room_move_provenance:
  assumes "hash_iter iter" and "provenance g" and "room_tasks g r = Some (a, q0)"
    and "room_move iter r i q a g = Some g'" and "set q \<subseteq> set q0"
    and "\<And>now m. i = Recv now m \<Longrightarrow> m \<in> set q0"
  shows "hub_ok g' \<and> rooms_ok g' \<and> deliveries_ok g'"
  using assms(4)
proof (rule room_moveE)
  fix a' es
  assume st: "room_step iter a i = Inr (a', es)"
    and g': "g' = apply_effects es (g\<lparr>room_tasks := (room_tasks g)(r \<mapsto> (a', q))\<rparr>)"
  have ok: "room_ok (handled g) a q0" using assms(2,3) by (auto simp: provenance_def rooms_ok_def)
  then have inv: "room_inv a" by (simp add: room_ok_def)
  have tasks: "room_tasks g' = (room_tasks g)(r \<mapsto> (a', q))"
    unfolding g' by (subst apply_effects_no_mail) (simp_all add: room_turn_effects [OF st])
  have frame: "room_id a' = room_id a" using room_step_frame [OF st] by simp
  have inv': "room_inv a'" using room_step_ok [OF inv, of iter i] st by auto
  have mem: "joined (handled g) u (room_id a) s" if "hm_get (members a') u = Some s" for u s
    using room_turn_members [OF inv st that] ok assms(6) unfolding room_ok_def by blast
  have "\<exists>a q. room_tasks g' r' = Some (a, q) \<and> room_id a = rid" if rid: "hm_get (rooms (hub g)) rid = Some r'" for rid r'
  proof -
    obtain a0 q1 where "room_tasks g r' = Some (a0, q1)" "room_id a0 = rid"
      using assms(2) rid unfolding provenance_def hub_ok_def by blast
    then show ?thesis using assms(3) frame by (auto simp: tasks)
  qed
  then have "hub_ok g'" using assms(2) by (simp add: provenance_def hub_ok_def g')
  moreover have "room_ok (handled g) a' q"
    using inv' mem ok assms(5) unfolding room_ok_def frame by blast
  then have "rooms_ok g'" using assms(2) tasks unfolding provenance_def rooms_ok_def by (auto simp: g')
  moreover have "caused (handled g) s cm" if "(s, cm) \<in> set (try_sends es)" for s cm
    using room_turn_try_sends [OF assms(1) inv st that] ok assms(6) unfolding room_ok_def by force
  then have "deliveries_ok g'" using assms(2) unfolding provenance_def deliveries_ok_def g' by auto
  ultimately show ?thesis by blast
qed

lemma finish_move_provenance:
  assumes "provenance g" and "finish_move i res g = Some g'"
  shows "hub_ok g' \<and> rooms_ok g' \<and> deliveries_ok g'"
proof -
  obtain es where es: "task_effects (answers g) (spawned g ! i) res = Some es"
    and g': "g' = apply_effects es (g\<lparr>spawned := take i (spawned g) @ drop (Suc i) (spawned g)\<rparr>)"
    using assms(2) by (auto simp: finish_move_def split: if_splits)
  have "room_tasks g' = room_tasks g"
    unfolding g' by (subst apply_effects_no_mail) (simp_all add: task_effects_mail [OF es])
  then show ?thesis
    using assms(1) by (simp add: provenance_def hub_ok_def rooms_ok_def deliveries_ok_def g' task_effects_mail [OF es])
qed

lemma provenance_init: "provenance (gateway_init p)"
  by (simp add: provenance_def gateway_init_def spoken_for_def hub_ok_def rooms_ok_def deliveries_ok_def)
     (simp add: router_new_def)

lemma move_provenance:
  assumes "hash_iter iter" and "provenance g" and "gateway_move parse iter g mv = Some g'"
  shows "provenance g'"
proof -
  have sp: "spoken_for g'" using assms(2,3) move_spoken_for unfolding provenance_def by blast
  have "hub_ok g' \<and> rooms_ok g' \<and> deliveries_ok g'"
    using assms(3)
  proof (cases rule: gateway_move_cases)
    case session
    then show ?thesis
      using session_move_quiet [OF assms(3)] assms(2) by (simp add: provenance_def hub_ok_def rooms_ok_def deliveries_ok_def)
  next
    case (route env)
    then show ?thesis
      using assms(2) route_hub_ok route_room_ok route_deliveries_ok unfolding provenance_def by blast
  next
    case (room r i q q0 a)
    then show ?thesis by (intro room_move_provenance [OF assms(1,2) room(3-5)]) blast
  next
    case (finish i res)
    then show ?thesis using finish_move_provenance [OF assms(2)] by blast
  qed
  then show ?thesis using sp by (simp add: provenance_def)
qed

lemma reachable_provenance: "reachable parse iter g \<Longrightarrow> hash_iter iter \<Longrightarrow> provenance g"
  by (induction rule: reachable.induct) (auto intro: provenance_init move_provenance)

end
