(* ===== verification/System_Lifecycle.thy ===== *)
theory System_Lifecycle
  imports System_Provenance
begin

text \<open>
  The life of the sessions: the answer to a registration reaches exactly the session that asked, the
  table of the router follows the phases of the sessions, and messages of one session about its own
  life are handled in the order they were sent. The invariant \<open>lives\<close> holds in every reachable state.
\<close>

section \<open>Handles in use\<close>

fun lifecycle :: "RouterMessage \<Rightarrow> bool" where
  "lifecycle (RegisterUser u s c) = True"
| "lifecycle (UnregisterUser u) = True"
| "lifecycle _ = False"

text \<open>The oneshot senders a message or a task holds.\<close>

fun message_oneshots :: "RouterMessage \<Rightarrow> oneshot set" where
  "message_oneshots (RegisterUser u s c) = {c}"
| "message_oneshots (UnregisterUser u) = {}"
| "message_oneshots (RouterMessage.SendDirectMessage conv from to content mid c) = set_option c"
| "message_oneshots (GetOnlineUsers c) = {c}"
| "message_oneshots (RouterMessage.GetPaginatedMessages pid mid conv c) = {c}"
| "message_oneshots (RouterMessage.JoinRoom u rid s c) = {c}"
| "message_oneshots (RouterMessage.LeaveRoom u rid) = {}"
| "message_oneshots (SendRoomMessage rid from content mid c) = set_option c"
| "message_oneshots (GetRoomMembers rid c) = {c}"
| "message_oneshots (RouterMessage.SyncMessages pid conv mid c) = {c}"

fun room_oneshots :: "RoomMessage \<Rightarrow> oneshot set" where
  "room_oneshots (AddMember u s c) = {c}"
| "room_oneshots (RemoveMember u) = {}"
| "room_oneshots (SendMessage from content mid c) = set_option c"
| "room_oneshots (GetMembers c) = {c}"
| "room_oneshots (RoomMessage.GetPaginatedMessages pid mid c) = {c}"

fun task_oneshots :: "Task \<Rightarrow> oneshot set" where
  "task_oneshots (PersistDirectMessage conv from to content mid ts c) = {c}"
| "task_oneshots (PersistRoomMessage rid from content mid ts c) = {c}"
| "task_oneshots (FetchPage pid mid conv c) = {c}"
| "task_oneshots (FetchSync pid conv mid c) = {c}"
| "task_oneshots (RelayJoin inner c) = {c}"
| "task_oneshots (RelayMembers inner c) = {c}"
| "task_oneshots (RunRoom r rid p) = {}"

text \<open>A sender that will still be used, other than that of a registration.\<close>

definition live :: "GatewayState \<Rightarrow> oneshot \<Rightarrow> bool" where
  "live g c \<longleftrightarrow> (\<exists>s m. (s, m) \<in> set (mailbox g) \<and> \<not> lifecycle m \<and> c \<in> message_oneshots m) \<or>
     (\<exists>r a q m. room_tasks g r = Some (a, q) \<and> m \<in> set q \<and> c \<in> room_oneshots m) \<or>
     (\<exists>t \<in> set (spawned g). c \<in> task_oneshots t)"

lemma router_replies:
  assumes "router_step self (env, m) = Inr (self', es)" and "replies c es \<noteq> []"
  shows "c \<in> message_oneshots m"
  using assms by (cases m) (auto simp: router_defs Let_def split: option.splits if_splits sum.splits)

lemma router_lifecycle:
  assumes "router_step self (env, m) = Inr (self', es)" and "lifecycle m"
  shows "room_mail r es = []" "other_tasks es = []" "started es r = None"
  using assms by (cases m; auto simp: router_defs split: if_splits)+

lemma router_mail_oneshots:
  assumes "router_step self (env, m) = Inr (self', es)" and "rm \<in> set (room_mail r es)" and "c \<in> room_oneshots rm"
  shows "c \<in> message_oneshots m \<or> c = new_oneshot env"
  using router_mail [OF assms(1,2)] assms(3) by auto

lemma router_task_oneshots:
  assumes "router_step self (env, m) = Inr (self', es)" and "t \<in> set (other_tasks es)" and "c \<in> task_oneshots t"
  shows "c \<in> message_oneshots m"
  using assms by (cases m) (auto simp: router_defs Let_def split: option.splits if_splits sum.splits)

lemma room_turn_oneshots:
  assumes "room_step iter a i = Inr (a', es)"
    and "replies c es \<noteq> [] \<or> (\<exists>t \<in> set (other_tasks es). c \<in> task_oneshots t)"
  shows "\<exists>now m. i = Recv now m \<and> c \<in> room_oneshots m"
  using assms
  by (cases i)
     (auto simp: handler_defs split: if_splits option.splits elim!: room_handle_message.elims)

lemma task_effects_replies:
  assumes "task_effects ans t res = Some es" and "replies c es \<noteq> []"
  shows "c \<in> task_oneshots t"
  using assms
  by (cases "(ans, t, res)" rule: task_effects.cases)
     (auto simp: dm_persist_task_def room_persist_task_def fetch_page_task_def fetch_sync_task_def
        relay_join_task_def relay_members_task_def split: sum.splits option.splits Reply.splits if_splits)

lemma handle_text_oneshots:
  assumes "m \<in> set (routed (handle_text parse uid s env body))"
  shows "message_oneshots m \<subseteq> {new_reply env}" "\<not> lifecycle m"
  using assms by (auto simp: session_defs split: sum.splits ChatMessage.splits if_splits)

lemma answers_apply:
  "answers (apply_effects es g) c = answers g c \<or> replies c es \<noteq> []"
  by (auto simp: apply_effects_def split: option.splits list.splits)

lemma route_live:
  assumes "route_move env g = Some g'" and "live g' c"
  shows "live g c \<or> c = new_oneshot env"
  using assms(1)
proof (rule route_moveE)
  fix s m q self es
  assume mb: "mailbox g = (s, m) # q" and st: "router_step (hub g) (env, m) = Inr (self, es)"
    and g': "g' = apply_effects es (g\<lparr>hub := self, mailbox := q, handled := handled g @ [(s, m)],
       used_oneshots := insert (new_oneshot env) (used_oneshots g)\<rparr>)"
  have new: "live g c" if "c \<in> message_oneshots m" "\<not> lifecycle m"
    using that mb unfolding live_def by auto
  have fields: "mailbox g' = q" "spawned g' = spawned g @ other_tasks es" by (simp_all add: g')
  from assms(2) consider
      s' m' where "(s', m') \<in> set q" "\<not> lifecycle m'" "c \<in> message_oneshots m'"
    | r a q' rm where "room_tasks g' r = Some (a, q')" "rm \<in> set q'" "c \<in> room_oneshots rm"
    | t where "t \<in> set (spawned g @ other_tasks es)" "c \<in> task_oneshots t"
    unfolding live_def fields by blast
  then show ?thesis
  proof cases
    case 1
    then show ?thesis using mb unfolding live_def by auto
  next
    case 2
    have "rm \<in> set (room_mail r es) \<or> (\<exists>a q. room_tasks g r = Some (a, q) \<and> rm \<in> set q)"
      using 2(1,2) by (auto simp: g' apply_effects_def split: option.splits)
    then show ?thesis
      using router_mail_oneshots [OF st _ 2(3)] router_lifecycle(1) [OF st] new 2(3) unfolding live_def by force
  next
    case 3
    then show ?thesis
      using router_task_oneshots [OF st _ 3(2)] router_lifecycle(2) [OF st] new unfolding live_def by force
  qed
qed

lemma room_move_live:
  assumes "room_move iter r i q a g = Some g'" and "room_tasks g r = Some (a, q0)" and "set q \<subseteq> set q0"
    and "\<And>now m. i = Recv now m \<Longrightarrow> m \<in> set q0"
  shows "live g' c \<Longrightarrow> live g c" and "answers g' c = answers g c \<or> live g c"
  using assms(1)
proof (atomize (full), elim room_moveE, intro conjI impI)
  fix a' es
  assume st: "room_step iter a i = Inr (a', es)"
    and g': "g' = apply_effects es (g\<lparr>room_tasks := (room_tasks g)(r \<mapsto> (a', q))\<rparr>)"
  have tasks: "room_tasks g' = (room_tasks g)(r \<mapsto> (a', q))"
    unfolding g' by (subst apply_effects_no_mail) (simp_all add: room_turn_effects [OF st])
  have new: "live g c" if "replies c es \<noteq> [] \<or> (\<exists>t \<in> set (other_tasks es). c \<in> task_oneshots t)" for c
    using room_turn_oneshots [OF st that] assms(2,4) unfolding live_def by blast
  show "answers g' c = answers g c \<or> live g c"
    using answers_apply [of es "g\<lparr>room_tasks := (room_tasks g)(r \<mapsto> (a', q))\<rparr>" c] new [of c] unfolding g' by auto
  assume "live g' c"
  then show "live g c"
    using new [of c] assms(2,3) unfolding live_def tasks by (auto simp: g' split: if_splits) blast
qed

lemma finish_move_live:
  assumes "finish_move i res g = Some g'"
  shows "live g' c \<Longrightarrow> live g c" and "answers g' c = answers g c \<or> live g c"
proof -
  obtain es where i: "i < length (spawned g)" and es: "task_effects (answers g) (spawned g ! i) res = Some es"
    and g': "g' = apply_effects es (g\<lparr>spawned := take i (spawned g) @ drop (Suc i) (spawned g)\<rparr>)"
    using assms by (auto simp: finish_move_def split: if_splits)
  have tasks: "room_tasks g' = room_tasks g"
    unfolding g' by (subst apply_effects_no_mail) (simp_all add: task_effects_mail [OF es])
  have "set (spawned g') \<subseteq> set (spawned g)"
    unfolding g' by (auto simp: task_effects_mail [OF es] dest: in_set_takeD in_set_dropD)
  then show "live g' c \<Longrightarrow> live g c"
    unfolding live_def tasks by (auto simp: g')
  show "answers g' c = answers g c \<or> live g c"
    using answers_apply [of es "g\<lparr>spawned := take i (spawned g) @ drop (Suc i) (spawned g)\<rparr>" c]
      task_effects_replies [OF es, of c] i unfolding g' live_def by (auto intro: nth_mem)
qed

section \<open>The life of a session\<close>

text \<open>The registration and the removal of a session that are in flight.\<close>

definition pending :: "session_sender \<Rightarrow> (session_sender \<times> RouterMessage) list \<Rightarrow> RouterMessage list" where
  "pending s q = map snd (filter (\<lambda>(s', m). s' = s \<and> lifecycle m) q)"

definition waiting :: "GatewayState \<Rightarrow> session_sender \<Rightarrow> oneshot \<Rightarrow> bool" where
  "waiting g s c \<longleftrightarrow> (\<exists>t. sessions g s = Some t \<and> session_phase t = Registering c)"

definition handles_ok :: "GatewayState \<Rightarrow> bool" where
  "handles_ok g \<longleftrightarrow> (\<forall>c. live g c \<or> answers g c \<noteq> None \<longrightarrow> c \<in> used_oneshots g) \<and>
     (\<forall>s c. waiting g s c \<longrightarrow> c \<in> used_oneshots g \<and> \<not> live g c \<and> (\<forall>s'. waiting g s' c \<longrightarrow> s' = s))"

text \<open>
  What the router's table and the channels say of a session, by its phase: \<open>here\<close> is whether the
  table holds its channel under its user.
\<close>

fun phase_ok :: "TenantUserId \<Rightarrow> session_sender \<Rightarrow> (oneshot \<rightharpoonup> Reply) \<Rightarrow> RouterMessage list \<Rightarrow> bool \<Rightarrow> Phase \<Rightarrow> bool" where
  "phase_ok u s ans ms here (Registering c) \<longleftrightarrow>
     (case ans c of
        None \<Rightarrow> ms = [RegisterUser u s c] \<and> \<not> here
      | Some (UnitReply (Inr x)) \<Rightarrow> ms = [] \<and> here
      | Some (UnitReply (Inl e)) \<Rightarrow> ms = [] \<and> \<not> here
      | _ \<Rightarrow> False)"
| "phase_ok u s ans ms here Refused \<longleftrightarrow> ms = [] \<and> \<not> here"
| "phase_ok u s ans ms here Active \<longleftrightarrow> ms = [] \<and> here"
| "phase_ok u s ans ms here Closed \<longleftrightarrow> (if here then ms = [UnregisterUser u] else ms = [])"

definition life_ok :: "GatewayState \<Rightarrow> bool" where
  "life_ok g \<longleftrightarrow> (\<forall>s t. sessions g s = Some t \<longrightarrow>
     phase_ok (session_user t) s (answers g) (pending s (mailbox g))
       (hm_get (users (hub g)) (session_user t) = Some s) (session_phase t))"

lemma pending_append [simp]: "pending s (q @ q') = pending s q @ pending s q'"
  by (simp add: pending_def)

lemma pending_Cons: "pending s ((s', m) # q) = (if s' = s \<and> lifecycle m then m # pending s q else pending s q)"
  by (simp add: pending_def)

lemma pending_Nil [simp]: "pending s [] = []"
  by (simp add: pending_def)

lemma pending_map: "pending s (map (Pair s') ms) = (if s' = s then filter lifecycle ms else [])"
  by (induction ms) (auto simp: pending_def)

lemma pending_in: "(s, m) \<in> set q \<Longrightarrow> lifecycle m \<Longrightarrow> m \<in> set (pending s q)"
  by (force simp: pending_def)

lemma pending_absent: "(\<And>m. (s, m) \<notin> set q) \<Longrightarrow> pending s q = []"
  by (auto simp: pending_def filter_empty_conv)

lemma phase_ok_answers:
  "(\<And>c. ph = Registering c \<Longrightarrow> ans' c = ans c) \<Longrightarrow> phase_ok u s ans' ms here ph = phase_ok u s ans ms here ph"
  by (cases ph) auto

lemma phase_ok_register:
  assumes "phase_ok u s ans ms here ph" and "RegisterUser u' s' c \<in> set ms"
  shows "ph = Registering c \<and> ans c = None \<and> ms = [RegisterUser u s c] \<and> u' = u \<and> s' = s \<and> \<not> here"
  using assms by (cases ph) (auto split: option.splits Reply.splits sum.splits if_splits)

lemma phase_ok_unregister:
  assumes "phase_ok u s ans ms here ph" and "UnregisterUser u' \<in> set ms"
  shows "ph = Closed \<and> ms = [UnregisterUser u] \<and> u' = u \<and> here"
  using assms by (cases ph) (auto split: option.splits Reply.splits sum.splits if_splits)

lemma room_finish_frame:
  assumes "gateway_move parse iter g mv = Some g'" and "\<not> session_move mv" and "\<forall>env. mv \<noteq> Route env"
  shows "hub g' = hub g" "mailbox g' = mailbox g" "sessions g' = sessions g" "used_oneshots g' = used_oneshots g"
    "connections_active g' = connections_active g" "live g' c \<Longrightarrow> live g c" "answers g' c = answers g c \<or> live g c"
proof -
  have room: "hub g' = hub g \<and> mailbox g' = mailbox g \<and> sessions g' = sessions g \<and> used_oneshots g' = used_oneshots g \<and>
      connections_active g' = connections_active g" if "room_move iter r i q a g = Some g'" for r i q a
    using that by (rule room_moveE) simp
  have "hub g' = hub g \<and> mailbox g' = mailbox g \<and> sessions g' = sessions g \<and> used_oneshots g' = used_oneshots g \<and>
      connections_active g' = connections_active g \<and>
      (live g' c \<longrightarrow> live g c) \<and> (answers g' c = answers g c \<or> live g c)"
  proof (cases mv)
    case (RoomTurn r now)
    then obtain a m q where "room_tasks g r = Some (a, m # q)" "room_move iter r (Recv now m) q a g = Some g'"
      using assms(1) by (auto simp del: room_step.simps split: option.splits list.splits)
    then show ?thesis using room room_move_live [of iter r "Recv now m" q a g g' "m # q" c] by (simp add: subset_insertI)
  next
    case (RoomTick r closed)
    then obtain a q where "room_tasks g r = Some (a, q)"
      "room_move iter r (CleanupTick (\<lambda>s. closed s \<or> ended g s)) q a g = Some g'"
      using assms(1) by (auto split: option.splits)
    then show ?thesis using room room_move_live [of iter r _ q a g g' q] by blast
  next
    case (Finish i res)
    then show ?thesis
      using assms(1) finish_move_live [of i res g g' c] by (auto simp: finish_move_def split: if_splits)
  qed (use assms in auto)
  then show "hub g' = hub g" "mailbox g' = mailbox g" "sessions g' = sessions g" "used_oneshots g' = used_oneshots g"
    "connections_active g' = connections_active g" "live g' c \<Longrightarrow> live g c" "answers g' c = answers g c \<or> live g c"
    by blast+
qed

text \<open>A session move: the handles it adds, the messages it sends and what becomes of the phases.\<close>

lemma session_move_mailbox:
  assumes "gateway_move parse iter g mv = Some g'" and "session_move mv"
  shows "\<exists>s ms. mailbox g' = mailbox g @ map (Pair s) ms \<and>
    (\<exists>new. used_oneshots g' = used_oneshots g \<union> new \<and> new \<inter> used_oneshots g = {} \<and>
      (\<forall>m \<in> set ms. \<not> lifecycle m \<longrightarrow> message_oneshots m \<subseteq> new))"
proof (cases mv)
  case (Connect uid s c)
  then show ?thesis
    using assms(1) by (intro exI [of _ s] exI [of _ "[RegisterUser uid s c]"])
      (auto simp: connect_move_def routed_new split: if_splits intro!: exI [of _ "{c}"])
next
  case (Frame s env body)
  then obtain t where "sessions g s = Some t" "new_reply env \<notin> used_oneshots g"
    "g' = session_effects s (handle_text parse (session_user t) s env body)
       (g\<lparr>used_oneshots := insert (new_reply env) (used_oneshots g)\<rparr>)"
    using assms(1) by (auto elim: frame_moveE)
  then show ?thesis
    by (intro exI [of _ s] exI [of _ "routed (handle_text parse (session_user t) s env body)"])
       (auto dest: handle_text_oneshots intro!: exI [of _ "{new_reply env}"])
next
  case (Answered s)
  then show ?thesis
    using assms(1) by (intro exI [of _ s] exI [of _ "[]"])
      (auto simp: answered_move_def set_phase_def split: option.splits Phase.splits Reply.splits sum.splits)
next
  case (Hangup s)
  then obtain u where "mailbox g' = mailbox g @ [(s, UnregisterUser u)]" "used_oneshots g' = used_oneshots g"
    using assms(1) by (auto simp: hangup_move_def set_phase_def routed_run split: option.splits if_splits)
  then show ?thesis by (intro exI [of _ s] exI [of _ "[UnregisterUser u]"]) auto
qed (use assms(2) in auto)

lemma session_move_live:
  assumes "gateway_move parse iter g mv = Some g'" and "session_move mv" and "live g' c"
  shows "live g c \<or> c \<in> used_oneshots g' - used_oneshots g"
proof -
  obtain s ms new where q: "mailbox g' = mailbox g @ map (Pair s) ms" "used_oneshots g' = used_oneshots g \<union> new"
      "new \<inter> used_oneshots g = {}" "\<And>m. m \<in> set ms \<Longrightarrow> \<not> lifecycle m \<Longrightarrow> message_oneshots m \<subseteq> new"
    using session_move_mailbox [OF assms(1,2)] by metis
  show ?thesis
    using assms(3) q session_move_quiet(3,5) [OF assms(1,2)] unfolding live_def by fastforce
qed

lemma move_waiting:
  assumes "gateway_move parse iter g mv = Some g'" and "waiting g' s c"
  shows "waiting g s c \<or> (\<exists>u. mv = Connect u s c) \<and> c \<notin> used_oneshots g \<and> c \<in> used_oneshots g'"
proof (cases "session_move mv \<or> (\<exists>env. mv = Route env)")
  case True
  then show ?thesis
    using assms
    by (cases mv)
       (auto simp: waiting_def gateway_move_defs split: if_splits option.splits list.splits sum.splits Phase.splits Reply.splits)
next
  case False
  then show ?thesis using assms room_finish_frame(3) [OF assms(1)] by (auto simp: waiting_def)
qed

lemma move_used: "gateway_move parse iter g mv = Some g' \<Longrightarrow> used_oneshots g \<subseteq> used_oneshots g'"
  using room_finish_frame(4) [of parse iter g mv g'] session_move_mailbox [of parse iter g mv g']
  by (cases "session_move mv"; cases mv) (auto elim: route_moveE)

lemma connect_live: "connect_move u s c g = Some g' \<Longrightarrow> live g' c' = live g c'"
  unfolding live_def connect_move_def
  by (rule arg_cong2 [where f = "(\<or>)"], (auto simp: routed_new split: if_splits; fastforce)+)

lemma move_live:
  assumes "gateway_move parse iter g mv = Some g'" and "live g' c"
  shows "live g c \<or> c \<in> used_oneshots g' - used_oneshots g"
proof (cases "session_move mv")
  case True
  then show ?thesis using session_move_live assms by blast
next
  case False
  show ?thesis
  proof (cases "\<exists>env. mv = Route env")
    case True
    then obtain env where r: "route_move env g = Some g'" using assms(1) by auto
    then have "new_oneshot env \<in> used_oneshots g' - used_oneshots g" by (auto elim: route_moveE)
    then show ?thesis using route_live [OF r assms(2)] by auto
  next
    case F: False
    then show ?thesis using room_finish_frame(6) [OF assms(1) False] assms(2) by blast
  qed
qed

lemma register_waiting:
  assumes "life_ok g" and "spoken_for g" and "(s, RegisterUser u s' c) \<in> set (mailbox g)"
  shows "waiting g s c"
proof -
  obtain t where "sessions g s = Some t" using assms(2,3) unfolding spoken_for_def by blast
  then show ?thesis
    using assms(1) phase_ok_register pending_in [OF assms(3)] unfolding life_ok_def waiting_def by fastforce
qed

lemma move_answers:
  assumes "life_ok g" and "spoken_for g" and "gateway_move parse iter g mv = Some g'"
  shows "answers g' c = answers g c \<or> live g c \<or>
    (\<exists>env s u s' q. mv = Route env \<and> mailbox g = (s, RegisterUser u s' c) # q \<and> waiting g s c)"
proof (cases "session_move mv")
  case True
  then show ?thesis using session_move_quiet(6) [OF assms(3)] by simp
next
  case False
  show ?thesis
  proof (cases "\<exists>env. mv = Route env")
    case True
    then obtain env where mv: "mv = Route env" and r: "route_move env g = Some g'" using assms(3) by auto
    from r show ?thesis
    proof (rule route_moveE)
      fix s m q self es
      assume mb: "mailbox g = (s, m) # q" and st: "router_step (hub g) (env, m) = Inr (self, es)"
        and g': "g' = apply_effects es (g\<lparr>hub := self, mailbox := q, handled := handled g @ [(s, m)],
           used_oneshots := insert (new_oneshot env) (used_oneshots g)\<rparr>)"
      have reg: "waiting g s c" if "m = RegisterUser u s' c" for u s'
        using register_waiting [OF assms(1,2)] mb that by auto
      have "answers g' c = answers g c \<or> c \<in> message_oneshots m"
        using answers_apply [of es "g\<lparr>hub := self, mailbox := q, handled := handled g @ [(s, m)],
           used_oneshots := insert (new_oneshot env) (used_oneshots g)\<rparr>" c] router_replies [OF st, of c] unfolding g' by auto
      moreover have "live g c" if "c \<in> message_oneshots m" "\<not> lifecycle m"
        using that mb unfolding live_def by auto
      ultimately show ?thesis using mv mb reg by (cases m) auto
    qed
  next
    case F: False
    then show ?thesis using room_finish_frame(7) [OF assms(3) False] by blast
  qed
qed

lemma move_handles_ok:
  assumes "handles_ok g" and "life_ok g" and "spoken_for g" and "gateway_move parse iter g mv = Some g'"
  shows "handles_ok g'"
proof -
  have used: "used_oneshots g \<subseteq> used_oneshots g'" by (rule move_used [OF assms(4)])
  have old: "c \<in> used_oneshots g \<and> \<not> live g c" if "waiting g s c" for s c
    using assms(1) that unfolding handles_ok_def by blast
  have 1: "c \<in> used_oneshots g'" if "live g' c" for c
    using move_live [OF assms(4) that] assms(1) used unfolding handles_ok_def by blast
  have 2: "c \<in> used_oneshots g'" if "answers g' c \<noteq> None" for c
    using move_answers [OF assms(2-4), of c] assms(1) that used unfolding handles_ok_def by (metis subsetD)
  have 3: "c \<in> used_oneshots g' \<and> \<not> live g' c \<and> (\<forall>s'. waiting g' s' c \<longrightarrow> s' = s)" if "waiting g' s c" for s c
    using move_waiting [OF assms(4) that]
  proof
    assume w: "waiting g s c"
    have "\<not> live g' c" using move_live [OF assms(4)] old [OF w] by blast
    moreover have "s' = s" if "waiting g' s' c" for s'
      using move_waiting [OF assms(4) that] old [OF w] assms(1) w unfolding handles_ok_def by blast
    ultimately show ?thesis using old [OF w] used by blast
  next
    assume n: "(\<exists>u. mv = Connect u s c) \<and> c \<notin> used_oneshots g \<and> c \<in> used_oneshots g'"
    then have "\<not> live g' c"
      using assms(1,4) connect_live unfolding handles_ok_def by fastforce
    moreover have "s' = s" if "waiting g' s' c" for s'
      using move_waiting [OF assms(4) that] n old by auto
    ultimately show ?thesis using n by blast
  qed
  show ?thesis using 1 2 3 unfolding handles_ok_def by blast
qed

lemma life_okD:
  "life_ok g \<Longrightarrow> sessions g s = Some t \<Longrightarrow>
   phase_ok (session_user t) s (answers g) (pending s (mailbox g))
     (hm_get (users (hub g)) (session_user t) = Some s) (session_phase t)"
  by (simp add: life_ok_def)

lemma connect_life_ok:
  assumes "life_ok g" and "provenance g" and "handles_ok g" and "connect_move u s c g = Some g'"
  shows "life_ok g'"
proof -
  have new: "sessions g s = None" "c \<notin> used_oneshots g"
    and g': "g' = session_effects s (fst (session_new u s c True None))
        (g\<lparr>sessions := (sessions g)(s \<mapsto> \<lparr>session_user = u, session_phase = Registering c\<rparr>),
           used_oneshots := insert c (used_oneshots g)\<rparr>)"
    using assms(4) by (auto simp: connect_move_def split: if_splits)
  have none: "(s, m) \<notin> set (mailbox g) \<union> set (handled g)" for m
    using assms(2) new(1) unfolding provenance_def spoken_for_def by (metis option.distinct(1))
  have "hm_get (users (hub g)) u \<noteq> Some s"
    using assms(2) none unfolding provenance_def hub_ok_def by blast
  moreover have "pending s (mailbox g) = []" using none by (intro pending_absent) blast
  moreover have "answers g c = None" using assms(3) new(2) unfolding handles_ok_def by blast
  ultimately show ?thesis
    using assms(1) by (auto simp: life_ok_def g' routed_new pending_Cons)
qed

lemma answered_moveE:
  assumes "answered_move s g = Some g'"
  obtains t c res where "sessions g s = Some t" "session_phase t = Registering c" "answers g c = Some (UnitReply res)"
    "g' = (case res of Inr _ \<Rightarrow> session_effects s [GaugeInc] (set_phase s t Active g)
                     | Inl e \<Rightarrow> set_phase s t Refused g)"
  using assms by (auto simp: answered_move_def session_new_def split: option.splits Phase.splits Reply.splits sum.splits)

lemma answered_life_ok:
  assumes "life_ok g" and "answered_move s g = Some g'"
  shows "life_ok g'"
proof -
  obtain t c res where t: "sessions g s = Some t" "session_phase t = Registering c" "answers g c = Some (UnitReply res)"
    and g': "g' = (case res of Inr _ \<Rightarrow> session_effects s [GaugeInc] (set_phase s t Active g)
                            | Inl e \<Rightarrow> set_phase s t Refused g)"
    using assms(2) by (rule answered_moveE)
  have "phase_ok (session_user t) s (answers g) (pending s (mailbox g))
     (hm_get (users (hub g)) (session_user t) = Some s) (session_phase t)"
    by (rule life_okD [OF assms(1) t(1)])
  then show ?thesis
    using assms(1) t by (cases res) (auto simp: life_ok_def g' set_phase_def)
qed

lemma frame_life_ok:
  assumes "life_ok g" and "frame_move parse s env body g = Some g'"
  shows "life_ok g'"
proof -
  obtain t where t: "sessions g s = Some t"
    and g': "g' = session_effects s (handle_text parse (session_user t) s env body)
       (g\<lparr>used_oneshots := insert (new_reply env) (used_oneshots g)\<rparr>)"
    using assms(2) by (auto elim: frame_moveE)
  have "filter lifecycle (routed (handle_text parse (session_user t) s env body)) = []"
    using handle_text_oneshots(2) by (simp add: filter_empty_conv)
  then have "pending s' (mailbox g') = pending s' (mailbox g)" for s' by (auto simp: g' pending_map)
  then show ?thesis using assms(1) unfolding life_ok_def g' by simp
qed

lemma hangup_life_ok:
  assumes "life_ok g" and "hangup_move parse s g = Some g'"
  shows "life_ok g'"
proof -
  obtain t where t: "sessions g s = Some t" "session_phase t = Active"
    and g': "g' = session_effects s (session_run parse (session_user t) s []) (set_phase s t Closed g)"
    using assms(2) by (auto simp: hangup_move_def split: option.splits if_splits)
  have "phase_ok (session_user t) s (answers g) (pending s (mailbox g))
     (hm_get (users (hub g)) (session_user t) = Some s) (session_phase t)"
    by (rule life_okD [OF assms(1) t(1)])
  then show ?thesis
    using assms(1) t by (auto simp: life_ok_def g' set_phase_def routed_run pending_Cons)
qed

lemma route_answers_kept:
  assumes "life_ok g" and "spoken_for g" and "handles_ok g" and "route_move env g = Some g'" and "mailbox g = (s, m) # q"
    and "sessions g s' = Some t'" and "session_phase t' = Registering c" and "\<forall>u. m \<noteq> RegisterUser u s c"
  shows "answers g' c = answers g c"
proof -
  obtain t where t: "sessions g s = Some t" "acts_for (session_user t) s m"
    using assms(2,5) unfolding spoken_for_def by (metis UnI1 list.set_intros(1))
  have "waiting g s' c" using assms(6,7) by (auto simp: waiting_def)
  then have "\<not> live g c" using assms(3) unfolding handles_ok_def by blast
  then show ?thesis
    using move_answers [OF assms(1,2), of parse iter "Route env" g' c] assms(4,5,8) t(2) by (auto simp: acts_for.simps)
qed

text \<open>The router handles the registration of the session \<open>s\<close>; what it means for any session \<open>s'\<close>.\<close>

lemma route_register_phase:
  assumes ok: "life_ok g" "spoken_for g" "handles_ok g" and mv: "route_move env g = Some g'"
    and mb: "mailbox g = (s, RegisterUser (session_user t) s c) # q" and t: "sessions g s = Some t" "sessions g s' = Some t'"
    and st: "router_step (hub g) (env, RegisterUser (session_user t) s c) = Inr (self, es)"
    and g': "g' = apply_effects es g1" "answers g1 = answers g"
    and users: "hm_get (users self) =
      fst (spec_run (hm_get (users (hub g))) (registry_view (RegisterUser (session_user t) s c)))"
  shows "phase_ok (session_user t') s' (answers g') (pending s' q)
     (hm_get (users self) (session_user t') = Some s') (session_phase t')"
proof -
  have pd: "session_phase t = Registering c" "answers g c = None" "pending s q = []"
    using phase_ok_register [OF life_okD [OF ok(1) t(1)], of "session_user t" s c] mb by (auto simp: pending_Cons)
  show ?thesis
  proof (cases "s' = s")
    case True
    have "answers g' c = Some (UnitReply (if hm_get (users (hub g)) (session_user t) = None then Inr ()
        else Inl ''User already online''))"
      using st pd(2) g'(2)
      by (auto simp: g'(1) apply_effects_def handle_register_user_def hm_contains_key_def split: if_splits)
    then show ?thesis
      using True t pd users life_okD [OF ok(1) t(1)] mb by (auto simp: pending_Cons split: if_splits)
  next
    case False
    have "c' \<noteq> c" if "session_phase t' = Registering c'" for c'
      using ok(3) that t pd(1) False unfolding handles_ok_def waiting_def by blast
    then have "phase_ok (session_user t') s' (answers g') ms h (session_phase t') =
        phase_ok (session_user t') s' (answers g) ms h (session_phase t')" for ms h
      using route_answers_kept [OF ok mv mb t(2)] by (intro phase_ok_answers) auto
    then show ?thesis
      using life_okD [OF ok(1) t(2)] users False mb by (auto simp: pending_Cons split: if_splits)
  qed
qed

lemma route_life_ok:
  assumes "life_ok g" and "provenance g" and "handles_ok g" and mv: "route_move env g = Some g'"
  shows "life_ok g'"
  using mv
proof (rule route_moveE)
  fix s m q self es
  assume mb: "mailbox g = (s, m) # q" and st: "router_step (hub g) (env, m) = Inr (self, es)"
    and g': "g' = apply_effects es (g\<lparr>hub := self, mailbox := q, handled := handled g @ [(s, m)],
       used_oneshots := insert (new_oneshot env) (used_oneshots g)\<rparr>)"
  have sp: "spoken_for g" using assms(2) by (simp add: provenance_def)
  obtain t where t: "sessions g s = Some t" "acts_for (session_user t) s m"
    using sp mb unfolding spoken_for_def by (metis UnI1 list.set_intros(1))
  note ok = life_okD [OF assms(1)]
  have users: "hm_get (users self) = fst (spec_run (hm_get (users (hub g))) (registry_view m))"
    using router_step_users [OF _ st] assms(2) by (simp add: provenance_def hub_ok_def)
  have "phase_ok (session_user t') s' (answers g') (pending s' q)
     (hm_get (users self) (session_user t') = Some s') (session_phase t')" if t': "sessions g s' = Some t'" for s' t'
  proof -
    have same: "phase_ok (session_user t') s' (answers g') ms h (session_phase t') =
        phase_ok (session_user t') s' (answers g) ms h (session_phase t')" if "\<forall>u c. m \<noteq> RegisterUser u s c" for ms h
      using route_answers_kept [OF assms(1) sp assms(3) mv mb t'] that by (intro phase_ok_answers) auto
    show ?thesis
    proof (cases m)
      case (RegisterUser u s0 c)
      then have m: "m = RegisterUser (session_user t) s c" using t(2) by simp
      show ?thesis
        by (rule route_register_phase [OF assms(1) sp assms(3) mv mb [unfolded m] t(1) t' st [unfolded m] g' _ users [unfolded m]]) simp
    next
      case (UnregisterUser u)
      have m: "m = UnregisterUser (session_user t)" using UnregisterUser t(2) by simp
      have pd: "session_phase t = Closed" "pending s q = []" "hm_get (users (hub g)) (session_user t) = Some s"
        using phase_ok_unregister [OF ok [OF t(1)], of "session_user t"] mb m by (auto simp: pending_Cons)
      show ?thesis
        using ok [OF t'] users m mb pd t(1) t' by (cases "s' = s") (auto simp: same pending_Cons)
    qed (use ok [OF t'] users mb same in \<open>auto simp: pending_Cons\<close>)
  qed
  then show ?thesis unfolding life_ok_def by (simp add: g')
qed

definition lives :: "GatewayState \<Rightarrow> bool" where
  "lives g \<longleftrightarrow> provenance g \<and> handles_ok g \<and> life_ok g"

lemma lives_init: "lives (gateway_init p)"
  using provenance_init [of p]
  by (simp add: lives_def handles_ok_def life_ok_def waiting_def live_def gateway_init_def)

lemma move_lives:
  assumes "hash_iter iter" and "lives g" and mv: "gateway_move parse iter g mv = Some g'"
  shows "lives g'"
proof -
  have g: "provenance g" "handles_ok g" "life_ok g" "spoken_for g" using assms(2) by (simp_all add: lives_def provenance_def)
  have "life_ok g'"
  proof (cases "session_move mv \<or> (\<exists>env. mv = Route env)")
    case True
    then show ?thesis
      using mv g
      by (cases mv) (auto intro: connect_life_ok route_life_ok answered_life_ok frame_life_ok hangup_life_ok)
  next
    case False
    have "answers g' c = answers g c" if "waiting g s c" for s c
      using room_finish_frame(7) [OF mv] False g(2) that unfolding handles_ok_def by blast
    then have "phase_ok u s (answers g') ms h (session_phase t) = phase_ok u s (answers g) ms h (session_phase t)"
      if "sessions g s = Some t" for u s ms h t
      using that by (intro phase_ok_answers) (auto simp: waiting_def)
    then show ?thesis
      using g(3) room_finish_frame(1-3) [OF mv] False unfolding life_ok_def by auto
  qed
  then show ?thesis
    using move_provenance [OF assms(1) g(1) mv] move_handles_ok [OF g(2,3,4) mv] by (simp add: lives_def)
qed

lemma reachable_lives: "reachable parse iter g \<Longrightarrow> hash_iter iter \<Longrightarrow> lives g"
  by (induction rule: reachable.induct) (auto intro: lives_init move_lives)

lemma reachable_life: "reachable parse iter g \<Longrightarrow> hash_iter iter \<Longrightarrow> life_ok g"
  using reachable_lives by (simp add: lives_def)

end
