(* ===== verification/System_Progress.thy ===== *)
theory System_Progress
  imports System_Lifecycle
begin

text \<open>
  The gauge of connections, the progress of the router, and the properties of the whole gateway.
\<close>

section \<open>The gauge\<close>

definition active_sessions :: "GatewayState \<Rightarrow> session_sender set" where
  "active_sessions g = {s. \<exists>t. sessions g s = Some t \<and> session_phase t = Active}"

lemma handle_text_gauge: "gauge_change (handle_text parse uid s env body) = 0"
  by (auto simp: gauge_change_def session_defs split: sum.splits ChatMessage.splits if_splits)

definition gauge_ok :: "GatewayState \<Rightarrow> bool" where
  "gauge_ok g \<longleftrightarrow> finite (dom (sessions g)) \<and> connections_active g = int (card (active_sessions g))"

lemma gauge_ok_same:
  "gauge_ok g \<Longrightarrow> sessions g' = sessions g \<Longrightarrow> connections_active g' = connections_active g \<Longrightarrow> gauge_ok g'"
  by (simp add: gauge_ok_def active_sessions_def)

lemma finite_active: "gauge_ok g \<Longrightarrow> finite (active_sessions g)"
  by (auto simp: gauge_ok_def active_sessions_def dom_def intro: finite_subset [rotated])

lemma connect_gauge:
  assumes "connect_move u s c g = Some g'" and "gauge_ok g"
  shows "gauge_ok g'"
proof -
  have "active_sessions g' = active_sessions g" "sessions g s = None"
    using assms(1) by (auto simp: active_sessions_def connect_move_def split: if_splits)
  then show ?thesis
    using assms by (auto simp: gauge_ok_def connect_move_def gauge_change_def session_new_def split: if_splits)
qed

lemma answered_gauge:
  assumes "answered_move s g = Some g'" and "gauge_ok g"
  shows "gauge_ok g'"
proof -
  obtain t c and res :: "(string, unit) result"
    where t: "sessions g s = Some t" "session_phase t = Registering c"
    and g': "g' = (case res of Inr _ \<Rightarrow> session_effects s [GaugeInc] (set_phase s t Active g)
                          | Inl e \<Rightarrow> set_phase s t Refused g)"
    using assms(1) by (auto elim: answered_moveE)
  have "active_sessions g' = (case res of Inr (_ :: unit) \<Rightarrow> insert s (active_sessions g) | Inl (_ :: string) \<Rightarrow> active_sessions g)"
    "s \<notin> active_sessions g"
    using t by (auto simp: active_sessions_def g' set_phase_def split: sum.splits)
  then show ?thesis
    using assms(2) finite_active [OF assms(2)]
    by (auto simp: gauge_ok_def g' set_phase_def gauge_change_def split: sum.splits)
qed

lemma hangup_gauge:
  assumes "hangup_move parse s g = Some g'" and "gauge_ok g"
  shows "gauge_ok g'"
proof -
  obtain t where t: "sessions g s = Some t" "session_phase t = Active"
    and g': "g' = session_effects s (session_run parse (session_user t) s []) (set_phase s t Closed g)"
    using assms(1) by (auto simp: hangup_move_def split: option.splits if_splits)
  have a: "active_sessions g' = active_sessions g - {s}" "s \<in> active_sessions g"
    using t by (auto simp: active_sessions_def g' set_phase_def)
  then have "int (card (active_sessions g')) = int (card (active_sessions g)) - 1"
    using card_Suc_Diff1 [OF finite_active [OF assms(2)] a(2)] by simp
  moreover have "connections_active g' = connections_active g - 1" "dom (sessions g') = dom (sessions g)"
    using t by (auto simp: g' set_phase_def gauge_change_def session_run_def)
  ultimately show ?thesis using assms(2) by (simp add: gauge_ok_def)
qed

lemma move_gauge:
  assumes mv: "gateway_move parse iter g mv = Some g'" and "gauge_ok g"
  shows "gauge_ok g'"
proof (cases mv)
  case (Connect u s c)
  then show ?thesis using mv connect_gauge [OF _ assms(2)] by simp
next
  case (Route env)
  then show ?thesis using mv by (intro gauge_ok_same [OF assms(2)]) (auto elim: route_moveE)
next
  case (Answered s)
  then show ?thesis using mv answered_gauge [OF _ assms(2)] by simp
next
  case (Frame s env body)
  then show ?thesis
    using mv by (intro gauge_ok_same [OF assms(2)])
      (auto simp: frame_move_def handle_text_gauge split: option.splits if_splits)
next
  case (Hangup s)
  then show ?thesis using mv hangup_gauge [OF _ assms(2)] by simp
qed (rule gauge_ok_same [OF assms(2) room_finish_frame(3,5) [OF mv]]; simp)+

lemma reachable_gauge:
  assumes "reachable parse iter g"
  shows "finite (dom (sessions g)) \<and> connections_active g = int (card (active_sessions g))"
proof -
  have "gauge_ok g"
    using assms
    by (induction rule: reachable.induct) (simp add: gauge_ok_def gateway_init_def active_sessions_def, rule move_gauge)
  then show ?thesis by (simp add: gauge_ok_def)
qed

section \<open>Progress\<close>

lemma finite_started: "finite {r. started es r \<noteq> None}"
proof (induction es)
  case Nil
  then show ?case by simp
next
  case (Cons e es)
  have "{r. started (e # es) r \<noteq> None} \<subseteq> (case e of Spawn (RunRoom r rid p) \<Rightarrow> {r} | _ \<Rightarrow> {}) \<union> {r. started es r \<noteq> None}"
    by (auto split: Effect.splits Task.splits if_splits elim!: started.elims)
  moreover have "finite (case e of Spawn (RunRoom r rid p) \<Rightarrow> {r} | _ \<Rightarrow> {})"
    by (auto split: Effect.splits Task.splits)
  ultimately show ?case using Cons.IH by (meson finite_UnI finite_subset)
qed

lemma finite_apply_effects: "finite (dom (room_tasks g)) \<Longrightarrow> finite (dom (room_tasks (apply_effects es g)))"
  by (rule finite_subset [OF _ finite_UnI [OF finite_started [of es]]])
     (auto simp: apply_effects_def split: option.splits)

lemma move_finite:
  assumes "gateway_move parse iter g mv = Some g'"
    and "finite (dom (room_tasks g)) \<and> finite (used_oneshots g)"
  shows "finite (dom (room_tasks g')) \<and> finite (used_oneshots g')"
proof (cases mv)
  case (Route env)
  then show ?thesis using assms by (auto elim!: route_moveE simp: finite_apply_effects)
next
  case (RoomTurn r now)
  then show ?thesis
    using assms by (auto split: option.splits list.splits elim!: room_moveE intro!: finite_apply_effects)
next
  case (RoomTick r closed)
  then show ?thesis
    using assms by (auto split: option.splits elim!: room_moveE intro!: finite_apply_effects)
next
  case (Finish i res)
  then show ?thesis
    using assms by (auto simp: finish_move_def split: if_splits intro!: finite_apply_effects)
qed (use assms in \<open>auto simp: gateway_move_defs
      split: if_splits option.splits Phase.splits Reply.splits sum.splits\<close>)

lemma reachable_finite:
  "reachable parse iter g \<Longrightarrow> finite (dom (room_tasks g)) \<and> finite (used_oneshots g)"
  by (induction rule: reachable.induct) (simp add: gateway_init_def, rule move_finite)

definition route_step :: "GatewayState \<Rightarrow> GatewayState \<Rightarrow> bool" where
  "route_step g g' \<longleftrightarrow> (\<exists>env. route_move env g = Some g')"

lemma route_possible:
  assumes "router_inv (hub g)" and "finite (dom (room_tasks g))" and "finite (used_oneshots g)"
    and "mailbox g = (s, m) # q"
  shows "\<exists>g'. route_step g g' \<and> mailbox g' = q \<and> handled g' = handled g @ [(s, m)] \<and> sessions g' = sessions g"
proof -
  obtain r where r: "room_tasks g r = None"
    using ex_new_if_finite [OF infinite_UNIV_nat assms(2)] by (metis domIff)
  obtain c where c: "c \<notin> used_oneshots g" using ex_new_if_finite [OF infinite_UNIV_nat assms(3)] by blast
  let ?env = "\<lparr>now_persist = 0, now_message = 0, new_room = r, new_oneshot = c, room_open = (\<lambda>_. True)\<rparr>"
  obtain self es where "router_step (hub g) (?env, m) = Inr (self, es)"
    using router_step_ok [OF assms(1)] by blast
  then have "\<exists>g'. route_move ?env g = Some g' \<and> mailbox g' = q \<and> handled g' = handled g @ [(s, m)] \<and> sessions g' = sessions g"
    using r c assms(4) by (simp add: route_move_def)
  then show ?thesis unfolding route_step_def by blast
qed

lemma reachable_route: "reachable parse iter g \<Longrightarrow> route_step g g' \<Longrightarrow> reachable parse iter g'"
  unfolding route_step_def by (metis gateway_move.simps(2) reachable.move)

lemma mailbox_drains:
  "reachable parse iter g \<Longrightarrow> hash_iter iter \<Longrightarrow>
   \<exists>g'. route_step\<^sup>*\<^sup>* g g' \<and> reachable parse iter g' \<and> mailbox g' = [] \<and> handled g' = handled g @ mailbox g \<and>
     sessions g' = sessions g"
proof (induction "mailbox g" arbitrary: g)
  case Nil
  then show ?case by (intro exI [of _ g]) simp
next
  case (Cons sm q)
  obtain s m where sm: "sm = (s, m)" by (cases sm)
  have "router_inv (hub g)"
    using reachable_provenance [OF Cons.prems] by (simp add: provenance_def hub_ok_def)
  then obtain g1 where g1: "route_step g g1" "mailbox g1 = q" "handled g1 = handled g @ [(s, m)]" "sessions g1 = sessions g"
    using route_possible [of g s m q] reachable_finite [OF Cons.prems(1)] Cons.hyps(2) sm by auto
  have "reachable parse iter g1" by (rule reachable_route [OF Cons.prems(1) g1(1)])
  from Cons.hyps(1) [OF g1(2) [symmetric] this Cons.prems(2)] show ?case
    using g1 Cons.hyps(2) sm by (auto intro: converse_rtranclp_into_rtranclp)
qed

section \<open>What follows of the invariants\<close>

lemma reachable_spoken:
  assumes "reachable parse iter g" and "hash_iter iter" and "(s, m) \<in> set (handled g)"
  shows "\<exists>t. sessions g s = Some t \<and> acts_for (session_user t) s m"
  using reachable_provenance [OF assms(1,2)] assms(3) unfolding provenance_def spoken_for_def by blast

lemma reachable_caused:
  assumes "reachable parse iter g" and "hash_iter iter" and "(s, cm) \<in> set (delivered g)"
  shows "caused (handled g) s cm"
  using reachable_provenance [OF assms(1,2)] assms(3) unfolding provenance_def deliveries_ok_def by blast

lemma reachable_phase:
  assumes "reachable parse iter g" and "hash_iter iter" and "sessions g s = Some t"
  shows "phase_ok (session_user t) s (answers g) (pending s (mailbox g))
       (hm_get (users (hub g)) (session_user t) = Some s) (session_phase t)"
  using reachable_life [OF assms(1,2)] assms(3) unfolding life_ok_def by blast

lemma registered_session:
  assumes "reachable parse iter g" and "hash_iter iter" and "hm_get (users (hub g)) u = Some s"
  shows "\<exists>t. sessions g s = Some t \<and> session_user t = u"
proof -
  obtain c where "(s, RegisterUser u s c) \<in> set (handled g)"
    using reachable_provenance [OF assms(1,2)] assms(3) unfolding provenance_def hub_ok_def by blast
  from reachable_spoken [OF assms(1,2) this] show ?thesis by auto
qed

text \<open>The phases of a session whose channel is in the table.\<close>

definition registered_phase :: "GatewayState \<Rightarrow> session_sender \<Rightarrow> SessionTask \<Rightarrow> bool" where
  "registered_phase g s t = (case session_phase t of
      Registering c \<Rightarrow> answers g c = Some (UnitReply (Inr ()))
    | Refused \<Rightarrow> False
    | Active \<Rightarrow> True
    | Closed \<Rightarrow> (s, UnregisterUser (session_user t)) \<in> set (mailbox g))"

lemma registered_phaseI:
  assumes "phase_ok (session_user t) s (answers g) (pending s (mailbox g)) True (session_phase t)"
  shows "registered_phase g s t"
proof (cases "session_phase t")
  case Closed
  then have "UnregisterUser (session_user t) \<in> set (pending s (mailbox g))" using assms by simp
  then show ?thesis using Closed by (auto simp: registered_phase_def pending_def)
next
  case (Registering c)
  then show ?thesis using assms by (auto simp: registered_phase_def split: option.splits Reply.splits sum.splits)
qed (use assms in \<open>auto simp: registered_phase_def\<close>)

lemma active_registered:
  assumes "reachable parse iter g" and "hash_iter iter" and "s \<in> active_sessions g" and "sessions g s = Some t"
  shows "hm_get (users (hub g)) (session_user t) = Some s"
  using reachable_phase [OF assms(1,2,4)] assms(3,4) by (simp add: active_sessions_def)

definition session_user_of :: "GatewayState \<Rightarrow> session_sender \<Rightarrow> TenantUserId" where
  "session_user_of g s = session_user (the (sessions g s))"

lemma active_users_inj:
  assumes "reachable parse iter g" and "hash_iter iter"
  shows "inj_on (session_user_of g) (active_sessions g)"
proof (rule inj_onI)
  fix s s' assume s: "s \<in> active_sessions g" "s' \<in> active_sessions g" "session_user_of g s = session_user_of g s'"
  obtain t t' where "sessions g s = Some t" "sessions g s' = Some t'"
    using s(1,2) unfolding active_sessions_def by blast
  with s active_registered [OF assms] show "s = s'"
    by (metis option.inject option.sel session_user_of_def)
qed

lemma drained_phase:
  assumes "phase_ok u s ans [] here (Registering c)"
  shows "\<exists>res. ans c = Some (UnitReply res)"
  using assms by (auto split: option.splits Reply.splits)

section \<open>Examples\<close>

text \<open>A run of given moves.\<close>

fun gateway_run ::
  "(string \<Rightarrow> (string, ChatMessage) result) \<Rightarrow>
   ((TenantUserId, session_sender) hash_map \<Rightarrow> (TenantUserId \<times> session_sender) list) \<Rightarrow>
   GatewayState \<Rightarrow> Move list \<Rightarrow> GatewayState option" where
  "gateway_run parse iter g [] = Some g"
| "gateway_run parse iter g (mv # mvs) =
     (case gateway_move parse iter g mv of None \<Rightarrow> None | Some g' \<Rightarrow> gateway_run parse iter g' mvs)"

lemma gateway_run_reachable:
  "reachable parse iter g \<Longrightarrow> gateway_run parse iter g mvs = Some g' \<Longrightarrow> reachable parse iter g'"
  by (induction mvs arbitrary: g) (auto split: option.splits intro: reachable.move)

abbreviation ann :: TenantUserId where "ann \<equiv> tenant_new ''p'' ''ann''"
abbreviation bob :: TenantUserId where "bob \<equiv> tenant_new ''p'' ''bob''"

definition example_parse :: "string \<Rightarrow> (string, ChatMessage) result" where
  "example_parse = table_parse [(''dm'', ChatMessage.SendDirectMessage ''c'' bob ''hi'' 3), (''join'', ChatMessage.JoinRoom ''lobby''),
     (''say'', ChatMessage.RoomMessage ''lobby'' ann ''yo'' 4), (''sync'', ChatMessage.SyncMessages ''p'' ''c'' 0)]"

definition fresh_env :: "nat \<Rightarrow> RouterEnv" where
  "fresh_env i = \<lparr>now_persist = 1, now_message = 2, new_room = 50 + i, new_oneshot = 60 + i, room_open = (\<lambda>_. True)\<rparr>"

definition frame_env :: "nat \<Rightarrow> SessionEnv" where
  "frame_env i = \<lparr>router_open = True, new_reply = 20 + i, now_v1 = 80\<rparr>"

text \<open>Ann writes to bob; ann joins a room, says something there, and leaves while bob is registering.\<close>

definition direct_moves :: "Move list" where
  "direct_moves = [Connect ann 1 10, Connect bob 2 11, Route (fresh_env 0), Route (fresh_env 1), Answered 1, Answered 2,
     Frame 1 (frame_env 0) ''dm'', Route (fresh_env 2)]"

definition room_moves :: "Move list" where
  "room_moves = [Connect ann 1 10, Route (fresh_env 0), Answered 1, Frame 1 (frame_env 0) ''join'', Route (fresh_env 1),
     RoomTurn 51 1, Frame 1 (frame_env 1) ''say'', Route (fresh_env 2), RoomTurn 51 2, Hangup 1, Connect bob 2 11]"

lemmas run_defs = gateway_init_def gateway_move_defs session_new_def session_effects_def
  apply_effects_def router_new_def handle_register_user_def fresh_env_def frame_env_def hm_contains_key_def
  example_parse_def table_parse_def session_defs router_handle_direct_message_def gauge_change_def

lemma direct_run:
  "\<exists>g. gateway_run example_parse id (gateway_init 0) direct_moves = Some g \<and>
     delivered g = [(2, DirectMessage ann ''hi'' 80 2)] \<and> connections_active g = 2"
  by (simp add: direct_moves_def run_defs)

lemma room_run:
  "\<exists>g. gateway_run example_parse id (gateway_init 0) room_moves = Some g \<and>
     (1, ChatMessage.RoomMessage ''lobby'' ann ''yo'' 80) \<in> set (delivered g) \<and>
     sessions g 1 = Some \<lparr>session_user = ann, session_phase = Closed\<rparr> \<and>
     hm_get (users (hub g)) ann = Some 1 \<and> sessions g 2 = Some \<lparr>session_user = bob, session_phase = Registering 11\<rparr>"
  by (simp add: room_moves_def run_defs router_defs handler_defs
      session_run_def room_new_def hm_insert_def hm_get_def)

lemma hash_iter_identity: "hash_iter id"
  by (simp add: hash_iter_def)

lemma example_reachable:
  "gateway_run example_parse id (gateway_init 0) mvs = Some g \<Longrightarrow> reachable example_parse id g"
  by (rule gateway_run_reachable [OF reachable.start])

section \<open>Properties\<close>

text \<open>
  C10. Direct messages are authentic and confidential, in every interleaving of the gateway's tasks:
  a direct message offered to a client as coming from a user was sent by a session authenticated as
  that user, with this content and id, and the client is a session of the user it was sent to.
\<close>

theorem direct_messages_authentic:
  assumes "reachable parse iter g" and "hash_iter iter"
    and "(s, DirectMessage from content mid ts) \<in> set (delivered g)"
  shows "\<exists>s' t' t conv c. (s', RouterMessage.SendDirectMessage conv from (session_user t) content mid c) \<in> set (handled g) \<and>
    sessions g s' = Some t' \<and> session_user t' = from \<and> sessions g s = Some t"
proof -
  obtain s' conv to c c' where m: "(s', RouterMessage.SendDirectMessage conv from to content mid c) \<in> set (handled g)"
    and r: "(s, RegisterUser to s c') \<in> set (handled g)"
    using reachable_caused [OF assms] by auto
  obtain t' t where "sessions g s' = Some t'" "session_user t' = from" "sessions g s = Some t" "session_user t = to"
    using reachable_spoken [OF assms(1,2) m] reachable_spoken [OF assms(1,2) r] by auto
  then show ?thesis using m by blast
qed

theorem direct_messages_authentic_witness:
  "\<exists>g s' t' t conv c. reachable example_parse id g \<and> sessions g 2 = Some t \<and>
    (s', RouterMessage.SendDirectMessage conv ann (session_user t) ''hi'' 80 c) \<in> set (handled g) \<and>
    sessions g s' = Some t' \<and> session_user t' = ann"
proof -
  obtain g where g: "gateway_run example_parse id (gateway_init 0) direct_moves = Some g"
    "(2, DirectMessage ann ''hi'' 80 2) \<in> set (delivered g)" using direct_run by auto
  have r: "reachable example_parse id g" by (rule example_reachable [OF g(1)])
  show ?thesis using direct_messages_authentic [OF r hash_iter_identity g(2)] r by blast
qed

text \<open>
  C15. Room messages are authentic and stay in the room, in every interleaving: a room message offered
  to a client was sent to that room by a session authenticated as the user it names, and the client
  itself has asked to join that room under its own user.
\<close>

theorem room_messages_authentic:
  assumes "reachable parse iter g" and "hash_iter iter"
    and "(s, ChatMessage.RoomMessage rid from content mid) \<in> set (delivered g)"
  shows "(\<exists>s' t' c. (s', SendRoomMessage rid from content mid c) \<in> set (handled g) \<and>
      sessions g s' = Some t' \<and> session_user t' = from) \<and>
    (\<exists>t c. sessions g s = Some t \<and> (s, RouterMessage.JoinRoom (session_user t) rid s c) \<in> set (handled g))"
proof -
  obtain s' c u c' where m: "(s', SendRoomMessage rid from content mid c) \<in> set (handled g)"
    and j: "(s, RouterMessage.JoinRoom u rid s c') \<in> set (handled g)"
    using reachable_caused [OF assms] by (auto simp: posted_def joined_def)
  show ?thesis using reachable_spoken [OF assms(1,2) m] reachable_spoken [OF assms(1,2) j] m j by auto
qed

theorem room_messages_authentic_witness:
  "\<exists>g t c. reachable example_parse id g \<and> sessions g 1 = Some t \<and>
    (1, RouterMessage.JoinRoom (session_user t) ''lobby'' 1 c) \<in> set (handled g)"
proof -
  obtain g where g: "gateway_run example_parse id (gateway_init 0) room_moves = Some g"
    "(1, ChatMessage.RoomMessage ''lobby'' ann ''yo'' 80) \<in> set (delivered g)" using room_run by auto
  have r: "reachable example_parse id g" by (rule example_reachable [OF g(1)])
  show ?thesis using room_messages_authentic [OF r hash_iter_identity g(2)] r by blast
qed

text \<open>
  C12. The table of online users is right in every interleaving: the channel of every running session
  is in it under the session's user, and every entry is the channel of a session of that user that
  is running, or about to run with the acceptance of its registration on the way, or finished with
  its removal in the router's mailbox.
\<close>

theorem presence_accurate:
  assumes "reachable parse iter g" and "hash_iter iter"
  shows "(\<forall>s t. sessions g s = Some t \<longrightarrow> session_phase t = Active \<longrightarrow>
      hm_get (users (hub g)) (session_user t) = Some s) \<and>
    (\<forall>u s. hm_get (users (hub g)) u = Some s \<longrightarrow>
      (\<exists>t. sessions g s = Some t \<and> session_user t = u \<and> registered_phase g s t))"
proof (intro conjI allI impI)
  fix s t assume "sessions g s = Some t" "session_phase t = Active"
  then show "hm_get (users (hub g)) (session_user t) = Some s" using reachable_phase [OF assms] by fastforce
next
  fix u s assume u: "hm_get (users (hub g)) u = Some s"
  then obtain t where t: "sessions g s = Some t" "session_user t = u" using registered_session [OF assms] by blast
  then show "\<exists>t. sessions g s = Some t \<and> session_user t = u \<and> registered_phase g s t"
    using reachable_phase [OF assms t(1)] u by (auto intro!: registered_phaseI)
qed

theorem presence_accurate_witness:
  "\<exists>g. reachable example_parse id g \<and> hm_get (users (hub g)) ann = Some 1 \<and>
    registered_phase g 1 \<lparr>session_user = ann, session_phase = Closed\<rparr>"
proof -
  obtain g where g: "gateway_run example_parse id (gateway_init 0) room_moves = Some g"
    "sessions g 1 = Some \<lparr>session_user = ann, session_phase = Closed\<rparr>" "hm_get (users (hub g)) ann = Some 1"
    using room_run by auto
  have r: "reachable example_parse id g" by (rule example_reachable [OF g(1)])
  show ?thesis using presence_accurate [OF r hash_iter_identity] r g by fastforce
qed



text \<open>
  C20. The router makes progress: from every reachable state it can take turns until its mailbox is
  empty, handling all messages in their order, and then every session that awaits the answer to its
  registration has one, and no finished session is left in the table.
\<close>

theorem router_progress:
  assumes "reachable parse iter g" and "hash_iter iter"
  shows "\<exists>g'. route_step\<^sup>*\<^sup>* g g' \<and> mailbox g' = [] \<and> handled g' = handled g @ mailbox g \<and>
    (\<forall>s t c. sessions g s = Some t \<longrightarrow> session_phase t = Registering c \<longrightarrow>
       (\<exists>res. answers g' c = Some (UnitReply res))) \<and>
    (\<forall>s t. sessions g s = Some t \<longrightarrow> session_phase t = Closed \<longrightarrow>
       hm_get (users (hub g')) (session_user t) \<noteq> Some s)"
proof -
  obtain g' where g': "route_step\<^sup>*\<^sup>* g g'" "reachable parse iter g'" "mailbox g' = []" "handled g' = handled g @ mailbox g"
    "sessions g' = sessions g"
    using mailbox_drains [OF assms] by blast
  have ok: "phase_ok (session_user t) s (answers g') []
      (hm_get (users (hub g')) (session_user t) = Some s) (session_phase t)" if "sessions g s = Some t" for s t
    using reachable_phase [OF g'(2) assms(2)] that g'(3,5) by (metis pending_Nil)
  show ?thesis
  proof (intro exI [of _ g'] conjI allI impI g')
    fix s t c assume "sessions g s = Some t" "session_phase t = Registering c"
    then show "\<exists>res. answers g' c = Some (UnitReply res)" using ok [of s t] drained_phase by metis
  next
    fix s t assume "sessions g s = Some t" "session_phase t = Closed"
    then show "hm_get (users (hub g')) (session_user t) \<noteq> Some s" using ok [of s t] by (auto split: if_splits)
  qed
qed

theorem router_progress_witness:
  "\<exists>g g' res. reachable example_parse id g \<and> hm_get (users (hub g)) ann = Some 1 \<and> route_step\<^sup>*\<^sup>* g g' \<and>
    answers g' 11 = Some (UnitReply res) \<and> hm_get (users (hub g')) ann \<noteq> Some 1"
proof -
  obtain g where g: "gateway_run example_parse id (gateway_init 0) room_moves = Some g"
    "sessions g 1 = Some \<lparr>session_user = ann, session_phase = Closed\<rparr>" "hm_get (users (hub g)) ann = Some 1"
    "sessions g 2 = Some \<lparr>session_user = bob, session_phase = Registering 11\<rparr>"
    using room_run by auto
  have r: "reachable example_parse id g" by (rule example_reachable [OF g(1)])
  obtain g' where g': "route_step\<^sup>*\<^sup>* g g'"
    "\<forall>s t c. sessions g s = Some t \<longrightarrow> session_phase t = Registering c \<longrightarrow> (\<exists>res. answers g' c = Some (UnitReply res))"
    "\<forall>s t. sessions g s = Some t \<longrightarrow> session_phase t = Closed \<longrightarrow> hm_get (users (hub g')) (session_user t) \<noteq> Some s"
    using router_progress [OF r hash_iter_identity] by (elim exE conjE) (rule that)
  have "\<exists>res. answers g' 11 = Some (UnitReply res)" using g'(2) g(4) by (metis SessionTask.select_convs(2))
  moreover have "hm_get (users (hub g')) ann \<noteq> Some 1" using g'(3) g(2) by (metis SessionTask.select_convs)
  ultimately show ?thesis using r g(3) g'(1) by blast
qed

end
