(* ===== verification/System_Order.thy ===== *)
theory System_Order
  imports System_Progress "HOL-Library.Sublist"
begin

text \<open>
  What the gateway delivers, and in which order, against an abstract specification.

  The specification of the direct messages is a sequential machine with one table and no channels: it
  takes the messages in the order the router handled them. The gateway, with all its tasks and in
  every interleaving, delivers exactly what this machine says, once each and in its order.
  Rooms run on their own, so their specification is per room and client: what a client is offered of
  a room is taken, in order and without repetition, from the messages handled for that room.
\<close>

section \<open>The specification of direct messages\<close>

fun spec_route ::
  "(TenantUserId \<rightharpoonup> session_sender) \<Rightarrow> RouterMessage \<Rightarrow>
   (TenantUserId \<rightharpoonup> session_sender) \<times> (session_sender \<times> TenantUserId \<times> string \<times> uuid) list" where
  "spec_route on (RegisterUser u s c) = (if on u = None then on(u \<mapsto> s) else on, [])"
| "spec_route on (UnregisterUser u) = (on(u := None), [])"
| "spec_route on (RouterMessage.SendDirectMessage conv from to content mid c) =
     (on, case on to of None \<Rightarrow> [] | Some s \<Rightarrow> [(s, from, content, mid)])"
| "spec_route on _ = (on, [])"

fun spec_replay ::
  "(TenantUserId \<rightharpoonup> session_sender) \<Rightarrow> RouterMessage list \<Rightarrow>
   (TenantUserId \<rightharpoonup> session_sender) \<times> (session_sender \<times> TenantUserId \<times> string \<times> uuid) list" where
  "spec_replay on [] = (on, [])"
| "spec_replay on (m # ms) =
     (let (on', ds) = spec_route on m; (on'', ds') = spec_replay on' ms in (on'', ds @ ds'))"

lemma spec_replay_snoc:
  "spec_replay on (ms @ [m]) =
     (let (on', ds) = spec_replay on ms; (on'', ds') = spec_route on' m in (on'', ds @ ds'))"
  by (induction ms arbitrary: on) (simp_all add: split_beta Let_def)

text \<open>The direct messages among what was offered to the clients, without the reading of the clock.\<close>

fun direct_part :: "(session_sender \<times> ChatMessage) list \<Rightarrow> (session_sender \<times> TenantUserId \<times> string \<times> uuid) list" where
  "direct_part [] = []"
| "direct_part ((s, DirectMessage from content mid ts) # xs) = (s, from, content, mid) # direct_part xs"
| "direct_part (_ # xs) = direct_part xs"

lemma direct_part_append [simp]: "direct_part (xs @ ys) = direct_part xs @ direct_part ys"
  by (induction xs rule: direct_part.induct) auto

lemma direct_part_broadcast [simp]:
  "direct_part (map (\<lambda>(k, s). (s, ChatMessage.RoomMessage rid from content mid)) kvs) = []"
  by (induction kvs) auto

lemma spec_route_users: "fst (spec_route on m) = fst (spec_run on (registry_view m))"
  by (cases m) auto

lemma router_direct_part:
  assumes "router_step self (env, m) = Inr (self', es)"
  shows "direct_part (try_sends es) = snd (spec_route (hm_get (users self)) m)"
  using assms by (cases m) (auto simp: router_defs Let_def split: option.splits if_splits sum.splits)

lemma router_step_spec:
  assumes "router_inv self" and "router_step self (env, m) = Inr (self', es)"
  shows "(hm_get (users self'), direct_part (try_sends es)) = spec_route (hm_get (users self)) m"
  by (simp add: prod_eq_iff spec_route_users router_step_users [OF assms] router_direct_part [OF assms(2)])

lemma room_turn_no_direct:
  assumes "room_step iter a i = Inr (a', es)"
  shows "direct_part (try_sends es) = []"
  using assms
  by (cases i) (auto simp: handler_defs split: if_splits option.splits elim!: room_handle_message.elims)

definition direct_ok :: "GatewayState \<Rightarrow> bool" where
  "direct_ok g \<longleftrightarrow>
     (hm_get (users (hub g)), direct_part (delivered g)) = spec_replay Map.empty (map snd (handled g))"

text \<open>What a step that is not the router's adds to the deliveries.\<close>

lemma other_move_delivered:
  assumes "gateway_move parse iter g mv = Some g'" and "\<forall>env. mv \<noteq> Route env"
  shows "handled g' = handled g \<and> hub g' = hub g \<and> (delivered g' = delivered g \<or>
    (\<exists>r a q now m a' es. mv = RoomTurn r now \<and> room_tasks g r = Some (a, m # q) \<and>
       room_step iter a (Recv now m) = Inr (a', es) \<and> delivered g' = delivered g @ try_sends es))"
proof (cases mv)
  case (RoomTurn r now)
  then obtain a m q where t: "room_tasks g r = Some (a, m # q)" "room_move iter r (Recv now m) q a g = Some g'"
    using assms(1) by (auto simp del: room_step.simps split: option.splits list.splits)
  from t(2) show ?thesis
    by (rule room_moveE) (use RoomTurn t(1) in \<open>fastforce simp del: room_step.simps\<close>)
next
  case (RoomTick r closed)
  then show ?thesis using assms(1) by (auto simp: room_move_def split: option.splits)
next
  case (Finish i res)
  then show ?thesis
    using assms(1) by (auto simp: finish_move_def task_effects_mail split: if_splits)
qed (use assms session_move_quiet [OF assms(1)] in auto)

lemma move_direct_ok:
  assumes "router_inv (hub g)" and "direct_ok g" and mv: "gateway_move parse iter g mv = Some g'"
  shows "direct_ok g'"
proof (cases "\<exists>env. mv = Route env")
  case True
  then obtain env where "route_move env g = Some g'" using mv by auto
  then show ?thesis
  proof (rule route_moveE)
    fix s m q self es
    assume st: "router_step (hub g) (env, m) = Inr (self, es)"
      and g': "g' = apply_effects es (g\<lparr>hub := self, mailbox := q, handled := handled g @ [(s, m)],
         used_oneshots := insert (new_oneshot env) (used_oneshots g)\<rparr>)"
    show ?thesis
      using assms(2) router_step_spec [OF assms(1) st]
      by (simp add: direct_ok_def g' spec_replay_snoc split_beta prod_eq_iff)
  qed
next
  case False
  then show ?thesis
    using other_move_delivered [OF mv] assms(2)
    by (auto simp del: room_step.simps simp: direct_ok_def room_turn_no_direct)
qed

lemma reachable_router_inv: "reachable parse iter g \<Longrightarrow> hash_iter iter \<Longrightarrow> router_inv (hub g)"
  using reachable_provenance by (auto simp: provenance_def hub_ok_def)

lemma reachable_direct_ok: "reachable parse iter g \<Longrightarrow> hash_iter iter \<Longrightarrow> direct_ok g"
proof (induction rule: reachable.induct)
  case (start p)
  then show ?case by (simp add: direct_ok_def gateway_init_def router_new_def fun_eq_iff)
next
  case (move g mv g')
  then show ?case using move_direct_ok reachable_router_inv by blast
qed

section \<open>The order of room messages\<close>

text \<open>The messages handled for a room, those waiting in a room's mailbox, and those a client was offered of a room.\<close>

fun room_posts :: "string \<Rightarrow> (session_sender \<times> RouterMessage) list \<Rightarrow> (TenantUserId \<times> string \<times> uuid) list" where
  "room_posts rid [] = []"
| "room_posts rid ((s, SendRoomMessage rid' from content mid c) # h) =
     (if rid' = rid then (from, content, mid) # room_posts rid h else room_posts rid h)"
| "room_posts rid (_ # h) = room_posts rid h"

fun queued_posts :: "RoomMessage list \<Rightarrow> (TenantUserId \<times> string \<times> uuid) list" where
  "queued_posts [] = []"
| "queued_posts (SendMessage from content mid c # q) = (from, content, mid) # queued_posts q"
| "queued_posts (_ # q) = queued_posts q"

fun room_part :: "string \<Rightarrow> session_sender \<Rightarrow> (session_sender \<times> ChatMessage) list \<Rightarrow> (TenantUserId \<times> string \<times> uuid) list" where
  "room_part rid s [] = []"
| "room_part rid s ((s', ChatMessage.RoomMessage rid' from content mid) # xs) =
     (if s' = s \<and> rid' = rid then (from, content, mid) # room_part rid s xs else room_part rid s xs)"
| "room_part rid s (_ # xs) = room_part rid s xs"

lemma room_posts_append [simp]: "room_posts rid (h @ h') = room_posts rid h @ room_posts rid h'"
  by (induction rid h rule: room_posts.induct) auto

lemma queued_posts_append [simp]: "queued_posts (q @ q') = queued_posts q @ queued_posts q'"
  by (induction q rule: queued_posts.induct) auto

lemma room_part_append [simp]: "room_part rid s (xs @ ys) = room_part rid s xs @ room_part rid s ys"
  by (induction rid s xs rule: room_part.induct) auto

lemma room_part_broadcast:
  "room_part rid s (map (\<lambda>(k, s'). (s', ChatMessage.RoomMessage rid' from content mid)) kvs) =
     (if rid' = rid then replicate (length (filter (\<lambda>(k, s'). s' = s) kvs)) (from, content, mid) else [])"
  by (induction kvs) auto

lemma router_no_room_part:
  "router_step self (env, m) = Inr (self', es) \<Longrightarrow> room_part rid s (try_sends es) = []"
  by (cases m) (auto simp: router_defs Let_def split: option.splits if_splits sum.splits)

text \<open>The mail of one turn of the router, as far as it holds room messages.\<close>

lemma router_posts:
  assumes "router_step self (env, m) = Inr (self', es)" and "\<And>rid'. hm_get (rooms self) rid' = Some r \<Longrightarrow> rid' = rid"
  shows "subseq (queued_posts (room_mail r es)) (room_posts rid [(s, m)])"
  using assms by (cases m) (auto simp: router_defs Let_def split: option.splits if_splits sum.splits)

lemma router_starts_empty:
  assumes "router_step self (env, m) = Inr (self', es)" and "started es r = Some a"
  shows "hm_get (rooms self) (room_id a) = None \<and> hm_get (rooms self') (room_id a) = Some r \<and>
    queued_posts (room_mail r es) = []"
  using assms by (cases m) (auto simp: router_defs Let_def room_new_def split: option.splits if_splits sum.splits)

text \<open>
  What a turn of a room adds to the deliveries of one client: the message it took from its mailbox, at
  most once when the client's channel is in the table at most once, and nothing of another room.
\<close>

lemma room_turn_part:
  assumes "hash_iter iter" and "length (filter (\<lambda>(k, s'). s' = s) (members a)) \<le> 1"
    and "room_step iter a (Recv now m) = Inr (a', es)"
  shows "subseq (room_part (room_id a) s (try_sends es)) (queued_posts [m])"
    and "rid \<noteq> room_id a \<Longrightarrow> room_part rid s (try_sends es) = []"
proof -
  have len: "length (filter (\<lambda>(k, s'). s' = s) (iter (members a))) \<le> 1"
    using assms(2) by (simp add: length_filter_iter [OF assms(1)])
  have one: "subseq (replicate n x) [x]" if "n \<le> 1" for n :: nat and x :: "TenantUserId \<times> string \<times> uuid"
    using that by (cases n) auto
  show "subseq (room_part (room_id a) s (try_sends es)) (queued_posts [m])"
    using assms(3) one [OF len]
    by (cases m) (auto simp: handler_defs room_part_broadcast split: if_splits option.splits)
  show "rid \<noteq> room_id a \<Longrightarrow> room_part rid s (try_sends es) = []"
    using assms(3) by (cases m) (auto simp: handler_defs room_part_broadcast split: if_splits option.splits)
qed

lemma same_elements_short:
  assumes "\<And>x y. x \<in> set xs \<Longrightarrow> y \<in> set xs \<Longrightarrow> x = y" and "distinct xs"
  shows "length xs \<le> 1"
  using assms(1) card_le_Suc0_iff_eq [of "set xs"] distinct_card [OF assms(2)] by auto

text \<open>A client is in the table of a room at most once, since it joins under its own user only.\<close>

lemma member_once:
  assumes "provenance g" and "room_tasks g r = Some (a, q)"
  shows "length (filter (\<lambda>(k, s'). s' = s) (members a)) \<le> 1"
proof -
  have ok: "room_ok (handled g) a q" using assms by (auto simp: provenance_def rooms_ok_def)
  have wf: "hm_wf (members a)" using ok by (simp add: room_ok_def room_inv_def)
  have user: "\<exists>t. sessions g s = Some t \<and> session_user t = u" if mem: "(u, s) \<in> set (members a)" for u
  proof -
    obtain c where "(s, RouterMessage.JoinRoom u (room_id a) s c) \<in> set (handled g)"
      using ok mem hm_get_Some_iff [OF wf, of u s] unfolding room_ok_def joined_def by blast
    then show ?thesis using assms(1) unfolding provenance_def spoken_for_def by fastforce
  qed
  let ?l = "filter (\<lambda>(k, s'). s' = s) (members a)"
  have "x = y" if xy: "x \<in> set ?l" "y \<in> set ?l" for x y
  proof -
    obtain u u' where u: "x = (u, s)" "y = (u', s)" "(u, s) \<in> set (members a)" "(u', s) \<in> set (members a)"
      by (cases x, cases y) (use xy in auto)
    show ?thesis using user [OF u(3)] user [OF u(4)] u(1,2) by auto
  qed
  moreover have "distinct ?l" using wf by (simp add: hm_wf_def distinct_map)
  ultimately show ?thesis by (rule same_elements_short)
qed

definition order_ok :: "GatewayState \<Rightarrow> bool" where
  "order_ok g \<longleftrightarrow>
     (\<forall>r a q. room_tasks g r = Some (a, q) \<longrightarrow> hm_get (rooms (hub g)) (room_id a) = Some r \<and>
        (\<forall>s. subseq (room_part (room_id a) s (delivered g) @ queued_posts q) (room_posts (room_id a) (handled g)))) \<and>
     (\<forall>rid s. hm_get (rooms (hub g)) rid = None \<longrightarrow> room_part rid s (delivered g) = [])"

lemma order_okD:
  assumes "order_ok g" and "room_tasks g r = Some (a, q)"
  shows "hm_get (rooms (hub g)) (room_id a) = Some r"
    and "subseq (room_part (room_id a) s (delivered g) @ queued_posts q) (room_posts (room_id a) (handled g))"
  using assms by (auto simp: order_ok_def)

lemma route_order_ok:
  assumes "hub_ok g" and "order_ok g" and mv: "route_move env g = Some g'"
  shows "order_ok g'"
  using mv
proof (rule route_moveE)
  fix s m q0 self es
  assume st: "router_step (hub g) (env, m) = Inr (self, es)"
    and g': "g' = apply_effects es (g\<lparr>hub := self, mailbox := q0, handled := handled g @ [(s, m)],
       used_oneshots := insert (new_oneshot env) (used_oneshots g)\<rparr>)"
  have inv: "router_inv (hub g)" using assms(1) by (simp add: hub_ok_def)
  have grow: "hm_get (rooms (hub g)) \<subseteq>\<^sub>m hm_get (rooms self)" using router_step_frame [OF inv st] by blast
  have part: "room_part rid s' (delivered g') = room_part rid s' (delivered g)" for rid s'
    by (simp add: g' router_no_room_part [OF st])
  have room: "hm_get (rooms self) (room_id a) = Some r \<and>
      subseq (room_part (room_id a) s' (delivered g') @ queued_posts q) (room_posts (room_id a) (handled g'))"
    if a: "room_tasks g' r = Some (a, q)" for r a q s'
  proof (cases "started es r")
    case None
    then obtain q1 where q1: "room_tasks g r = Some (a, q1)" "q = q1 @ room_mail r es"
      using a g' by (auto simp: apply_effects_def)
    have "subseq (queued_posts (room_mail r es)) (room_posts (room_id a) [(s, m)])"
      using assms(1) q1(1) by (intro router_posts [OF st]) (fastforce simp: hub_ok_def)
    from list_emb_append_mono [OF order_okD(2) [OF assms(2) q1(1), of s'] this]
    have "subseq (room_part (room_id a) s' (delivered g') @ queued_posts q) (room_posts (room_id a) (handled g'))"
      by (simp only: part q1(2)) (simp add: g')
    then show ?thesis using order_okD(1) [OF assms(2) q1(1)] grow by (auto simp: map_le_def dom_def)
  next
    case (Some a0)
    then have "a = a0" "q = room_mail r es" using a g' by (auto simp: apply_effects_def)
    then show ?thesis using router_starts_empty [OF st Some] assms(2) by (simp add: part order_ok_def)
  qed
  have "hm_get (rooms (hub g)) rid = None" if "hm_get (rooms self) rid = None" for rid
    using grow that by (metis domIff map_le_def)
  then show ?thesis using room assms(2) part unfolding order_ok_def by (simp add: g')
qed

lemma room_turn_order_ok:
  assumes "hash_iter iter" and "provenance g" and "order_ok g" and t: "room_tasks g r = Some (a, m # q)"
    and mv: "room_move iter r (Recv now m) q a g = Some g'"
  shows "order_ok g'"
  using mv
proof (rule room_moveE)
  fix a' es
  assume st: "room_step iter a (Recv now m) = Inr (a', es)"
    and g': "g' = apply_effects es (g\<lparr>room_tasks := (room_tasks g)(r \<mapsto> (a', q))\<rparr>)"
  have tasks: "room_tasks g' = (room_tasks g)(r \<mapsto> (a', q))"
    unfolding g' by (subst apply_effects_no_mail) (simp_all add: room_turn_effects [OF st])
  have frame: "room_id a' = room_id a" using room_step_frame [OF st] by simp
  note own = order_okD(1) [OF assms(3)]
  note turn = room_turn_part [OF assms(1) member_once [OF assms(2) t] st]
  have here: "subseq (room_part (room_id a) s (delivered g') @ queued_posts q) (room_posts (room_id a) (handled g))" for s
  proof -
    have "subseq (room_part (room_id a) s (try_sends es) @ queued_posts q) (queued_posts (m # q))"
      using list_emb_append_mono [OF turn(1) [of s], of "queued_posts q" "queued_posts q"]
        queued_posts_append [of "[m]" q] by simp
    then have "subseq (room_part (room_id a) s (delivered g') @ queued_posts q)
        (room_part (room_id a) s (delivered g) @ queued_posts (m # q))" by (simp add: g' subseq_append')
    then show ?thesis using order_okD(2) [OF assms(3) t, of s] by (rule subseq_order.trans)
  qed
  have elsewhere: "room_part rid s (delivered g') = room_part rid s (delivered g)" if "rid \<noteq> room_id a" for rid s
    using turn(2) [OF that, of s] by (simp add: g')
  have room: "hm_get (rooms (hub g)) (room_id b) = Some r' \<and>
      subseq (room_part (room_id b) s (delivered g') @ queued_posts q') (room_posts (room_id b) (handled g))"
    if b: "room_tasks g' r' = Some (b, q')" for r' b q' s
  proof (cases "r' = r")
    case True
    then show ?thesis using b tasks frame here own [OF t] by auto
  next
    case False
    then have b': "room_tasks g r' = Some (b, q')" using b tasks by simp
    have "room_id b \<noteq> room_id a" using own [OF t] own [OF b'] False by auto
    then show ?thesis using elsewhere order_okD [OF assms(3) b'] by simp
  qed
  have "room_part rid s (delivered g') = []" if "hm_get (rooms (hub g)) rid = None" for rid s
    using assms(3) elsewhere [of rid s] own [OF t] that unfolding order_ok_def by force
  then show ?thesis using room unfolding order_ok_def by (simp add: g')
qed

lemma order_ok_same:
  assumes "order_ok g" and "hub g' = hub g" "handled g' = handled g" "delivered g' = delivered g"
    and "\<And>r a q. room_tasks g' r = Some (a, q) \<Longrightarrow> \<exists>b. room_tasks g r = Some (b, q) \<and> room_id a = room_id b"
  shows "order_ok g'"
  unfolding order_ok_def assms(2-4)
proof (intro conjI allI impI)
  fix r a q s
  assume "room_tasks g' r = Some (a, q)"
  then obtain b where b: "room_tasks g r = Some (b, q)" "room_id a = room_id b" using assms(5) by blast
  show "hm_get (rooms (hub g)) (room_id a) = Some r"
    "subseq (room_part (room_id a) s (delivered g) @ queued_posts q) (room_posts (room_id a) (handled g))"
    unfolding b(2) by (rule order_okD [OF assms(1) b(1)])+
qed (use assms(1) in \<open>simp add: order_ok_def\<close>)

lemma move_order_ok:
  assumes "hash_iter iter" and "provenance g" and "order_ok g" and mv: "gateway_move parse iter g mv = Some g'"
  shows "order_ok g'"
proof (cases mv)
  case (Route env)
  then show ?thesis using mv route_order_ok [OF _ assms(3)] assms(2) by (simp add: provenance_def)
next
  case (RoomTurn r now)
  then obtain a m q where "room_tasks g r = Some (a, m # q)" "room_move iter r (Recv now m) q a g = Some g'"
    using mv by (auto simp del: room_step.simps split: option.splits list.splits)
  then show ?thesis by (rule room_turn_order_ok [OF assms(1-3)])
next
  case (RoomTick r closed)
  then show ?thesis
    using mv by (intro order_ok_same [OF assms(3)])
      (auto simp: room_move_def apply_effects_def room_cleanup_def split: option.splits if_splits)
next
  case (Finish i res)
  then obtain es where es: "task_effects (answers g) (spawned g ! i) res = Some es"
    and g': "g' = apply_effects es (g\<lparr>spawned := take i (spawned g) @ drop (Suc i) (spawned g)\<rparr>)"
    using mv by (auto simp: finish_move_def split: if_splits)
  show ?thesis
    unfolding g' by (rule order_ok_same [OF assms(3)])
      (simp_all add: task_effects_mail [OF es] apply_effects_no_mail)
qed (use session_move_quiet [OF mv] in \<open>intro order_ok_same [OF assms(3)]; simp\<close>)+

lemma reachable_order_ok: "reachable parse iter g \<Longrightarrow> hash_iter iter \<Longrightarrow> order_ok g"
proof (induction rule: reachable.induct)
  case (start p)
  then show ?case by (simp add: order_ok_def gateway_init_def)
next
  case (move g mv g')
  then show ?case using move_order_ok reachable_provenance by blast
qed

section \<open>Properties\<close>

text \<open>
  C7. Direct messages are delivered exactly: in every interleaving of the gateway's tasks, the table of
  online users and the sequence of direct messages offered to clients are those the sequential
  specification computes from the messages the router has handled, in the order it handled them. So
  each message to a user who is online at its turn is offered once, to that user's session and to no
  other, none is made up, and no two are exchanged.
\<close>

theorem direct_messages_exact:
  assumes "reachable parse iter g" and "hash_iter iter"
  shows "(hm_get (users (hub g)), direct_part (delivered g)) = spec_replay Map.empty (map snd (handled g))"
  using reachable_direct_ok [OF assms] by (simp add: direct_ok_def)

theorem direct_messages_exact_witness:
  "\<exists>g on. reachable example_parse id g \<and> mailbox g = [] \<and> length (handled g) = 3 \<and>
    spec_replay Map.empty (map snd (handled g)) = (on, [(2, ann, ''hi'', 80)])"
proof -
  obtain g where g: "gateway_run example_parse id (gateway_init 0) direct_moves = Some g"
    "delivered g = [(2, DirectMessage ann ''hi'' 80 2)]" "mailbox g = []" "length (handled g) = 3"
    by (simp add: direct_moves_def run_defs)
  have r: "reachable example_parse id g" by (rule example_reachable [OF g(1)])
  show ?thesis using direct_messages_exact [OF r hash_iter_identity] r g by (metis direct_part.simps(1,2))
qed

text \<open>The room messages that wait in the mailbox of a room's actor.\<close>

definition waiting_posts :: "GatewayState \<Rightarrow> string \<Rightarrow> (TenantUserId \<times> string \<times> uuid) list" where
  "waiting_posts g rid =
     (case Option.bind (hm_get (rooms (hub g)) rid) (room_tasks g) of
        None \<Rightarrow> []
      | Some (a, q) \<Rightarrow> queued_posts q)"

lemma reachable_room_fifo:
  assumes "reachable parse iter g" and "hash_iter iter"
  shows "subseq (room_part rid s (delivered g) @ waiting_posts g rid) (room_posts rid (handled g))"
proof (cases "hm_get (rooms (hub g)) rid")
  case None
  then show ?thesis
    using reachable_order_ok [OF assms] by (simp add: order_ok_def waiting_posts_def)
next
  case (Some r)
  then obtain a q where "room_tasks g r = Some (a, q)" "room_id a = rid"
    using reachable_provenance [OF assms] unfolding provenance_def hub_ok_def by blast
  then show ?thesis
    using order_okD(2) [OF reachable_order_ok [OF assms]] Some by (auto simp: waiting_posts_def)
qed

lemma reachable_room_order:
  assumes "reachable parse iter g" and "hash_iter iter"
  shows "subseq (room_part rid s (delivered g)) (room_posts rid (handled g))"
  using reachable_room_fifo [OF assms, of rid s] by (rule subseq_order.trans [OF subseq_rev_drop_many [OF subseq_order.refl]])

text \<open>
  C11. Rooms are first in, first out: in every interleaving, what a client is offered of a room,
  followed by what still waits in the room's mailbox, is taken in order from the messages the router
  has handled for that room, each of them at most once. So no client sees a room message twice, out of
  order, or before an earlier one that it sees later.
\<close>

theorem room_messages_fifo:
  assumes "reachable parse iter g" and "hash_iter iter"
  shows "subseq (room_part rid s (delivered g) @ waiting_posts g rid) (room_posts rid (handled g))"
  by (rule reachable_room_fifo [OF assms])

theorem room_messages_fifo_witness:
  "\<exists>g. reachable example_parse id g \<and> room_part ''lobby'' 1 (delivered g) = [(ann, ''yo'', 80)] \<and>
    subseq [(ann, ''yo'', 80)] (room_posts ''lobby'' (handled g))"
proof -
  obtain g where g: "gateway_run example_parse id (gateway_init 0) room_moves = Some g"
    "room_part ''lobby'' 1 (delivered g) = [(ann, ''yo'', 80)]" "waiting_posts g ''lobby'' = []"
    by (simp add: room_moves_def run_defs router_defs handler_defs waiting_posts_def
        session_run_def room_new_def hm_insert_def hm_get_def)
  have r: "reachable example_parse id g" by (rule example_reachable [OF g(1)])
  show ?thesis using room_messages_fifo [OF r hash_iter_identity, of "''lobby''" 1] r g by auto
qed

end
