(* ===== verification/System_Acks.thy ===== *)
theory System_Acks
  imports System_Order
begin

text \<open>
  Acknowledgements: each reply channel belongs to one message, an acknowledgement that arrives on it
  names that message, and it says \<^verbatim>\<open>Persisted\<close> only when the write of exactly that message
  succeeded. The invariant \<open>acks_ok\<close> ties the spawned write tasks, the room mailboxes and
  the answers to the messages the router has handled.
\<close>

section \<open>Reply channels\<close>

fun reply_channel :: "RouterMessage \<Rightarrow> oneshot option" where
  "reply_channel (RegisterUser u s c) = Some c"
| "reply_channel (UnregisterUser u) = None"
| "reply_channel (RouterMessage.SendDirectMessage conv from to content mid c) = c"
| "reply_channel (GetOnlineUsers c) = Some c"
| "reply_channel (RouterMessage.GetPaginatedMessages pid mid conv c) = Some c"
| "reply_channel (RouterMessage.JoinRoom u rid s c) = Some c"
| "reply_channel (RouterMessage.LeaveRoom u rid) = None"
| "reply_channel (SendRoomMessage rid from content mid c) = c"
| "reply_channel (GetRoomMembers rid c) = Some c"
| "reply_channel (RouterMessage.SyncMessages pid conv mid c) = Some c"

text \<open>The reply channels of all messages sent so far, in their order.\<close>

definition reply_channels :: "(session_sender \<times> RouterMessage) list \<Rightarrow> oneshot list" where
  "reply_channels ms = List.map_filter (\<lambda>(s, m). reply_channel m) ms"

lemma reply_channels_append [simp]: "reply_channels (xs @ ys) = reply_channels xs @ reply_channels ys"
  by (simp add: reply_channels_def map_filter_def)

lemma reply_channels_simps [simp]:
  "reply_channels [] = []"
  "reply_channels ((s, m) # ms) = (case reply_channel m of None \<Rightarrow> [] | Some c \<Rightarrow> [c]) @ reply_channels ms"
  by (simp_all add: reply_channels_def map_filter_def split: option.splits)

lemma in_reply_channels: "(s, m) \<in> set ms \<Longrightarrow> reply_channel m = Some c \<Longrightarrow> c \<in> set (reply_channels ms)"
  by (force simp: reply_channels_def map_filter_def)

lemma reply_channels_unique:
  assumes "distinct (reply_channels ms)" and "(s, m) \<in> set ms" "(s', m') \<in> set ms"
    and "reply_channel m = Some c" "reply_channel m' = Some c"
  shows "(s', m') = (s, m)"
  using assms
proof (induction ms)
  case (Cons sm ms)
  then show ?case using in_reply_channels [of _ _ ms c] by (cases sm) (force split: option.splits)
qed simp

lemma handle_text_channels:
  "reply_channels (map (Pair s) (routed (handle_text parse uid s' env body))) \<in> {[], [new_reply env]}"
  by (auto simp: session_defs split: sum.splits ChatMessage.splits if_splits)

definition channels_ok :: "GatewayState \<Rightarrow> bool" where
  "channels_ok g \<longleftrightarrow> distinct (reply_channels (handled g @ mailbox g)) \<and>
     set (reply_channels (handled g @ mailbox g)) \<subseteq> used_oneshots g"

lemma move_channels_ok:
  assumes mv: "gateway_move parse iter g mv = Some g'" and "channels_ok g"
  shows "channels_ok g'"
proof (cases mv)
  case (Connect u s c)
  then show ?thesis
    using assms by (auto simp: connect_move_def channels_ok_def routed_new split: if_splits)
next
  case (Route env)
  then show ?thesis using assms by (auto elim!: route_moveE simp: channels_ok_def)
next
  case (Answered s)
  then show ?thesis
    using assms by (auto simp: answered_move_def channels_ok_def set_phase_def
        split: option.splits Phase.splits Reply.splits sum.splits)
next
  case (Frame s env body)
  then obtain t where "sessions g s = Some t" and new: "new_reply env \<notin> used_oneshots g"
    and g': "g' = session_effects s (handle_text parse (session_user t) s env body)
       (g\<lparr>used_oneshots := insert (new_reply env) (used_oneshots g)\<rparr>)"
    using mv by (auto elim: frame_moveE)
  show ?thesis
    using assms(2) new handle_text_channels [of s parse "session_user t" s env body] by (auto simp: g' channels_ok_def)
next
  case (Hangup s)
  then show ?thesis
    using assms by (auto simp: hangup_move_def channels_ok_def set_phase_def routed_run split: option.splits if_splits)
qed (use other_move_delivered [OF mv] room_finish_frame(2,4) [OF mv] assms(2) in \<open>simp_all add: channels_ok_def\<close>)

lemma reachable_channels_ok: "reachable parse iter g \<Longrightarrow> channels_ok g"
  by (induction rule: reachable.induct) (simp add: channels_ok_def gateway_init_def, rule move_channels_ok)

section \<open>What acknowledges a message\<close>

text \<open>\<open>sent_with c mid m\<close>: \<open>m\<close> is a direct or a room message with the id \<open>mid\<close> and the reply channel \<open>c\<close>.\<close>

fun sent_with :: "oneshot \<Rightarrow> uuid \<Rightarrow> RouterMessage \<Rightarrow> bool" where
  "sent_with c mid (RouterMessage.SendDirectMessage conv from to content mid' c') \<longleftrightarrow> mid' = mid \<and> c' = Some c"
| "sent_with c mid (SendRoomMessage rid from content mid' c') \<longleftrightarrow> mid' = mid \<and> c' = Some c"
| "sent_with c mid _ \<longleftrightarrow> False"

lemma sent_with_channel: "sent_with c mid m \<Longrightarrow> reply_channel m = Some c"
  by (cases m) auto

text \<open>The message a write task writes.\<close>

fun writes :: "Task \<Rightarrow> RouterMessage option" where
  "writes (PersistDirectMessage conv from to content mid ts c) =
     Some (RouterMessage.SendDirectMessage conv from to content mid (Some c))"
| "writes (PersistRoomMessage rid from content mid ts c) = Some (SendRoomMessage rid from content mid (Some c))"
| "writes _ = None"

lemma router_writes:
  assumes "router_step self (env, m) = Inr (self', es)" and "t \<in> set (other_tasks es)" and "writes t = Some w"
  shows "w = m"
  using assms by (cases m) (auto simp: router_defs Let_def split: option.splits if_splits sum.splits)

lemma room_writes:
  assumes "room_step iter a i = Inr (a', es)" and "t \<in> set (other_tasks es)" and "writes t = Some w"
  shows "\<exists>now from content mid c. i = Recv now (SendMessage from content mid (Some c)) \<and>
    w = SendRoomMessage (room_id a) from content mid (Some c)"
  using assms
  by (cases i) (auto simp: handler_defs split: if_splits option.splits elim!: room_handle_message.elims)

lemma router_acks:
  assumes "router_step self (env, m) = Inr (self', es)" and "AckReply k \<in> set (replies c es)"
  shows "sent_with c (MessageAckResponse.message_id k) m \<and> status k = Failed ''Room not found''"
  using assms by (cases m) (auto simp: router_defs Let_def split: option.splits if_splits sum.splits)

lemma room_no_acks:
  assumes "room_step iter a i = Inr (a', es)"
  shows "AckReply k \<notin> set (replies c es)"
  using assms
  by (cases i) (auto simp: handler_defs split: if_splits option.splits elim!: room_handle_message.elims)

lemma task_acks:
  assumes "task_effects ans t res = Some es" and "AckReply k \<in> set (replies c es)"
  shows "\<exists>w out now. writes t = Some w \<and> sent_with c (MessageAckResponse.message_id k) w \<and> res = Written out now \<and>
    status k = (case out of Inr _ \<Rightarrow> Persisted | Inl e \<Rightarrow> Failed e)"
  using assms
  by (cases "(ans, t, res)" rule: task_effects.cases)
     (auto simp: dm_persist_task_def room_persist_task_def fetch_page_task_def fetch_sync_task_def
        relay_join_task_def relay_members_task_def split: sum.splits option.splits Reply.splits if_splits)

lemma answers_apply_Some:
  "answers (apply_effects es g) c = Some v \<Longrightarrow> answers g c = Some v \<or> v \<in> set (replies c es)"
  by (auto simp: apply_effects_def split: option.splits list.splits)

text \<open>Every write task, every room message in a mailbox and every acknowledgement goes back to a handled message.\<close>

definition acks_ok :: "GatewayState \<Rightarrow> bool" where
  "acks_ok g \<longleftrightarrow>
     (\<forall>t w. t \<in> set (spawned g) \<longrightarrow> writes t = Some w \<longrightarrow> w \<in> snd ` set (handled g)) \<and>
     (\<forall>r a q from content mid c. room_tasks g r = Some (a, q) \<longrightarrow> SendMessage from content mid c \<in> set q \<longrightarrow>
        SendRoomMessage (room_id a) from content mid c \<in> snd ` set (handled g)) \<and>
     (\<forall>c k. answers g c = Some (AckReply k) \<longrightarrow>
        (\<exists>m \<in> snd ` set (handled g). sent_with c (MessageAckResponse.message_id k) m))"

lemma acks_okD:
  assumes "acks_ok g"
  shows "t \<in> set (spawned g) \<Longrightarrow> writes t = Some w \<Longrightarrow> w \<in> snd ` set (handled g)"
    and "room_tasks g r = Some (a, q) \<Longrightarrow> SendMessage from content mid c \<in> set q \<Longrightarrow>
      SendRoomMessage (room_id a) from content mid c \<in> snd ` set (handled g)"
    and "answers g c' = Some (AckReply k) \<Longrightarrow>
      \<exists>m \<in> snd ` set (handled g). sent_with c' (MessageAckResponse.message_id k) m"
  using assms unfolding acks_ok_def by blast+

lemma route_acks_ok:
  assumes "acks_ok g" and "hub_ok g'" and "route_move env g = Some g'"
  shows "acks_ok g'"
  using assms(3)
proof (rule route_moveE)
  fix s m q0 self es
  assume st: "router_step (hub g) (env, m) = Inr (self, es)"
    and g': "g' = apply_effects es (g\<lparr>hub := self, mailbox := q0, handled := handled g @ [(s, m)],
       used_oneshots := insert (new_oneshot env) (used_oneshots g)\<rparr>)"
  have h: "snd ` set (handled g') = insert m (snd ` set (handled g))" by (simp add: g')
  have "w \<in> snd ` set (handled g')" if "t \<in> set (spawned g')" "writes t = Some w" for t w
    using that router_writes [OF st _ that(2)] acks_okD(1) [OF assms(1) _ that(2)] unfolding h by (auto simp: g')
  moreover have "SendRoomMessage (room_id a) from content mid c \<in> snd ` set (handled g')"
    if a: "room_tasks g' r = Some (a, q)" "SendMessage from content mid c \<in> set q" for r a q "from" content mid c
  proof (cases "SendMessage from content mid c \<in> set (room_mail r es)")
    case True
    from router_mail [OF st True] obtain rid where "hm_get (rooms self) rid = Some r" "m = SendRoomMessage rid from content mid c"
      by auto
    then show ?thesis using assms(2) a(1) unfolding h by (fastforce simp: hub_ok_def g')
  next
    case False
    then have "\<exists>q1. room_tasks g r = Some (a, q1) \<and> SendMessage from content mid c \<in> set q1"
      using a by (auto simp: g' apply_effects_def split: option.splits)
    then show ?thesis using acks_okD(2) [OF assms(1)] unfolding h by blast
  qed
  moreover have "\<exists>m' \<in> snd ` set (handled g'). sent_with c (MessageAckResponse.message_id k) m'"
    if "answers g' c = Some (AckReply k)" for c k
    using answers_apply_Some [OF that [unfolded g']] router_acks [OF st] acks_okD(3) [OF assms(1)] unfolding h by auto
  ultimately show ?thesis unfolding acks_ok_def by blast
qed

lemma room_acks_ok:
  assumes "acks_ok g" and "room_tasks g r = Some (a, q0)" and "room_move iter r i q a g = Some g'" and "set q \<subseteq> set q0"
    and "\<And>now m. i = Recv now m \<Longrightarrow> m \<in> set q0"
  shows "acks_ok g'"
  using assms(3)
proof (rule room_moveE)
  fix a' es
  assume st: "room_step iter a i = Inr (a', es)"
    and g': "g' = apply_effects es (g\<lparr>room_tasks := (room_tasks g)(r \<mapsto> (a', q))\<rparr>)"
  have tasks: "room_tasks g' = (room_tasks g)(r \<mapsto> (a', q))"
    unfolding g' by (subst apply_effects_no_mail) (simp_all add: room_turn_effects [OF st])
  have frame: "room_id a' = room_id a" using room_step_frame [OF st] by simp
  have h: "handled g' = handled g" by (simp add: g')
  have "w \<in> snd ` set (handled g')" if t: "t \<in> set (spawned g')" "writes t = Some w" for t w
  proof (cases "t \<in> set (other_tasks es)")
    case True
    from room_writes [OF st True t(2)] obtain now "from" content mid c
      where "SendMessage from content mid (Some c) \<in> set q0" "w = SendRoomMessage (room_id a) from content mid (Some c)"
      using assms(5) by blast
    then show ?thesis using acks_okD(2) [OF assms(1,2)] unfolding h by simp
  next
    case False
    then show ?thesis using acks_okD(1) [OF assms(1) _ t(2)] t(1) unfolding h by (auto simp: g')
  qed
  moreover have "SendRoomMessage (room_id b) from content mid c \<in> snd ` set (handled g')"
    if b: "room_tasks g' r' = Some (b, q')" "SendMessage from content mid c \<in> set q'" for r' b q' "from" content mid c
    using b acks_okD(2) [OF assms(1,2), of "from" content mid c] acks_okD(2) [OF assms(1) _ b(2)] assms(4) frame
    unfolding h tasks by (auto split: if_splits)
  moreover have "\<exists>m' \<in> snd ` set (handled g'). sent_with c (MessageAckResponse.message_id k) m'"
    if "answers g' c = Some (AckReply k)" for c k
    using answers_apply_Some [OF that [unfolded g']] room_no_acks [OF st] acks_okD(3) [OF assms(1)] unfolding h by auto
  ultimately show ?thesis unfolding acks_ok_def by blast
qed

lemma finish_acks_ok:
  assumes "acks_ok g" and "finish_move i res g = Some g'"
  shows "acks_ok g'"
  using assms(2)
proof (rule finish_moveE)
  fix es
  assume i: "i < length (spawned g)" and es: "task_effects (answers g) (spawned g ! i) res = Some es"
    and g': "g' = apply_effects es (g\<lparr>spawned := take i (spawned g) @ drop (Suc i) (spawned g)\<rparr>)"
  have tasks: "room_tasks g' = room_tasks g"
    unfolding g' by (subst apply_effects_no_mail) (simp_all add: task_effects_mail [OF es])
  have sub: "set (spawned g') \<subseteq> set (spawned g)"
    unfolding g' by (auto simp: task_effects_mail [OF es] dest: in_set_takeD in_set_dropD)
  have h: "handled g' = handled g" by (simp add: g')
  have "\<exists>m' \<in> snd ` set (handled g). sent_with c (MessageAckResponse.message_id k) m'"
    if "answers g' c = Some (AckReply k)" for c k
    using answers_apply_Some [OF that [unfolded g']] task_acks [OF es] acks_okD(3) [OF assms(1)]
      acks_okD(1) [OF assms(1) nth_mem [OF i]] by fastforce
  then show ?thesis using assms(1) sub unfolding acks_ok_def tasks h by blast
qed

lemma move_acks_ok:
  assumes "acks_ok g" and "hub_ok g'" and mv: "gateway_move parse iter g mv = Some g'"
  shows "acks_ok g'"
  using mv
proof (cases rule: gateway_move_cases)
  case session
  then show ?thesis using session_move_quiet [OF mv] assms(1) by (simp add: acks_ok_def)
next
  case (route env)
  then show ?thesis using route_acks_ok [OF assms(1,2)] by blast
next
  case (room r i q q0 a)
  then show ?thesis by (intro room_acks_ok [OF assms(1) room(3-5)]) blast
next
  case (finish i res)
  then show ?thesis using finish_acks_ok [OF assms(1)] by blast
qed

lemma reachable_acks_ok: "reachable parse iter g \<Longrightarrow> hash_iter iter \<Longrightarrow> acks_ok g"
proof (induction rule: reachable.induct)
  case (start p)
  then show ?case by (simp add: acks_ok_def gateway_init_def)
next
  case (move g mv g')
  have "hub_ok g'"
    using reachable_provenance [OF reachable.move [OF move.hyps]] move.prems by (simp add: provenance_def)
  then show ?case using move_acks_ok move by blast
qed

text \<open>Only the end of a successful write acknowledges with \<^verbatim>\<open>Persisted\<close>.\<close>

lemma persisted_by_write:
  assumes "reachable parse iter g" and "hash_iter iter" and "gateway_move parse iter g mv = Some g'"
    and "answers g c \<noteq> Some (AckReply k)" and "answers g' c = Some (AckReply k)" and "status k = Persisted"
  shows "\<exists>i now m. mv = Finish i (Written (Inr ()) now) \<and> i < length (spawned g) \<and> writes (spawned g ! i) = Some m \<and>
    m \<in> snd ` set (handled g) \<and> sent_with c (MessageAckResponse.message_id k) m"
proof (cases mv)
  case (Route env)
  with assms(3) have "route_move env g = Some g'" by simp
  then show ?thesis
    by (rule route_moveE) (use assms(4-6) answers_apply_Some router_acks in fastforce)
next
  case (Finish i res)
  with assms(3) have "finish_move i res g = Some g'" by simp
  then obtain es where i: "i < length (spawned g)" and es: "task_effects (answers g) (spawned g ! i) res = Some es"
    and g': "g' = apply_effects es (g\<lparr>spawned := take i (spawned g) @ drop (Suc i) (spawned g)\<rparr>)"
    by (rule finish_moveE)
  have "AckReply k \<in> set (replies c es)" using answers_apply_Some [OF assms(5) [unfolded g']] assms(4) by simp
  then obtain m out now where "writes (spawned g ! i) = Some m" "sent_with c (MessageAckResponse.message_id k) m"
      "res = Written out now" "status k = (case out of Inr _ \<Rightarrow> Persisted | Inl e \<Rightarrow> Failed e)"
    using task_acks [OF es] by blast
  then show ?thesis
    using acks_okD(1) [OF reachable_acks_ok [OF assms(1,2)] nth_mem [OF i]] assms(6) i Finish
    by (cases out) auto
qed (use assms(3-5) session_move_quiet(6) [OF assms(3)] room_no_acks answers_apply_Some in
    \<open>fastforce split: option.splits list.splits elim!: room_moveE simp del: room_step.simps\<close>)+

section \<open>Properties\<close>

text \<open>
  Acknowledgements are for the right message: an acknowledgement that has arrived on a reply
  channel carries the id of a direct or room message the router has handled with this channel, and
  no other message, handled or still in flight, has the same channel.
\<close>

theorem acks_match:
  assumes "reachable parse iter g" and "hash_iter iter" and "answers g c = Some (AckReply k)"
  shows "\<exists>s m. (s, m) \<in> set (handled g) \<and> sent_with c (MessageAckResponse.message_id k) m \<and>
    (\<forall>s' m'. (s', m') \<in> set (handled g @ mailbox g) \<longrightarrow> reply_channel m' = Some c \<longrightarrow> (s', m') = (s, m))"
proof -
  obtain s m where m: "(s, m) \<in> set (handled g)" "sent_with c (MessageAckResponse.message_id k) m"
    using acks_okD(3) [OF reachable_acks_ok [OF assms(1,2)] assms(3)] by auto
  have "distinct (reply_channels (handled g @ mailbox g))"
    using reachable_channels_ok [OF assms(1)] unfolding channels_ok_def by blast
  from reply_channels_unique [OF this, of s m _ _ c] have "(s', m') = (s, m)"
    if "(s', m') \<in> set (handled g @ mailbox g)" "reply_channel m' = Some c" for s' m'
    using that m(1) sent_with_channel [OF m(2)] by (metis UnI1 set_append)
  then show ?thesis using m by blast
qed

definition ack_moves :: "Move list" where
  "ack_moves = direct_moves @ [Finish 0 (Written (Inr ()) 7)]"

definition example_ack :: MessageAckResponse where
  "example_ack = \<lparr>MessageAckResponse.message_id = 80, timestamp = 7, status = Persisted\<rparr>"

theorem acks_match_witness:
  "\<exists>g s m. reachable example_parse id g \<and> answers g 20 = Some (AckReply example_ack) \<and>
    (s, m) \<in> set (handled g) \<and> sent_with 20 80 m"
proof -
  obtain g where g: "gateway_run example_parse id (gateway_init 0) ack_moves = Some g"
    "answers g 20 = Some (AckReply example_ack)"
    by (simp add: ack_moves_def direct_moves_def run_defs dm_persist_task_def example_ack_def)
  have r: "reachable example_parse id g" by (rule example_reachable [OF g(1)])
  show ?thesis using acks_match [OF r hash_iter_identity g(2)] r g(2) by (auto simp: example_ack_def)
qed

text \<open>
  \<^verbatim>\<open>Persisted\<close> is true: the only step that can put an acknowledgement with this status on a reply
  channel is the end of the task that wrote the very message the channel belongs to, a message the
  router has handled, and the write has succeeded.
\<close>

theorem persisted_ack_truthful:
  assumes "reachable parse iter g" and "hash_iter iter" and "gateway_move parse iter g mv = Some g'"
    and "answers g c \<noteq> Some (AckReply k)" and "answers g' c = Some (AckReply k)" and "status k = Persisted"
  shows "\<exists>i now m. mv = Finish i (Written (Inr ()) now) \<and> i < length (spawned g) \<and> writes (spawned g ! i) = Some m \<and>
    m \<in> snd ` set (handled g) \<and> sent_with c (MessageAckResponse.message_id k) m"
  using persisted_by_write [OF assms] .

theorem persisted_ack_truthful_witness:
  "\<exists>g m. reachable example_parse id g \<and> length (spawned g) = 1 \<and> writes (spawned g ! 0) = Some m \<and>
    m \<in> snd ` set (handled g) \<and> sent_with 20 80 m"
proof -
  obtain g g' where g: "gateway_run example_parse id (gateway_init 0) direct_moves = Some g" "length (spawned g) = 1"
    and mv: "gateway_move example_parse id g (Finish 0 (Written (Inr ()) 7)) = Some g'"
    and a: "answers g 20 = None" "answers g' 20 = Some (AckReply example_ack)"
    by (simp add: direct_moves_def run_defs dm_persist_task_def example_ack_def)
  have r: "reachable example_parse id g" by (rule example_reachable [OF g(1)])
  have "answers g 20 \<noteq> Some (AckReply example_ack)" "status example_ack = Persisted"
    using a(1) by (simp_all add: example_ack_def)
  from persisted_ack_truthful [OF r hash_iter_identity mv this(1) a(2) this(2)] show ?thesis
    using r g(2) by (auto simp: example_ack_def)
qed

end
