(* ===== verification/System_Answers.thy ===== *)
theory System_Answers
  imports System_Acks
begin

text \<open>
  No acknowledgement of a direct message is lost: from the turn in which the router handles it, its
  write is pending or its acknowledgement has arrived, and nothing else is ever sent on its reply
  channel. The invariant follows a reply channel from the message that brings it to the
  task that holds it and the answer it gives.
\<close>

section \<open>Who holds a reply channel\<close>

definition held :: "GatewayState \<Rightarrow> oneshot \<Rightarrow> bool" where
  "held g c \<longleftrightarrow> (\<exists>t \<in> set (spawned g). c \<in> task_oneshots t) \<or>
     (\<exists>r a q m. room_tasks g r = Some (a, q) \<and> m \<in> set q \<and> c \<in> room_oneshots m) \<or> answers g c \<noteq> None"

lemma message_oneshots_channel: "message_oneshots m = set_option (reply_channel m)"
  by (cases m) auto

text \<open>What each kind of step adds to the holders of a channel.\<close>

lemma route_holders:
  assumes "router_step self (env, m) = Inr (self', es)"
    and "g' = apply_effects es (g\<lparr>hub := self', mailbox := q0, handled := h, used_oneshots := us\<rparr>)"
    and "reply_channel m \<noteq> Some c" and "c \<noteq> new_oneshot env"
  shows "t \<in> set (spawned g') \<Longrightarrow> c \<in> task_oneshots t \<Longrightarrow> t \<in> set (spawned g)"
    and "room_tasks g' r = Some (a, q) \<Longrightarrow> rm \<in> set q \<Longrightarrow> c \<in> room_oneshots rm \<Longrightarrow>
      \<exists>a q. room_tasks g r = Some (a, q) \<and> rm \<in> set q"
    and "answers g' c = answers g c"
proof -
  have no: "c \<notin> message_oneshots m" using assms(3) by (auto simp: message_oneshots_channel)
  show "t \<in> set (spawned g') \<Longrightarrow> c \<in> task_oneshots t \<Longrightarrow> t \<in> set (spawned g)"
    using router_task_oneshots [OF assms(1), of t c] no by (auto simp: assms(2))
  show "\<exists>a q. room_tasks g r = Some (a, q) \<and> rm \<in> set q"
    if "room_tasks g' r = Some (a, q)" "rm \<in> set q" "c \<in> room_oneshots rm"
  proof -
    have "rm \<notin> set (room_mail r es)" using router_mail_oneshots [OF assms(1) _ that(3)] no assms(4) by blast
    then show ?thesis using that(1,2) by (auto simp: assms(2) apply_effects_def split: option.splits)
  qed
  show "answers g' c = answers g c"
    using answers_apply [of es "g\<lparr>hub := self', mailbox := q0, handled := h, used_oneshots := us\<rparr>" c] router_replies [OF assms(1), of c] no
    by (auto simp: assms(2))
qed

lemma room_holders:
  assumes "room_tasks g r = Some (a, q0)" and "room_move iter r i q a g = Some g'" and "set q \<subseteq> set q0"
    and "\<forall>now m. i = Recv now m \<longrightarrow> m \<in> set q0" and "\<forall>m \<in> set q0. c \<notin> room_oneshots m"
  shows "t \<in> set (spawned g') \<Longrightarrow> c \<in> task_oneshots t \<Longrightarrow> t \<in> set (spawned g)"
    and "answers g' c = answers g c"
    and "room_tasks g' r' = Some (b, q') \<Longrightarrow> \<exists>b q1. room_tasks g r' = Some (b, q1) \<and> set q' \<subseteq> set q1"
    and "set (spawned g) \<subseteq> set (spawned g')"
proof -
  obtain a' es where st: "room_step iter a i = Inr (a', es)"
    and g': "g' = apply_effects es (g\<lparr>room_tasks := (room_tasks g)(r \<mapsto> (a', q))\<rparr>)"
    using assms(2) by (rule room_moveE)
  have no: "replies c es = [] \<and> (\<forall>t \<in> set (other_tasks es). c \<notin> task_oneshots t)"
    using room_turn_oneshots [OF st, of c] assms(4,5) by blast
  show "t \<in> set (spawned g') \<Longrightarrow> c \<in> task_oneshots t \<Longrightarrow> t \<in> set (spawned g)" using no by (auto simp: g')
  show "answers g' c = answers g c"
    using answers_apply [of es "g\<lparr>room_tasks := (room_tasks g)(r \<mapsto> (a', q))\<rparr>" c] no by (auto simp: g')
  have "room_tasks g' = (room_tasks g)(r \<mapsto> (a', q))"
    unfolding g' by (subst apply_effects_no_mail) (simp_all add: room_turn_effects [OF st])
  then show "room_tasks g' r' = Some (b, q') \<Longrightarrow> \<exists>b q1. room_tasks g r' = Some (b, q1) \<and> set q' \<subseteq> set q1"
    using assms(1,3) by (auto split: if_splits)
  show "set (spawned g) \<subseteq> set (spawned g')" by (auto simp: g')
qed

lemma finish_holders:
  assumes "finish_move i res g = Some g'"
  shows "set (spawned g') \<subseteq> set (spawned g)" and "room_tasks g' = room_tasks g"
    and "c \<notin> task_oneshots (spawned g ! i) \<Longrightarrow> answers g' c = answers g c"
    and "t \<in> set (spawned g) \<Longrightarrow> t \<noteq> spawned g ! i \<Longrightarrow> t \<in> set (spawned g')"
proof -
  obtain es where i: "i < length (spawned g)" and es: "task_effects (answers g) (spawned g ! i) res = Some es"
    and g': "g' = apply_effects es (g\<lparr>spawned := take i (spawned g) @ drop (Suc i) (spawned g)\<rparr>)"
    using assms by (rule finish_moveE)
  show "set (spawned g') \<subseteq> set (spawned g)"
    unfolding g' by (auto simp: task_effects_mail [OF es] dest: in_set_takeD in_set_dropD)
  show "room_tasks g' = room_tasks g"
    unfolding g' by (subst apply_effects_no_mail) (simp_all add: task_effects_mail [OF es])
  show "c \<notin> task_oneshots (spawned g ! i) \<Longrightarrow> answers g' c = answers g c"
    using answers_apply [of es "g\<lparr>spawned := take i (spawned g) @ drop (Suc i) (spawned g)\<rparr>" c]
      task_effects_replies [OF es, of c] by (auto simp: g')
  show "t \<in> set (spawned g) \<Longrightarrow> t \<noteq> spawned g ! i \<Longrightarrow> t \<in> set (spawned g')"
    using id_take_nth_drop [OF i] unfolding g' by (auto simp: task_effects_mail [OF es])
      (metis Un_iff insert_iff list.set(2) set_append)
qed

lemma held_cases:
  assumes "held g c"
  obtains (task) t where "t \<in> set (spawned g)" "c \<in> task_oneshots t"
    | (room) r a q m where "room_tasks g r = Some (a, q)" "m \<in> set q" "c \<in> room_oneshots m"
    | (answer) "answers g c \<noteq> None"
  using assms unfolding held_def by blast

lemma route_held:
  assumes "route_move env g = Some g'" and "held g' c" and "mailbox g = (s, m) # q"
    and "reply_channel m \<noteq> Some c" and "c \<noteq> new_oneshot env"
  shows "held g c"
  using assms(1)
proof (rule route_moveE)
  fix s' m' q' self es
  assume mb: "mailbox g = (s', m') # q'" and st: "router_step (hub g) (env, m') = Inr (self, es)"
    and g': "g' = apply_effects es (g\<lparr>hub := self, mailbox := q', handled := handled g @ [(s', m')],
       used_oneshots := insert (new_oneshot env) (used_oneshots g)\<rparr>)"
  have "reply_channel m' \<noteq> Some c" using mb assms(3,4) by simp
  then show ?thesis
    using route_holders [OF st g' _ assms(5)] assms(2) unfolding held_def by metis
qed

lemma room_held:
  assumes "room_tasks g r = Some (a, q0)" and "room_move iter r i q a g = Some g'" and "set q \<subseteq> set q0"
    and "\<forall>now m. i = Recv now m \<longrightarrow> m \<in> set q0" and "held g' c"
  shows "held g c"
proof (cases "\<exists>m \<in> set q0. c \<in> room_oneshots m")
  case True
  then show ?thesis using assms(1) unfolding held_def by blast
next
  case False
  then have "\<forall>m \<in> set q0. c \<notin> room_oneshots m" by blast
  note hold = room_holders [OF assms(1-4) this]
  from assms(5) show ?thesis
  proof (cases rule: held_cases)
    case (task t)
    then show ?thesis using hold(1) unfolding held_def by blast
  next
    case (room r' b q' m)
    then show ?thesis using hold(3) unfolding held_def by blast
  next
    case answer
    then show ?thesis using hold(2) unfolding held_def by simp
  qed
qed

lemma finish_held:
  assumes "finish_move i res g = Some g'" and "held g' c"
  shows "held g c"
proof -
  have "spawned g ! i \<in> set (spawned g)" using assms(1) by (auto elim: finish_moveE)
  then show ?thesis
    using finish_holders(1,2) [OF assms(1)] finish_holders(3) [OF assms(1), of c] assms(2)
    unfolding held_def by (metis subsetD)
qed

lemma move_held:
  assumes mv: "gateway_move parse iter g mv = Some g'" and "held g' c"
  shows "held g c \<or> (\<exists>env s m q. mv = Route env \<and> mailbox g = (s, m) # q \<and>
    (reply_channel m = Some c \<or> c = new_oneshot env))"
  using mv
proof (cases rule: gateway_move_cases)
  case session
  then show ?thesis using assms(2) session_move_quiet [OF mv] by (simp add: held_def)
next
  case (route env)
  then obtain s m q where "mailbox g = (s, m) # q" by (auto elim: route_moveE)
  then show ?thesis using route route_held [OF route(2) assms(2)] by blast
next
  case (room r i q q0 a)
  then show ?thesis using room_held [OF room(3-6) assms(2)] by blast
next
  case (finish i res)
  then show ?thesis using finish_held [OF finish(2) assms(2)] by blast
qed

definition unanswered_ok :: "GatewayState \<Rightarrow> bool" where
  "unanswered_ok g \<longleftrightarrow> (\<forall>c. held g c \<longrightarrow> c \<in> used_oneshots g) \<and>
     (\<forall>s m c. (s, m) \<in> set (mailbox g) \<longrightarrow> reply_channel m = Some c \<longrightarrow> \<not> held g c)"

lemma session_move_fresh:
  assumes "gateway_move parse iter g mv = Some g'" and "session_move mv" and "(s, m) \<in> set (mailbox g')"
    and "reply_channel m = Some c"
  shows "(s, m) \<in> set (mailbox g) \<or> c \<notin> used_oneshots g"
  using assms
proof (cases mv)
  case (Frame s0 env body)
  then obtain t where "sessions g s0 = Some t" "new_reply env \<notin> used_oneshots g"
    and g': "g' = session_effects s0 (handle_text parse (session_user t) s0 env body)
       (g\<lparr>used_oneshots := insert (new_reply env) (used_oneshots g)\<rparr>)"
    using assms(1) by (auto elim: frame_moveE)
  then show ?thesis
    using assms(3,4) handle_text_oneshots(1) by (fastforce simp: g' message_oneshots_channel)
qed (auto simp: gateway_move_defs routed_new routed_run split: if_splits option.splits Phase.splits Reply.splits sum.splits)

lemma move_unanswered_ok:
  assumes mv: "gateway_move parse iter g mv = Some g'" and "channels_ok g" and "unanswered_ok g"
  shows "unanswered_ok g'"
proof -
  have ch: "c \<in> used_oneshots g" if "(s, m) \<in> set (mailbox g)" "reply_channel m = Some c" for s m c
    using assms(2) in_reply_channels [OF that] by (auto simp: channels_ok_def)
  have "c \<in> used_oneshots g'" if "held g' c" for c
    using move_held [OF mv that]
  proof
    assume "held g c"
    then show ?thesis using move_used [OF mv] assms(3) unfolding unanswered_ok_def by blast
  next
    assume "\<exists>env s m q. mv = Route env \<and> mailbox g = (s, m) # q \<and> (reply_channel m = Some c \<or> c = new_oneshot env)"
    then obtain env s m q where r: "mv = Route env" "mailbox g = (s, m) # q" "reply_channel m = Some c \<or> c = new_oneshot env"
      by blast
    then have "new_oneshot env \<in> used_oneshots g'" using mv by (auto elim: route_moveE)
    then show ?thesis using r ch [of s m c] move_used [OF mv] by auto
  qed
  moreover have "\<not> held g' c" if m: "(s, m) \<in> set (mailbox g')" "reply_channel m = Some c" for s m c
  proof
    assume h: "held g' c"
    show False
      using mv
    proof (cases rule: gateway_move_cases)
      case session
      then have "held g c" using move_held [OF mv h] by auto
      then show False
        using assms(3) session_move_fresh [OF mv session m] m(2) unfolding unanswered_ok_def by blast
    next
      case (route env)
      from route(2) obtain s0 m0 where mb: "mailbox g = (s0, m0) # mailbox g'" and new: "new_oneshot env \<notin> used_oneshots g"
        by (auto elim: route_moveE)
      have "(s, m) \<in> set (mailbox g)" using m(1) mb by simp
      then have "\<not> held g c" "c \<in> used_oneshots g" using assms(3) ch m(2) unfolding unanswered_ok_def by blast+
      then have "reply_channel m0 = Some c" using move_held [OF mv h] mb new route(1) by auto
      then have "c \<in> set (reply_channels (mailbox g')) \<and> \<not> distinct (reply_channels (mailbox g))"
        using in_reply_channels [OF m] by (simp add: mb)
      then show False using assms(2) unfolding channels_ok_def by simp
    qed (use move_held [OF mv h] room_finish_frame(2) [OF mv] assms(3) m in \<open>auto simp: unanswered_ok_def\<close>)
  qed
  ultimately show ?thesis unfolding unanswered_ok_def by blast
qed

lemma reachable_unanswered_ok: "reachable parse iter g \<Longrightarrow> unanswered_ok g"
proof (induction rule: reachable.induct)
  case (start p)
  then show ?case by (simp add: unanswered_ok_def held_def gateway_init_def)
next
  case (move g mv g')
  then show ?case using move_unanswered_ok reachable_channels_ok by blast
qed

section \<open>The way of a direct message's channel\<close>

fun is_direct :: "RouterMessage \<Rightarrow> bool" where
  "is_direct (RouterMessage.SendDirectMessage conv from to content mid c) = True"
| "is_direct _ = False"

text \<open>
  Only the write task of \<open>m\<close> and no room holds the channel \<open>c\<close>, only an acknowledgement can be on it, and
  the task is there or the acknowledgement is.
\<close>

definition tracked :: "GatewayState \<Rightarrow> RouterMessage \<Rightarrow> oneshot \<Rightarrow> bool" where
  "tracked g m c \<longleftrightarrow> (\<forall>t \<in> set (spawned g). c \<in> task_oneshots t \<longrightarrow> writes t = Some m) \<and>
     (\<forall>r a q rm. room_tasks g r = Some (a, q) \<longrightarrow> rm \<in> set q \<longrightarrow> c \<notin> room_oneshots rm) \<and>
     (\<forall>v. answers g c = Some v \<longrightarrow> (\<exists>k. v = AckReply k)) \<and>
     ((\<exists>t \<in> set (spawned g). writes t = Some m) \<or> answers g c \<noteq> None)"

lemma trackedD:
  assumes "tracked g m c"
  shows "t \<in> set (spawned g) \<Longrightarrow> c \<in> task_oneshots t \<Longrightarrow> writes t = Some m"
    and "room_tasks g r = Some (a, q) \<Longrightarrow> rm \<in> set q \<Longrightarrow> c \<notin> room_oneshots rm"
    and "answers g c = Some v \<Longrightarrow> \<exists>k. v = AckReply k"
    and "(\<exists>t \<in> set (spawned g). writes t = Some m) \<or> answers g c \<noteq> None"
  using assms unfolding tracked_def by blast+

lemma writes_channel: "writes t = Some m \<Longrightarrow> reply_channel m = Some c \<Longrightarrow> c \<in> task_oneshots t"
  by (cases t) auto

lemma route_tracked_old:
  assumes "tracked g m c" and "router_step self (env, m0) = Inr (self', es)"
    and g': "g' = apply_effects es (g\<lparr>hub := self', mailbox := q0, handled := h, used_oneshots := us\<rparr>)"
    and "reply_channel m0 \<noteq> Some c" and "c \<noteq> new_oneshot env"
  shows "tracked g' m c"
proof -
  note hold = route_holders [OF assms(2-5)]
  have "set (spawned g) \<subseteq> set (spawned g')" by (auto simp: g')
  then show ?thesis
    using hold(1) hold(2) trackedD [OF assms(1)] unfolding tracked_def hold(3) by (meson subsetD)
qed

lemma route_tracked_new:
  assumes "router_inv self" and "\<not> held g c" and "is_direct m" and "reply_channel m = Some c"
    and st: "router_step self (env, m) = Inr (self', es)"
    and g': "g' = apply_effects es (g\<lparr>hub := self', mailbox := q0, handled := h, used_oneshots := us\<rparr>)"
  shows "tracked g' m c"
proof -
  obtain conv "from" to content mid where m: "m = RouterMessage.SendDirectMessage conv from to content mid (Some c)"
    using assms(3,4) by (cases m) auto
  have es: "other_tasks es = [PersistDirectMessage conv from to content mid (now_persist env) c]"
    "replies c es = []" "room_mail r es = []" "started es r = None" for r
    using st assms(1) by (auto simp: m router_inv_def router_handle_direct_message_def split: option.splits)
  have "room_tasks g' = room_tasks g" unfolding g' by (subst apply_effects_no_mail) (simp_all add: es)
  moreover have "answers g' c = answers g c" by (simp add: g' apply_effects_def es split: option.splits)
  moreover have "spawned g' = spawned g @ [PersistDirectMessage conv from to content mid (now_persist env) c]"
    by (simp add: g' es)
  ultimately show ?thesis using assms(2) by (auto simp: tracked_def held_def m)
qed

lemma room_tracked:
  assumes "tracked g m c" and "room_tasks g r = Some (a, q0)" and "room_move iter r i q a g = Some g'" and "set q \<subseteq> set q0"
    and "\<forall>now m. i = Recv now m \<longrightarrow> m \<in> set q0"
  shows "tracked g' m c"
proof -
  have "\<forall>m \<in> set q0. c \<notin> room_oneshots m" using trackedD(2) [OF assms(1,2)] by blast
  note hold = room_holders [OF assms(2-5) this]
  have "c \<notin> room_oneshots rm" if "room_tasks g' r' = Some (b, q')" "rm \<in> set q'" for r' b q' rm
    using hold(3) [OF that(1)] trackedD(2) [OF assms(1)] that(2) by blast
  then show ?thesis
    using hold(1,4) trackedD(1,3,4) [OF assms(1)] unfolding tracked_def hold(2) by (meson subsetD)
qed

lemma finish_tracked:
  assumes "tracked g m c" and "is_direct m" and "reply_channel m = Some c" and "finish_move i res g = Some g'"
  shows "tracked g' m c"
proof -
  note hold = finish_holders [OF assms(4)]
  obtain es where i: "i < length (spawned g)" and es: "task_effects (answers g) (spawned g ! i) res = Some es"
    and g': "g' = apply_effects es (g\<lparr>spawned := take i (spawned g) @ drop (Suc i) (spawned g)\<rparr>)"
    using assms(4) by (rule finish_moveE)
  have rest: "tracked g' m c" if "\<forall>v. answers g' c = Some v \<longrightarrow> (\<exists>k. v = AckReply k)"
      "(\<exists>t \<in> set (spawned g'). writes t = Some m) \<or> answers g' c \<noteq> None"
    using that hold(1) trackedD(1,2) [OF assms(1)] unfolding tracked_def hold(2) by blast
  show ?thesis
  proof (cases "c \<in> task_oneshots (spawned g ! i)")
    case True
    have w: "writes (spawned g ! i) = Some m" by (rule trackedD(1) [OF assms(1) nth_mem [OF i] True])
    have "\<exists>k. replies c es = [AckReply k]"
      using es w assms(2,3) by (cases "(answers g, spawned g ! i, res)" rule: task_effects.cases)
        (auto simp: dm_persist_task_def split: sum.splits)
    then show ?thesis
      using trackedD(3) [OF assms(1)] by (intro rest) (auto simp: g' apply_effects_def split: option.splits)
  next
    case False
    then have same: "answers g' c = answers g c" by (rule hold(3))
    have "t \<in> set (spawned g')" if "t \<in> set (spawned g)" "writes t = Some m" for t
      using hold(4) [OF that(1)] writes_channel [OF that(2) assms(3)] False by blast
    then show ?thesis using trackedD(3,4) [OF assms(1)] same by (intro rest) auto
  qed
qed

definition directs_ok :: "GatewayState \<Rightarrow> bool" where
  "directs_ok g \<longleftrightarrow> (\<forall>s m c. (s, m) \<in> set (handled g) \<longrightarrow> is_direct m \<longrightarrow> reply_channel m = Some c \<longrightarrow> tracked g m c)"

lemma route_directs_ok:
  assumes "directs_ok g" and "router_inv (hub g)" and "unanswered_ok g" and "channels_ok g" and mv: "route_move env g = Some g'"
  shows "directs_ok g'"
  using mv
proof (rule route_moveE)
  fix s0 m0 q self es
  assume mb: "mailbox g = (s0, m0) # q" and st: "router_step (hub g) (env, m0) = Inr (self, es)"
    and new: "new_oneshot env \<notin> used_oneshots g"
    and g': "g' = apply_effects es (g\<lparr>hub := self, mailbox := q, handled := handled g @ [(s0, m0)],
       used_oneshots := insert (new_oneshot env) (used_oneshots g)\<rparr>)"
  have "tracked g' m c" if m: "(s, m) \<in> set (handled g')" "is_direct m" "reply_channel m = Some c" for s m c
  proof (cases "(s, m) \<in> set (handled g)")
    case True
    have "c \<in> set (reply_channels (handled g))" by (rule in_reply_channels [OF True m(3)])
    then have "c \<noteq> new_oneshot env" "reply_channel m0 \<noteq> Some c"
      using assms(4) new mb by (auto simp: channels_ok_def)
    then show ?thesis
      using assms(1) True m by (intro route_tracked_old [OF _ st g']) (auto simp: directs_ok_def)
  next
    case False
    then have "m = m0" using m(1) by (simp add: g')
    then have "\<not> held g c" using assms(3) mb m(3) unfolding unanswered_ok_def by (metis list.set_intros(1))
    from route_tracked_new [OF assms(2) this m(2,3) _ g'] st show ?thesis using \<open>m = m0\<close> by simp
  qed
  then show ?thesis unfolding directs_ok_def by blast
qed

lemma move_directs_ok:
  assumes "directs_ok g" and "router_inv (hub g)" and "unanswered_ok g" and "channels_ok g"
    and mv: "gateway_move parse iter g mv = Some g'"
  shows "directs_ok g'"
  using mv
proof (cases rule: gateway_move_cases)
  case session
  then show ?thesis using assms(1) session_move_quiet [OF mv] by (simp add: directs_ok_def tracked_def)
next
  case (route env)
  then show ?thesis using route_directs_ok [OF assms(1-4)] by blast
next
  case (room r i q q0 a)
  then show ?thesis
    using assms(1) other_move_delivered [OF mv room(2)] room_tracked [OF _ room(3-6)] by (simp add: directs_ok_def)
next
  case (finish i res)
  then have "handled g' = handled g" by (auto elim: finish_moveE)
  then show ?thesis using assms(1) finish_tracked [OF _ _ _ finish(2)] by (simp add: directs_ok_def)
qed

lemma reachable_directs_ok: "reachable parse iter g \<Longrightarrow> hash_iter iter \<Longrightarrow> directs_ok g"
proof (induction rule: reachable.induct)
  case (start p)
  then show ?case by (simp add: directs_ok_def gateway_init_def)
next
  case (move g mv g')
  then show ?case
    using move_directs_ok reachable_router_inv reachable_unanswered_ok reachable_channels_ok by blast
qed

text \<open>A handled direct message without an answer still has its write task.\<close>

lemma direct_pending:
  assumes "reachable parse iter g" and "hash_iter iter"
    and "(s, RouterMessage.SendDirectMessage conv from to content mid (Some c)) \<in> set (handled g)"
  shows "(\<exists>ts. PersistDirectMessage conv from to content mid ts c \<in> set (spawned g)) \<or> answers g c \<noteq> None"
proof -
  let ?m = "RouterMessage.SendDirectMessage conv from to content mid (Some c)"
  have tr: "tracked g ?m c"
    using reachable_directs_ok [OF assms(1,2)] assms(3) unfolding directs_ok_def by fastforce
  have "\<exists>ts. t = PersistDirectMessage conv from to content mid ts c" if "writes t = Some ?m" for t
    using that by (cases t) auto
  then show ?thesis using trackedD(4) [OF tr] by metis
qed

section \<open>Properties\<close>

text \<open>
  C9. No direct message loses its acknowledgement: for every direct message the router has handled
  with a reply channel, the write of exactly this message is still pending, or the channel
  holds an acknowledgement with the message's id; nothing else is ever put on the channel.
\<close>

theorem direct_message_answered:
  assumes "reachable parse iter g" and "hash_iter iter"
    and "(s, RouterMessage.SendDirectMessage conv from to content mid (Some c)) \<in> set (handled g)"
  shows "((\<exists>ts. PersistDirectMessage conv from to content mid ts c \<in> set (spawned g)) \<or> answers g c \<noteq> None) \<and>
    (\<forall>v. answers g c = Some v \<longrightarrow> (\<exists>k. v = AckReply k \<and> MessageAckResponse.message_id k = mid))"
proof -
  let ?m = "RouterMessage.SendDirectMessage conv from to content mid (Some c)"
  have tr: "tracked g ?m c"
    using reachable_directs_ok [OF assms(1,2)] assms(3) unfolding directs_ok_def by fastforce
  note 1 = direct_pending [OF assms]
  have "MessageAckResponse.message_id k = mid" if k: "answers g c = Some (AckReply k)" for k
  proof -
    obtain m s' where m: "(s', m) \<in> set (handled g)" "sent_with c (MessageAckResponse.message_id k) m"
      using acks_okD(3) [OF reachable_acks_ok [OF assms(1,2)] k] by auto
    have "distinct (reply_channels (handled g))"
      using reachable_channels_ok [OF assms(1)] by (simp add: channels_ok_def)
    from reply_channels_unique [OF this m(1) assms(3) sent_with_channel [OF m(2)]] m(2) show ?thesis by auto
  qed
  then show ?thesis using 1 trackedD(3) [OF tr] by blast
qed

theorem direct_message_answered_witness:
  "\<exists>g k. reachable example_parse id g \<and> spawned g = [] \<and> answers g 20 = Some (AckReply k) \<and>
    MessageAckResponse.message_id k = 80"
proof -
  obtain g where g: "gateway_run example_parse id (gateway_init 0) ack_moves = Some g" "spawned g = []"
    and m: "(1, RouterMessage.SendDirectMessage ''c'' ann bob ''hi'' 80 (Some 20)) \<in> set (handled g)"
    by (simp add: ack_moves_def direct_moves_def run_defs dm_persist_task_def)
  have r: "reachable example_parse id g" by (rule example_reachable [OF g(1)])
  show ?thesis using direct_message_answered [OF r hash_iter_identity m] r g(2) by auto
qed

end
