(* ===== verification/System_Rooms.thy ===== *)
theory System_Rooms
  imports System_Answers
begin

text \<open>
  Progress of the rooms: a room's actor can always take its turns, and once its mailbox is empty every
  message that was in it has been offered to every user who was a member all the while.
\<close>

section \<open>One turn\<close>

inductive room_turn ::
  "(string \<Rightarrow> (string, ChatMessage) result) \<Rightarrow>
   ((TenantUserId, session_sender) hash_map \<Rightarrow> (TenantUserId \<times> session_sender) list) \<Rightarrow>
   room_sender \<Rightarrow> GatewayState \<Rightarrow> GatewayState \<Rightarrow> bool" for parse iter r where
  "gateway_move parse iter g (RoomTurn r now) = Some g' \<Longrightarrow> room_turn parse iter r g g'"

lemma room_turn_reachable: "room_turn parse iter r g g' \<Longrightarrow> reachable parse iter g \<Longrightarrow> reachable parse iter g'"
  by (auto elim!: room_turn.cases intro: reachable.move)

lemma room_turn_keeps:
  assumes "room_step iter a (Recv now m) = Inr (a', es)" and "hm_get (members a) u = Some s" and "m \<noteq> RemoveMember u"
  shows "hm_get (members a') u = Some s"
  using assms by (cases m) (auto simp: handler_defs hm_contains_key_def split: if_splits)

lemma room_turn_offers:
  assumes "hash_iter iter" and "room_step iter a (Recv now (SendMessage from content mid c)) = Inr (a', es)"
    and "hm_get (members a) u = Some s"
  shows "(s, ChatMessage.RoomMessage (room_id a) from content mid) \<in> set (try_sends es)"
proof -
  have "(u, s) \<in> set (iter (members a))"
    using assms(3) by (simp add: hash_iter_set [OF assms(1)] hm_get_def map_of_SomeD)
  then show ?thesis
    using assms(2) by (force simp: handler_defs split: option.splits)
qed

lemma room_turn_possible:
  assumes "room_tasks g r = Some (a, m # q)"
  shows "\<exists>g' a' es now. room_turn parse iter r g g' \<and> room_tasks g' r = Some (a', q) \<and>
    room_step iter a (Recv now m) = Inr (a', es) \<and> delivered g' = delivered g @ try_sends es"
proof -
  obtain a' es where st: "room_step iter a (Recv 0 m) = Inr (a', es)"
    by (cases "room_handle_message iter 0 a m") simp
  let ?g = "apply_effects es (g\<lparr>room_tasks := (room_tasks g)(r \<mapsto> (a', q))\<rparr>)"
  have "room_turn parse iter r g ?g" using assms st by (intro room_turn.intros [of _ _ _ _ 0]) (simp add: room_move_def)
  moreover have "room_tasks ?g r = Some (a', q)"
    by (subst apply_effects_no_mail) (simp_all add: room_turn_effects [OF st])
  ultimately show ?thesis using st by fastforce
qed

section \<open>Properties\<close>

lemma room_drains:
  assumes "hash_iter iter" and "room_tasks g r = Some (a, q)"
  shows "\<exists>g' a'. (room_turn parse iter r)\<^sup>*\<^sup>* g g' \<and> room_tasks g' r = Some (a', []) \<and>
    set (delivered g) \<subseteq> set (delivered g') \<and>
    (\<forall>u s from content mid c. hm_get (members a) u = Some s \<longrightarrow> RemoveMember u \<notin> set q \<longrightarrow>
       SendMessage from content mid c \<in> set q \<longrightarrow>
       (s, ChatMessage.RoomMessage (room_id a) from content mid) \<in> set (delivered g'))"
  using assms(2)
proof (induction q arbitrary: g a)
  case Nil
  then show ?case by (intro exI [of _ g] exI [of _ a]) simp
next
  case (Cons m q)
  obtain g1 a1 es now where 1: "room_turn parse iter r g g1" "room_tasks g1 r = Some (a1, q)"
    "room_step iter a (Recv now m) = Inr (a1, es)" "delivered g1 = delivered g @ try_sends es"
    using room_turn_possible [OF Cons.prems] by blast
  have id: "room_id a1 = room_id a" using room_step_frame [OF 1(3)] by simp
  obtain g' a' where 2: "(room_turn parse iter r)\<^sup>*\<^sup>* g1 g'" "room_tasks g' r = Some (a', [])"
    "set (delivered g1) \<subseteq> set (delivered g')"
    "\<forall>u s from content mid c. hm_get (members a1) u = Some s \<longrightarrow> RemoveMember u \<notin> set q \<longrightarrow>
       SendMessage from content mid c \<in> set q \<longrightarrow>
       (s, ChatMessage.RoomMessage (room_id a1) from content mid) \<in> set (delivered g')"
    using Cons.IH [OF 1(2)] by blast
  have "(s, ChatMessage.RoomMessage (room_id a) from content mid) \<in> set (delivered g')"
    if u: "hm_get (members a) u = Some s" "RemoveMember u \<notin> set (m # q)" "SendMessage from content mid c \<in> set (m # q)"
    for u s "from" content mid c
  proof (cases "m = SendMessage from content mid c")
    case True
    then show ?thesis using room_turn_offers [OF assms(1) _ u(1)] 1(3,4) 2(3) by auto
  next
    case False
    have "hm_get (members a1) u = Some s" using room_turn_keeps [OF 1(3) u(1)] u(2) by auto
    moreover have "RemoveMember u \<notin> set q" "SendMessage from content mid c \<in> set q" using u(2,3) False by auto
    ultimately show ?thesis using 2(4) id by metis
  qed
  then show ?case
    using 1(1,4) 2(1-3) by (intro exI [of _ g'] exI [of _ a']) (auto intro: converse_rtranclp_into_rtranclp)
qed

text \<open>
  C16. Rooms make progress: from every reachable state a room's actor can take turns until its mailbox is
  empty, and then every message that waited has been offered to every client that was
  a member and whose removal was not waiting, in the order it was sent.
\<close>

theorem room_progress:
  assumes "reachable parse iter g" and "hash_iter iter" and "hm_get (rooms (hub g)) rid = Some r"
  shows "\<exists>a q g' a'. room_tasks g r = Some (a, q) \<and> room_id a = rid \<and> (room_turn parse iter r)\<^sup>*\<^sup>* g g' \<and>
    reachable parse iter g' \<and> room_tasks g' r = Some (a', []) \<and>
    (\<forall>u s from content mid c. hm_get (members a) u = Some s \<longrightarrow> RemoveMember u \<notin> set q \<longrightarrow>
       SendMessage from content mid c \<in> set q \<longrightarrow>
       (s, ChatMessage.RoomMessage rid from content mid) \<in> set (delivered g')) \<and>
    (\<forall>s. subseq (room_part rid s (delivered g')) (room_posts rid (handled g')))"
proof -
  obtain a q where a: "room_tasks g r = Some (a, q)" "room_id a = rid"
    using reachable_provenance [OF assms(1,2)] assms(3) unfolding provenance_def hub_ok_def by blast
  obtain g' a' where g': "(room_turn parse iter r)\<^sup>*\<^sup>* g g'" "room_tasks g' r = Some (a', [])"
    "\<forall>u s from content mid c. hm_get (members a) u = Some s \<longrightarrow> RemoveMember u \<notin> set q \<longrightarrow>
       SendMessage from content mid c \<in> set q \<longrightarrow>
       (s, ChatMessage.RoomMessage (room_id a) from content mid) \<in> set (delivered g')"
    using room_drains [OF assms(2) a(1)] by blast
  have "reachable parse iter g'" using g'(1) assms(1) by induction (auto intro: room_turn_reachable)
  then show ?thesis using a g' reachable_room_order [OF _ assms(2)] by blast
qed

theorem room_progress_witness:
  "\<exists>g g'. reachable example_parse id g \<and> delivered g = [] \<and> (room_turn example_parse id 51)\<^sup>*\<^sup>* g g' \<and>
    (1, ChatMessage.RoomMessage ''lobby'' ann ''yo'' 80) \<in> set (delivered g')"
proof -
  obtain g a q where g: "gateway_run example_parse id (gateway_init 0) (take 8 room_moves) = Some g"
    "hm_get (rooms (hub g)) ''lobby'' = Some 51" "delivered g = []" "room_tasks g 51 = Some (a, q)"
    "hm_get (members a) ann = Some 1" "q = [SendMessage ann ''yo'' 80 (Some 21)]"
    by (simp add: room_moves_def run_defs router_defs handler_defs session_run_def room_new_def hm_insert_def hm_get_def)
  have r: "reachable example_parse id g" by (rule example_reachable [OF g(1)])
  show ?thesis using room_progress [OF r hash_iter_identity g(2)] r g(3-6) by fastforce
qed

end
