(* ===== verification/System_Reads.thy ===== *)
theory System_Reads
  imports System_Acks
begin

text \<open>
  Reads of the gateway: every task that reads goes back to the request the router has handled, and
  the answer to a request is the outcome of its task. Rooms have a handler for pages of their own,
  but no message ever reaches it.
\<close>

text \<open>The request a task reads for.\<close>

fun fetches :: "Task \<Rightarrow> RouterMessage option" where
  "fetches (FetchPage pid mid conv c) = Some (RouterMessage.GetPaginatedMessages pid mid conv c)"
| "fetches (FetchSync pid conv mid c) = Some (RouterMessage.SyncMessages pid conv mid c)"
| "fetches _ = None"

fun answered_messages :: "Reply \<Rightarrow> ResponseDirectMessage list" where
  "answered_messages (PageReply (Inr page)) = messages page"
| "answered_messages (SyncReply (Inr ms)) = ms"
| "answered_messages _ = []"

fun outcome_messages :: "Outcome \<Rightarrow> ResponseDirectMessage list" where
  "outcome_messages (PageRead (Inr page)) = messages page"
| "outcome_messages (SyncRead (Inr ms)) = ms"
| "outcome_messages _ = []"

lemma answered_outcome:
  "answered_messages (PageReply res) = outcome_messages (PageRead res)"
  "answered_messages (SyncReply res') = outcome_messages (SyncRead res')"
  by (cases res; cases res'; simp)+

lemma router_fetches:
  assumes "router_step self (env, m) = Inr (self', es)" and "t \<in> set (other_tasks es)" and "fetches t = Some w"
  shows "w = m"
  using assms by (cases m) (auto simp: router_defs Let_def split: option.splits if_splits sum.splits)

lemma router_no_room_page:
  assumes "router_step self (env, m) = Inr (self', es)"
  shows "RoomMessage.GetPaginatedMessages pid mid c \<notin> set (room_mail r es)"
  using router_mail [OF assms] by blast

lemma room_fetches:
  assumes "room_step iter a i = Inr (a', es)" and "t \<in> set (other_tasks es)" and "fetches t = Some w"
  shows "\<exists>now pid mid c. i = Recv now (RoomMessage.GetPaginatedMessages pid mid c)"
  using assms
  by (cases i) (auto simp: handler_defs split: if_splits option.splits elim!: room_handle_message.elims)

lemma router_answers_nothing:
  assumes "router_step self (env, m) = Inr (self', es)" and "v \<in> set (replies c es)"
  shows "answered_messages v = []"
  using assms by (cases m) (auto simp: router_defs Let_def split: option.splits if_splits sum.splits)

lemma room_answers_nothing:
  assumes "room_step iter a i = Inr (a', es)" and "v \<in> set (replies c es)"
  shows "answered_messages v = []"
  using assms
  by (cases i) (auto simp: handler_defs split: if_splits option.splits elim!: room_handle_message.elims)

lemma task_answers:
  assumes "task_effects ans t res = Some es" and "v \<in> set (replies c es)" and "x \<in> set (answered_messages v)"
  shows "\<exists>m. fetches t = Some m \<and> reply_channel m = Some c \<and> x \<in> set (outcome_messages res)"
  using assms
  by (cases "(ans, t, res)" rule: task_effects.cases)
     (auto simp: dm_persist_task_def room_persist_task_def fetch_page_task_def fetch_sync_task_def
        relay_join_task_def relay_members_task_def answered_outcome
        split: sum.splits option.splits Reply.splits if_splits)

definition fetches_ok :: "GatewayState \<Rightarrow> bool" where
  "fetches_ok g \<longleftrightarrow>
     (\<forall>t m. t \<in> set (spawned g) \<longrightarrow> fetches t = Some m \<longrightarrow> m \<in> snd ` set (handled g)) \<and>
     (\<forall>r a q pid mid c. room_tasks g r = Some (a, q) \<longrightarrow> RoomMessage.GetPaginatedMessages pid mid c \<notin> set q)"

lemma fetches_okD:
  assumes "fetches_ok g"
  shows "t \<in> set (spawned g) \<Longrightarrow> fetches t = Some m \<Longrightarrow> m \<in> snd ` set (handled g)"
    and "room_tasks g r = Some (a, q) \<Longrightarrow> RoomMessage.GetPaginatedMessages pid mid c \<notin> set q"
  using assms unfolding fetches_ok_def by blast+

lemma route_fetches_ok:
  assumes "fetches_ok g" and "route_move env g = Some g'"
  shows "fetches_ok g'"
  using assms(2)
proof (rule route_moveE)
  fix s m q self es
  assume st: "router_step (hub g) (env, m) = Inr (self, es)"
    and g': "g' = apply_effects es (g\<lparr>hub := self, mailbox := q, handled := handled g @ [(s, m)],
       used_oneshots := insert (new_oneshot env) (used_oneshots g)\<rparr>)"
  have "w \<in> snd ` set (handled g')" if "t \<in> set (spawned g')" "fetches t = Some w" for t w
    using that router_fetches [OF st _ that(2)] fetches_okD(1) [OF assms(1) _ that(2)] by (auto simp: g')
  moreover have "RoomMessage.GetPaginatedMessages pid mid c \<notin> set q'" if "room_tasks g' r = Some (a, q')"
    for r a q' pid mid c
    using that router_no_room_page [OF st] fetches_okD(2) [OF assms(1)]
    by (auto simp: g' apply_effects_def split: option.splits)
  ultimately show ?thesis unfolding fetches_ok_def by blast
qed

lemma room_fetches_ok:
  assumes "fetches_ok g" and "room_tasks g r = Some (a, q0)" and "room_move iter r i q a g = Some g'" and "set q \<subseteq> set q0"
    and "\<forall>now m. i = Recv now m \<longrightarrow> m \<in> set q0"
  shows "fetches_ok g'"
  using assms(3)
proof (rule room_moveE)
  fix a' es
  assume st: "room_step iter a i = Inr (a', es)"
    and g': "g' = apply_effects es (g\<lparr>room_tasks := (room_tasks g)(r \<mapsto> (a', q))\<rparr>)"
  have tasks: "room_tasks g' = (room_tasks g)(r \<mapsto> (a', q))"
    unfolding g' by (subst apply_effects_no_mail) (simp_all add: room_turn_effects [OF st])
  have "w \<in> snd ` set (handled g')" if "t \<in> set (spawned g')" "fetches t = Some w" for t w
    using that room_fetches [OF st _ that(2)] fetches_okD [OF assms(1)] assms(2,5) by (fastforce simp: g')
  moreover have "RoomMessage.GetPaginatedMessages pid mid c \<notin> set q'" if "room_tasks g' r' = Some (a'', q')"
    for r' a'' q' pid mid c
    using that fetches_okD(2) [OF assms(1)] assms(2,4) unfolding tasks by (auto split: if_splits)
  ultimately show ?thesis unfolding fetches_ok_def by blast
qed

lemma finish_fetches_ok:
  assumes "fetches_ok g" and "finish_move i res g = Some g'"
  shows "fetches_ok g'"
  using assms(2)
proof (rule finish_moveE)
  fix es
  assume es: "task_effects (answers g) (spawned g ! i) res = Some es"
    and g': "g' = apply_effects es (g\<lparr>spawned := take i (spawned g) @ drop (Suc i) (spawned g)\<rparr>)"
  have "room_tasks g' = room_tasks g"
    unfolding g' by (subst apply_effects_no_mail) (simp_all add: task_effects_mail [OF es])
  moreover have "set (spawned g') \<subseteq> set (spawned g)" "handled g' = handled g"
    unfolding g' by (auto simp: task_effects_mail [OF es] dest: in_set_takeD in_set_dropD)
  ultimately show ?thesis using assms(1) unfolding fetches_ok_def by auto
qed

lemma move_fetches_ok:
  assumes "fetches_ok g" and mv: "gateway_move parse iter g mv = Some g'"
  shows "fetches_ok g'"
  using mv
proof (cases rule: gateway_move_cases)
  case session
  then show ?thesis using session_move_quiet [OF mv] assms(1) by (simp add: fetches_ok_def)
next
  case (route env)
  then show ?thesis using route_fetches_ok [OF assms(1)] by blast
next
  case (room r i q q0 a)
  then show ?thesis by (intro room_fetches_ok [OF assms(1) room(3-5)])
next
  case (finish i res)
  then show ?thesis using finish_fetches_ok [OF assms(1)] by blast
qed

lemma reachable_fetches_ok: "reachable parse iter g \<Longrightarrow> fetches_ok g"
  by (induction rule: reachable.induct) (simp add: fetches_ok_def gateway_init_def, rule move_fetches_ok)

text \<open>Only the end of a task that read answers messages, and it answers what was read to the request it read for.\<close>

lemma answered_by_read:
  assumes "reachable parse iter g" and mv: "gateway_move parse iter g mv = Some g'"
    and "answers g c \<noteq> Some v" and "answers g' c = Some v" and "x \<in> set (answered_messages v)"
  shows "\<exists>i out m. mv = Finish i out \<and> i < length (spawned g) \<and> fetches (spawned g ! i) = Some m \<and>
    m \<in> snd ` set (handled g) \<and> reply_channel m = Some c \<and> x \<in> set (outcome_messages out)"
  using mv
proof (cases rule: gateway_move_cases)
  case session
  then show ?thesis using session_move_quiet(6) [OF mv] assms(3,4) by simp
next
  case (route env)
  from route(2) show ?thesis
    by (rule route_moveE) (use assms(3-5) answers_apply_Some router_answers_nothing in fastforce)
next
  case (room r i q q0 a)
  from room(4) show ?thesis
    by (rule room_moveE) (use assms(3-5) answers_apply_Some room_answers_nothing in fastforce)
next
  case (finish i out)
  from finish(2) show ?thesis
  proof (rule finish_moveE)
    fix es
    assume i: "i < length (spawned g)" and es: "task_effects (answers g) (spawned g ! i) out = Some es"
      and g': "g' = apply_effects es (g\<lparr>spawned := take i (spawned g) @ drop (Suc i) (spawned g)\<rparr>)"
    have "v \<in> set (replies c es)" using answers_apply_Some [OF assms(4) [unfolded g']] assms(3) by simp
    from task_answers [OF es this assms(5)] show ?thesis
      using fetches_okD(1) [OF reachable_fetches_ok [OF assms(1)] nth_mem [OF i]] i finish(1) by blast
  qed
qed

end
