(* ===== verification/Deployment.thy ===== *)
theory Deployment
  imports Chat_Network System_Rooms System_Reads
begin

text \<open>
  The gateway and the chat service as one system: every interleaving of the actors of the gateway
  with the calls their tasks make of the chat service, over a network that may lose each call, and
  with requests for the conversation of two users.

  A write task makes its attempts one by one, so attempts of different tasks interleave; an attempt
  is one turn of the retry loop of \<open>Persistence\<close>. The projection to the gateway is a run of
  \<open>Gateway_System\<close>, whose theorems therefore hold here.
\<close>

section \<open>One attempt\<close>

text \<open>
  One turn of the retry loop after \<open>n\<close> failed attempts: \<open>None\<close> when the loop goes on (after a delay),
  \<open>Some\<close> with what the task's call of the persistence service returns.
\<close>

definition one_attempt ::
  "('w \<Rightarrow> 'w \<times> ('st, 'r) result) \<Rightarrow> nat \<Rightarrow> ('r \<Rightarrow> 'a) \<Rightarrow> ('st \<Rightarrow> 'a) \<Rightarrow> nat \<Rightarrow> 'w \<Rightarrow> 'w \<times> 'a option" where
  "one_attempt call max_retries response_to error_to n w =
     (case call w of
        (w', Inr response) \<Rightarrow> (w', Some (response_to response))
      | (w', Inl e) \<Rightarrow> (w', if n + 1 \<le> max_retries then None else Some (error_to e)))"

definition dm_attempt ::
  "UuidOps \<Rightarrow> ('w, 'st) ChatClient \<Rightarrow> string \<Rightarrow> TenantUserId \<Rightarrow> TenantUserId \<Rightarrow> string \<Rightarrow> uuid \<Rightarrow> millis \<Rightarrow>
   nat \<Rightarrow> 'w \<Rightarrow> 'w \<times> (string, unit) result option" where
  "dm_attempt u client conv sender receiver body mid ts =
     one_attempt (\<lambda>w. write_dm client w (dm_request u conv sender receiver body mid ts)) 3
       (\<lambda>response. if WriteDmResponse.success response then Inr () else Inl (WriteDmResponse.error_message response))
       (\<lambda>e. Inl (''gRPC call failed: '' @ show_status client e))"

definition room_attempt ::
  "UuidOps \<Rightarrow> ('w, 'st) ChatClient \<Rightarrow> string \<Rightarrow> TenantUserId \<Rightarrow> string \<Rightarrow> uuid \<Rightarrow> millis \<Rightarrow>
   nat \<Rightarrow> 'w \<Rightarrow> 'w \<times> (string, unit) result option" where
  "room_attempt u client rid sender body mid ts =
     one_attempt (\<lambda>w. write_room_message client w (room_request u rid sender body mid ts)) 3
       (\<lambda>response. if WriteRoomMessageResponse.success response then Inr ()
                   else Inl (WriteRoomMessageResponse.error_message response))
       (\<lambda>e. Inl (''gRPC call failed: '' @ show_status client e))"

text \<open>At most \<open>k\<close> attempts in a row, the first of them after \<open>n\<close> failed ones.\<close>

primrec attempts :: "nat \<Rightarrow> (nat \<Rightarrow> 'w \<Rightarrow> 'w \<times> 'a option) \<Rightarrow> nat \<Rightarrow> 'w \<Rightarrow> ('w \<times> 'a) option" where
  "attempts 0 attempt n w = None"
| "attempts (Suc k) attempt n w =
     (case attempt n w of
        (w', Some r) \<Rightarrow> Some (w', r)
      | (w', None) \<Rightarrow> attempts k attempt (n + 1) w')"

section \<open>State and moves\<close>

text \<open>What the deployment is made of besides its state.\<close>

record ('w, 'r, 'rows, 'p, 'st) Site =
  site_uuid :: UuidOps
  site_session :: "('w, 'r, 'rows, 'p) Session"
  site_queries :: 'p
  site_status :: "'st \<Rightarrow> string"
  site_parse :: "string \<Rightarrow> (string, ChatMessage) result"
  site_iter :: "(TenantUserId, session_sender) hash_map \<Rightarrow> (TenantUserId \<times> session_sender) list"

definition site_client :: "('w, 'r, 'rows, 'p, 'st) Site \<Rightarrow> ('st Fate list \<times> 'w, 'st) ChatClient" where
  "site_client S = service_client (site_uuid S) (site_session S) (site_queries S) (site_status S)"

text \<open>
  \<open>tries\<close>: the failed attempts of the write task with a reply channel. \<open>asked\<close>: the requests for a
  conversation whose lookup found none, each about to insert one.
\<close>

record 'w Deployment =
  gateway :: GatewayState
  store :: 'w
  tries :: "oneshot \<Rightarrow> nat"
  asked :: "(string \<times> string \<times> string) list"

definition deployment_init :: "persistence_ref \<Rightarrow> 'w \<Rightarrow> 'w Deployment" where
  "deployment_init p w = \<lparr>gateway = gateway_init p, store = w, tries = (\<lambda>_. 0), asked = []\<rparr>"

text \<open>
  \<open>Local\<close>: a move of the gateway that calls no service. \<open>Attempt i f\<close>: the task number \<open>i\<close> makes one
  attempt to write its message, to which the network does \<open>f\<close>. \<open>Read i f\<close>: the task number \<open>i\<close> reads.
  \<open>LookUp\<close> and \<open>Insert\<close>: the two database operations of \<^verbatim>\<open>get_sert_conversation\<close>.
\<close>

datatype 'st DeployMove =
    Local Move
  | Attempt nat "'st Fate" millis
  | Read nat "'st Fate"
  | LookUp string string string
  | Insert nat string

fun is_local :: "Move \<Rightarrow> bool" where
  "is_local (Finish i out) \<longleftrightarrow> out = Relayed"
| "is_local _ \<longleftrightarrow> True"

fun write_attempt ::
  "UuidOps \<Rightarrow> ('w, 'st) ChatClient \<Rightarrow> 'w \<Rightarrow> Task \<Rightarrow> (oneshot \<Rightarrow> nat) \<Rightarrow>
   (oneshot \<times> 'w \<times> (string, unit) result option) option" where
  "write_attempt u client w (PersistDirectMessage conv from to body mid ts c) n =
     Some (c, dm_attempt u client conv from to body mid ts (n c) w)"
| "write_attempt u client w (PersistRoomMessage rid from body mid ts c) n =
     Some (c, room_attempt u client rid from body mid ts (n c) w)"
| "write_attempt u client w _ n = None"

fun read_outcome :: "UuidOps \<Rightarrow> ('w, 'st) ChatClient \<Rightarrow> 'w \<Rightarrow> Task \<Rightarrow> ('w \<times> Outcome) option" where
  "read_outcome u client w (FetchPage pid mid conv c) =
     (case persistence_get_paginated_messages u client w pid mid conv of (w', res) \<Rightarrow> Some (w', PageRead res))"
| "read_outcome u client w (FetchSync pid conv mid c) =
     (case persistence_sync_messages u client w pid conv mid of (w', res) \<Rightarrow> Some (w', SyncRead res))"
| "read_outcome u client w _ = None"

definition attempt_move ::
  "('w, 'r, 'rows, 'p, 'st) Site \<Rightarrow> nat \<Rightarrow> 'st Fate \<Rightarrow> millis \<Rightarrow> 'w Deployment \<Rightarrow> 'w Deployment option" where
  "attempt_move S i f now D =
     (if i < length (spawned (gateway D))
      then (case write_attempt (site_uuid S) (site_client S) ([f], store D) (spawned (gateway D) ! i) (tries D) of
          None \<Rightarrow> None
        | Some (c, (fs, w'), None) \<Rightarrow> Some (D\<lparr>store := w', tries := (tries D)(c := tries D c + 1)\<rparr>)
        | Some (c, (fs, w'), Some res) \<Rightarrow>
            map_option (\<lambda>g. D\<lparr>gateway := g, store := w'\<rparr>) (finish_move i (Written res now) (gateway D)))
      else None)"

definition read_move ::
  "('w, 'r, 'rows, 'p, 'st) Site \<Rightarrow> nat \<Rightarrow> 'st Fate \<Rightarrow> 'w Deployment \<Rightarrow> 'w Deployment option" where
  "read_move S i f D =
     (if i < length (spawned (gateway D))
      then (case read_outcome (site_uuid S) (site_client S) ([f], store D) (spawned (gateway D) ! i) of
          None \<Rightarrow> None
        | Some ((fs, w'), out) \<Rightarrow>
            map_option (\<lambda>g. D\<lparr>gateway := g, store := w'\<rparr>) (finish_move i out (gateway D)))
      else None)"

definition lookup_move ::
  "('w, 'r, 'rows, 'p, 'st) Site \<Rightarrow> string \<Rightarrow> string \<Rightarrow> string \<Rightarrow> 'w Deployment \<Rightarrow> 'w Deployment option" where
  "lookup_move S pid a b D =
     (if pid = [] \<or> a = [] \<or> b = [] \<or> a = b then None
      else (case getsert_lookup (site_session S) (store D) pid (ordered_pair a b) of
          (w', Inr None) \<Rightarrow> Some (D\<lparr>store := w', asked := asked D @ [(pid, ordered_pair a b)]\<rparr>)
        | (w', _) \<Rightarrow> Some (D\<lparr>store := w'\<rparr>)))"

definition insert_move ::
  "('w, 'r, 'rows, 'p, 'st) Site \<Rightarrow> nat \<Rightarrow> string \<Rightarrow> 'w Deployment \<Rightarrow> 'w Deployment option" where
  "insert_move S i new_id D =
     (if i < length (asked D)
      then (case asked D ! i of (pid, peers) \<Rightarrow>
        Some (D\<lparr>store := fst (getsert_insert (site_session S) new_id (store D) pid peers),
                asked := take i (asked D) @ drop (Suc i) (asked D)\<rparr>))
      else None)"

fun deployment_move ::
  "('w, 'r, 'rows, 'p, 'st) Site \<Rightarrow> 'w Deployment \<Rightarrow> 'st DeployMove \<Rightarrow> 'w Deployment option" where
  "deployment_move S D (Local mv) =
     (if is_local mv
      then map_option (\<lambda>g. D\<lparr>gateway := g\<rparr>) (gateway_move (site_parse S) (site_iter S) (gateway D) mv)
      else None)"
| "deployment_move S D (Attempt i f now) = attempt_move S i f now D"
| "deployment_move S D (Read i f) = read_move S i f D"
| "deployment_move S D (LookUp pid a b) = lookup_move S pid a b D"
| "deployment_move S D (Insert i new_id) = insert_move S i new_id D"

inductive deployed :: "('w, 'r, 'rows, 'p, 'st) Site \<Rightarrow> 'w \<Rightarrow> 'w Deployment \<Rightarrow> bool" for S w where
  start: "deployed S w (deployment_init p w)"
| move: "deployed S w D \<Longrightarrow> deployment_move S D mv = Some D' \<Longrightarrow> deployed S w D'"

section \<open>Attempts and the retry loop\<close>

context retry_loop
begin

lemma last_turn: "loop m m l w = (case call w of
    (w', Inr response) \<Rightarrow> (w', [], Inr (Inr response)) | (w', Inl e) \<Rightarrow> (w', [], Inr (Inl e)))"
  by (auto simp: turn [of m m] turn [of m "Suc m"] split: prod.splits sum.splits)

lemma earlier_turn: "n < m \<Longrightarrow> loop m n l w = (case call w of
    (w', Inr response) \<Rightarrow> (w', [], Inr (Inr response))
  | (w', Inl e) \<Rightarrow> (case loop m (n + 1) (Some e) w' of (w'', ds, r) \<Rightarrow> (w'', 100 * (n + 1) # ds, r)))"
  by (simp add: turn [of m n] split: prod.splits sum.splits)

lemma attempts_loop:
  "k + n = Suc m \<Longrightarrow> n \<le> m \<Longrightarrow>
   attempts k (one_attempt call m response_to error_to) n w =
   (case loop m n l w of
      (w', ds, Inl p) \<Rightarrow> None
    | (w', ds, Inr (Inr response)) \<Rightarrow> Some (w', response_to response)
    | (w', ds, Inr (Inl e)) \<Rightarrow> Some (w', error_to e))"
proof (induction k arbitrary: n l w)
  case (Suc k)
  show ?case
  proof (cases "n = m")
    case True
    then show ?thesis by (simp add: last_turn one_attempt_def split: prod.splits sum.splits)
  next
    case False
    then have n: "k + Suc n = Suc m" "Suc n \<le> m" "n < m" using Suc.prems by auto
    obtain w' r where "call w = (w', r)" by force
    then show ?thesis
      using Suc.IH [OF n(1,2), of w' "Some (projl r)"] n(3)
      by (cases r) (auto simp: earlier_turn one_attempt_def split: prod.splits sum.splits)
  qed
qed simp

end

lemma attempts_dm:
  "map_option (\<lambda>(w', r). (w', Inr r)) (attempts 4 (dm_attempt u client conv sender receiver body mid ts) 0 w) =
   Some (handle_persist_direct_message u client w conv sender receiver body mid ts)"
proof -
  obtain w' ds r where "write_dm_loop client (dm_request u conv sender receiver body mid ts) 3 0 None w = (w', ds, Inr r)"
    using dm_retry.never_panics [of client "dm_request u conv sender receiver body mid ts" 3 w] by (elim exE) (rule that)
  then show ?thesis
    by (cases r) (simp_all add: dm_attempt_def handle_persist_direct_message_def write_dm_with_retry_def
        dm_retry.attempts_loop [where l = None])
qed

lemma attempts_room:
  "map_option (\<lambda>(w', r). (w', Inr r)) (attempts 4 (room_attempt u client rid sender body mid ts) 0 w) =
   Some (handle_persist_room_message u client w rid sender body mid ts)"
proof -
  obtain w' ds r where "write_room_message_loop client (room_request u rid sender body mid ts) 3 0 None w = (w', ds, Inr r)"
    using room_retry.never_panics [of client "room_request u rid sender body mid ts" 3 w] by (elim exE) (rule that)
  then show ?thesis
    by (cases r) (simp_all add: room_attempt_def handle_persist_room_message_def write_room_message_with_retry_def
        room_retry.attempts_loop [where l = None])
qed

section \<open>What an attempt does to the database\<close>

lemma one_call:
  assumes "over_network serve ([f], w) q = ((fs, w'), r)"
  shows "(w' = w \<or> w' = fst (serve w q)) \<and> (\<forall>x. r = Inr x \<longrightarrow> w' = fst (serve w q) \<and> x = snd (serve w q))"
  using assms by (cases f) auto

text \<open>The write a task makes, on the tables.\<close>

fun write_of :: "UuidOps \<Rightarrow> Task \<Rightarrow> database \<Rightarrow> database" where
  "write_of u (PersistDirectMessage conv from to body mid ts c) db =
     dm_written (requested_row (dm_request u conv from to body mid ts) mid) db"
| "write_of u (PersistRoomMessage rid from body mid ts c) db =
     room_written (requested_room_row (room_request u rid from body mid ts) mid) db"
| "write_of u _ db = db"

lemma write_of_ok: "db_ok db \<Longrightarrow> db_ok (write_of u t db)"
  by (cases t) (simp_all add: dm_written_ok room_written_ok)

lemma dm_attempt_effect:
  assumes "uuid_ops u" and "serves d b" and "db_ok (contents b w)"
    and "dm_attempt u (service_client u d queries show_st) conv sender receiver body mid ts n ([f], w) = ((fs, w'), r)"
  defines "written \<equiv> dm_written (requested_row (dm_request u conv sender receiver body mid ts) mid) (contents b w)"
  shows "(contents b w' = contents b w \<or> contents b w' = written) \<and> (r = Some (Inr ()) \<longrightarrow> contents b w' = written)"
proof -
  let ?req = "dm_request u conv sender receiver body mid ts"
  obtain fs0 w0 x where net: "over_network (service_write_dm u d) ([f], w) ?req = ((fs0, w0), x)" by (metis prod.exhaust)
  then have eq: "fs0 = fs" "w0 = w'" and ok: "r = Some (Inr ()) \<longrightarrow> (\<exists>resp. x = Inr resp \<and> WriteDmResponse.success resp)"
    using assms(4) by (cases x; force simp: dm_attempt_def one_attempt_def service_client_def split: if_splits)+
  have "parse_str u (WriteDmRequest.message_id ?req) = Some mid"
    using assms(1) by (simp add: dm_request_def uuid_ops_parse)
  from service_write_dm_cases [OF assms(2,3) this surjective_pairing]
  show ?thesis using one_call [OF net] ok unfolding eq written_def by metis
qed

lemma room_attempt_effect:
  assumes "uuid_ops u" and "serves d b" and "db_ok (contents b w)"
    and "room_attempt u (service_client u d queries show_st) rid sender body mid ts n ([f], w) = ((fs, w'), r)"
  defines "written \<equiv> room_written (requested_room_row (room_request u rid sender body mid ts) mid) (contents b w)"
  shows "(contents b w' = contents b w \<or> contents b w' = written) \<and> (r = Some (Inr ()) \<longrightarrow> contents b w' = written)"
proof -
  let ?req = "room_request u rid sender body mid ts"
  obtain fs0 w0 x where net: "over_network (service_write_room_message u d) ([f], w) ?req = ((fs0, w0), x)" by (metis prod.exhaust)
  then have eq: "fs0 = fs" "w0 = w'" and ok: "r = Some (Inr ()) \<longrightarrow> (\<exists>resp. x = Inr resp \<and> WriteRoomMessageResponse.success resp)"
    using assms(4) by (cases x; force simp: room_attempt_def one_attempt_def service_client_def split: if_splits)+
  have "parse_str u (WriteRoomMessageRequest.message_id ?req) = Some mid"
    using assms(1) by (simp add: room_request_def uuid_ops_parse)
  from service_write_room_message_cases [OF assms(2,3) this surjective_pairing]
  show ?thesis using one_call [OF net] ok unfolding eq written_def by metis
qed

lemma write_attempt_effect:
  assumes "uuid_ops u" and "serves d b" and "db_ok (contents b w)"
    and "write_attempt u (service_client u d queries show_st) ([f], w) t n = Some (c, (fs, w'), r)"
  shows "contents b w' = contents b w \<or> contents b w' = write_of u t (contents b w)"
    and "r = Some (Inr ()) \<Longrightarrow> contents b w' = write_of u t (contents b w)"
    and "\<exists>m. writes t = Some m \<and> reply_channel m = Some c"
proof -
  have "(contents b w' = contents b w \<or> contents b w' = write_of u t (contents b w)) \<and>
      (r = Some (Inr ()) \<longrightarrow> contents b w' = write_of u t (contents b w))"
  proof (cases t)
    case (PersistDirectMessage conv sender receiver body mid ts c')
    with assms(4) show ?thesis by (auto dest!: dm_attempt_effect [OF assms(1-3)])
  next
    case (PersistRoomMessage rid sender body mid ts c')
    with assms(4) show ?thesis by (auto dest!: room_attempt_effect [OF assms(1-3)])
  qed (use assms(4) in simp_all)
  then show "contents b w' = contents b w \<or> contents b w' = write_of u t (contents b w)"
    and "r = Some (Inr ()) \<Longrightarrow> contents b w' = write_of u t (contents b w)" by blast+
  show "\<exists>m. writes t = Some m \<and> reply_channel m = Some c" using assms(4) by (cases t) simp_all
qed

section \<open>What a read answers\<close>

text \<open>A stored message as a client gets it, and the history a request asks for.\<close>

definition as_response :: "DbMessage \<Rightarrow> ResponseDirectMessage" where
  "as_response m =
     \<lparr>ResponseDirectMessage.conversation_id = DbMessage.conversation_id m,
      ResponseDirectMessage.message_id = DbMessage.message_id m,
      ResponseDirectMessage.sender_id = DbMessage.sender_id m,
      ResponseDirectMessage.recipient_id = DbMessage.recipient_id m,
      ResponseDirectMessage.message_text = DbMessage.message_text m,
      ResponseDirectMessage.created_at = DbMessage.created_at m\<rparr>"

fun asks :: "RouterMessage \<Rightarrow> (string \<times> string) option" where
  "asks (RouterMessage.GetPaginatedMessages pid mid conv c) = Some (pid, conv)"
| "asks (RouterMessage.SyncMessages pid conv mid c) = Some (pid, conv)"
| "asks _ = None"

lemma response_of_stored:
  "uuid_ops u \<Longrightarrow> response_direct_messages u (map (direct_message_pb u) ms) = map as_response ms"
  by (rule nth_equalityI) (simp_all add: response_direct_messages_def response_direct_message_def
      nth_enumerate_eq direct_message_pb_def as_response_def uuid_ops_parse)

lemma service_page_stored:
  assumes "serves d b" and "db_ok (contents b w)" and "service_get_paginated_messages u d w req = (w', resp)"
  shows "contents b w' = contents b w \<and>
    (\<exists>ms. GetPaginatedMessagesResponse.messages resp = map (direct_message_pb u) ms \<and>
       set ms \<subseteq> set (history (tkey b) (contents b w) (GetPaginatedMessagesRequest.project_id req)
         (GetPaginatedMessagesRequest.conversation_id req)))"
proof (cases "parse_cursor u (GetPaginatedMessagesRequest.cursor_message_id req) = None \<or>
    GetPaginatedMessagesRequest.project_id req = [] \<or> GetPaginatedMessagesRequest.conversation_id req = []")
  case True
  then show ?thesis using assms(3) by (auto simp: service_get_paginated_messages_def split: option.splits)
next
  case False
  then obtain cursor where cursor: "parse_cursor u (GetPaginatedMessagesRequest.cursor_message_id req) = Some cursor" by auto
  note fetch = fetch_contents(1) [OF assms(1), of w "GetPaginatedMessagesRequest.project_id req"
      "GetPaginatedMessagesRequest.conversation_id req" cursor]
    fetched_are_stored(1) [OF assms(1,2), of "GetPaginatedMessagesRequest.project_id req"
      "GetPaginatedMessagesRequest.conversation_id req" cursor]
  obtain w1 r where fetched: "fetch_paginated_messages d w (GetPaginatedMessagesRequest.project_id req)
      (GetPaginatedMessagesRequest.conversation_id req) cursor = (w1, r)" by force
  show ?thesis
  proof (cases r)
    case (Inl e)
    then show ?thesis using False cursor assms(3) fetch(1) by (auto simp: service_get_paginated_messages_def fetched)
  next
    case (Inr ms)
    then show ?thesis using False cursor assms(3) fetch(1) fetch(2) [of ms] by (auto simp: service_get_paginated_messages_def fetched)
  qed
qed

lemma service_sync_stored:
  assumes "serves d b" and "db_ok (contents b w)" and "statement_of b queries = q_fetch_after"
    and "service_sync_messages u d queries w req = (w', resp)"
  shows "contents b w' = contents b w \<and>
    (\<exists>ms. SyncMessagesResponse.messages resp = map (direct_message_pb u) ms \<and>
       set ms \<subseteq> set (history (tkey b) (contents b w) (SyncMessagesRequest.project_id req)
         (SyncMessagesRequest.conversation_id req)))"
proof (cases "parse_str u (last_message_id req) = None \<or>
    SyncMessagesRequest.project_id req = [] \<or> SyncMessagesRequest.conversation_id req = []")
  case True
  then show ?thesis using assms(4) by (auto simp: service_sync_messages_def split: option.splits)
next
  case False
  then obtain i where i: "parse_str u (last_message_id req) = Some i" by auto
  note fetch = fetch_contents(2) [OF assms(1,3), of w "SyncMessagesRequest.project_id req"
      "SyncMessagesRequest.conversation_id req" i]
    fetched_are_stored(2) [OF assms(1,2,3), of "SyncMessagesRequest.project_id req"
      "SyncMessagesRequest.conversation_id req" i]
  obtain w1 r where fetched: "fetch_messages_after d queries w (SyncMessagesRequest.project_id req)
      (SyncMessagesRequest.conversation_id req) i = (w1, r)" by force
  show ?thesis
  proof (cases r)
    case (Inl e)
    then show ?thesis using False i assms(4) fetch(1) by (auto simp: service_sync_messages_def fetched)
  next
    case (Inr ms)
    then show ?thesis using False i assms(4) fetch(1) fetch(2) [of ms] by (auto simp: service_sync_messages_def fetched)
  qed
qed

lemma page_outcome:
  assumes "uuid_ops u" and "serves d b" and "db_ok (contents b w)"
    and "persistence_get_paginated_messages u (service_client u d queries show_st) ([f], w) pid mid conv = ((fs, w'), res)"
  shows "contents b w' = contents b w \<and>
    set (outcome_messages (PageRead res)) \<subseteq> as_response ` set (history (tkey b) (contents b w) pid conv)"
proof -
  let ?req = "\<lparr>GetPaginatedMessagesRequest.project_id = pid, GetPaginatedMessagesRequest.conversation_id = conv,
    GetPaginatedMessagesRequest.cursor_message_id = (case mid of Some i \<Rightarrow> to_string u i | None \<Rightarrow> [])\<rparr>"
  obtain fs0 w0 x where net: "over_network (service_get_paginated_messages u d) ([f], w) ?req = ((fs0, w0), x)"
    by (metis prod.exhaust)
  note one_call [OF net] service_page_stored [OF assms(2,3) surjective_pairing, of u ?req]
  moreover have "w0 = w'" and "set (outcome_messages (PageRead res)) \<subseteq> (case x of Inl e \<Rightarrow> {}
      | Inr resp \<Rightarrow> set (response_direct_messages u (GetPaginatedMessagesResponse.messages resp)))"
    using net assms(4) by (cases x; force simp: persistence_get_paginated_messages_def service_client_def Let_def
        split: if_splits)+
  ultimately show ?thesis using response_of_stored [OF assms(1)] by (cases x) (fastforce)+
qed

lemma sync_outcome:
  assumes "uuid_ops u" and "serves d b" and "db_ok (contents b w)" and "statement_of b queries = q_fetch_after"
    and "persistence_sync_messages u (service_client u d queries show_st) ([f], w) pid conv mid = ((fs, w'), res)"
  shows "contents b w' = contents b w \<and>
    set (outcome_messages (SyncRead res)) \<subseteq> as_response ` set (history (tkey b) (contents b w) pid conv)"
proof -
  let ?req = "\<lparr>SyncMessagesRequest.project_id = pid, SyncMessagesRequest.conversation_id = conv,
    SyncMessagesRequest.last_message_id = to_string u mid\<rparr>"
  obtain fs0 w0 x where net: "over_network (service_sync_messages u d queries) ([f], w) ?req = ((fs0, w0), x)"
    by (metis prod.exhaust)
  note one_call [OF net] service_sync_stored [OF assms(2,3,4) surjective_pairing, of u ?req]
  moreover have "w0 = w'" and "set (outcome_messages (SyncRead res)) \<subseteq> (case x of Inl e \<Rightarrow> {}
      | Inr resp \<Rightarrow> set (response_direct_messages u (SyncMessagesResponse.messages resp)))"
    using net assms(5) by (cases x; force simp: persistence_sync_messages_def service_client_def Let_def
        split: if_splits)+
  ultimately show ?thesis using response_of_stored [OF assms(1)] by (cases x) (fastforce)+
qed

lemma read_outcome_effect:
  assumes "uuid_ops u" and "serves d b" and "db_ok (contents b w)" and "statement_of b queries = q_fetch_after"
    and "read_outcome u (service_client u d queries show_st) ([f], w) t = Some ((fs, w'), out)"
  shows "contents b w' = contents b w"
    and "\<exists>m pid conv. fetches t = Some m \<and> asks m = Some (pid, conv) \<and>
      set (outcome_messages out) \<subseteq> as_response ` set (history (tkey b) (contents b w) pid conv)"
  using assms(5) page_outcome [OF assms(1-3)] sync_outcome [OF assms(1-4)]
  by (cases t; simp split: prod.splits; blast)+

end
