(* ===== verification/Deployment_Safety.thy ===== *)
theory Deployment_Safety
  imports Deployment
begin

text \<open>
  What holds in every reachable state of the gateway together with the chat service: what is in the
  database was sent by authenticated users, what is acknowledged as persisted is in the database,
  and what clients read back was sent.
\<close>

section \<open>Moves\<close>

lemma deployment_move_cases:
  assumes "deployment_move S D mv = Some D'"
  obtains (local) mv' where "is_local mv'" "gateway_move (site_parse S) (site_iter S) (gateway D) mv' = Some (gateway D')"
      "store D' = store D"
    | (retry) i f c fs where "i < length (spawned (gateway D))" "gateway D' = gateway D"
      "write_attempt (site_uuid S) (site_client S) ([f], store D) (spawned (gateway D) ! i) (tries D) =
         Some (c, (fs, store D'), None)"
    | (written) i f now c fs res where "i < length (spawned (gateway D))"
      "write_attempt (site_uuid S) (site_client S) ([f], store D) (spawned (gateway D) ! i) (tries D) =
         Some (c, (fs, store D'), Some res)"
      "gateway_move (site_parse S) (site_iter S) (gateway D) (Finish i (Written res now)) = Some (gateway D')"
    | (read) i f fs out where "i < length (spawned (gateway D))"
      "read_outcome (site_uuid S) (site_client S) ([f], store D) (spawned (gateway D) ! i) = Some ((fs, store D'), out)"
      "gateway_move (site_parse S) (site_iter S) (gateway D) (Finish i out) = Some (gateway D')"
    | (lookup) pid peers where "gateway D' = gateway D"
      "store D' = fst (getsert_lookup (site_session S) (store D) pid peers)"
    | (insert) pid peers new_id where "gateway D' = gateway D"
      "store D' = fst (getsert_insert (site_session S) new_id (store D) pid peers)"
proof (cases mv)
  case (Local mv')
  then show ?thesis using assms local by (auto split: if_splits)
next
  case (Attempt i f now)
  then show ?thesis
    using assms retry [of i f] written [of i f _ _ _ now]
    by (auto simp: attempt_move_def split: if_splits option.splits)
next
  case (Read i f)
  then show ?thesis using assms read [of i f] by (auto simp: read_move_def split: if_splits option.splits)
next
  case (LookUp pid x y)
  then show ?thesis
    using assms lookup [of pid "ordered_pair x y"]
    by (auto simp: lookup_move_def split: if_splits prod.splits sum.splits option.splits)
next
  case (Insert i new_id)
  then show ?thesis using assms insert by (auto simp: insert_move_def split: if_splits prod.splits)
qed

text \<open>The gateway in a deployment is a gateway.\<close>

lemma deployed_reachable: "deployed S w D \<Longrightarrow> reachable (site_parse S) (site_iter S) (gateway D)"
proof (induction rule: deployed.induct)
  case (start p)
  then show ?case by (simp add: deployment_init_def reachable.start)
next
  case (move D mv D')
  from move.hyps(2) show ?case
    by (cases rule: deployment_move_cases) (use move.IH in \<open>metis reachable.move\<close>)+
qed

text \<open>What the rest of the world is assumed to do: \<open>b\<close> describes the database, \<open>w\<close> is its state at the start.\<close>

definition site_ok :: "('w, 'r, 'rows, 'p, 'st) Site \<Rightarrow> ('w, 'rows, 'p) Backend \<Rightarrow> 'w \<Rightarrow> bool" where
  "site_ok S b w \<longleftrightarrow> uuid_ops (site_uuid S) \<and> serves (site_session S) b \<and>
     statement_of b (site_queries S) = q_fetch_after \<and> hash_iter (site_iter S) \<and> db_ok (contents b w)"

text \<open>What a move does to the database: nothing that touches the messages, or the write of a task.\<close>

lemma move_store:
  assumes "site_ok S b w" and "db_ok (contents b (store D))" and "deployment_move S D mv = Some D'"
  shows "db_ok (contents b (store D')) \<and>
    ((\<forall>tk pid conv. history tk (contents b (store D')) pid conv = history tk (contents b (store D)) pid conv) \<and>
     (\<forall>tk pid rid. room_history tk (contents b (store D')) pid rid = room_history tk (contents b (store D)) pid rid) \<or>
     (\<exists>t m. t \<in> set (spawned (gateway D)) \<and> writes t = Some m \<and>
        contents b (store D') = write_of (site_uuid S) t (contents b (store D))))"
proof -
  note ok = assms(1) [unfolded site_ok_def]
  have by_task: ?thesis if i: "i < length (spawned (gateway D))" and a: "write_attempt (site_uuid S) (site_client S)
      ([f], store D) (spawned (gateway D) ! i) (tries D) = Some (c, (fs, store D'), r)" for i f c fs r
    using write_attempt_effect(1,3) [OF _ _ assms(2) a [unfolded site_client_def]] ok nth_mem [OF i]
      write_of_ok [OF assms(2), of "site_uuid S"] assms(2) by metis
  from assms(3) show ?thesis
  proof (cases rule: deployment_move_cases)
    case (read i f fs out)
    then have "contents b (store D') = contents b (store D)"
      using read_outcome_effect(1) [OF _ _ assms(2) _ read(2) [unfolded site_client_def]] ok by blast
    then show ?thesis using assms(2) by simp
  next
    case (lookup pid peers)
    then show ?thesis
      using getsert_lookup_exact [of "site_session S" b "store D" pid peers] ok assms(2) by auto
  next
    case (insert pid peers new_id)
    then show ?thesis
      using getsert_insert_effect [of "site_session S" b "store D" new_id pid peers] ok assms(2)
      by (auto simp: lookup_inserted_ok)
  qed (use by_task assms(2) in auto)
qed

lemma deployed_db_ok:
  assumes "site_ok S b w"
  shows "deployed S w D \<Longrightarrow> db_ok (contents b (store D))"
proof (induction rule: deployed.induct)
  case (start p)
  then show ?case using assms by (simp add: deployment_init_def site_ok_def)
next
  case (move D mv D')
  then show ?case using move_store [OF assms] by blast
qed

lemma deployed_tasks:
  assumes "site_ok S b w" and "deployed S w D" and "t \<in> set (spawned (gateway D))" and "writes t = Some m"
  shows "m \<in> snd ` set (handled (gateway D))"
  using acks_okD(1) [OF reachable_acks_ok [OF deployed_reachable [OF assms(2)]] assms(3,4)] assms(1)
  by (simp add: site_ok_def)

lemma deployment_handled:
  assumes "deployment_move S D mv = Some D'"
  shows "set (handled (gateway D)) \<subseteq> set (handled (gateway D'))"
  using assms by (cases rule: deployment_move_cases) (metis move_grows(1) subset_refl)+

section \<open>What is stored was sent\<close>

text \<open>The messages of a history that come from handled messages, with some time the router took.\<close>

definition sent_direct :: "UuidOps \<Rightarrow> (session_sender \<times> RouterMessage) list \<Rightarrow> string \<Rightarrow> string \<Rightarrow> DbMessage \<Rightarrow> bool" where
  "sent_direct u h pid conv x \<longleftrightarrow>
     (\<exists>s sender receiver body mid c ts. (s, RouterMessage.SendDirectMessage conv sender receiver body mid c) \<in> set h \<and>
        pid = TenantUserId.project_id sender \<and>
        x = new_message (requested_row (dm_request u conv sender receiver body mid ts) mid))"

definition sent_room :: "UuidOps \<Rightarrow> (session_sender \<times> RouterMessage) list \<Rightarrow> string \<Rightarrow> string \<Rightarrow> DbRoomMessage \<Rightarrow> bool" where
  "sent_room u h pid rid x \<longleftrightarrow>
     (\<exists>s sender body mid c ts. (s, SendRoomMessage rid sender body mid c) \<in> set h \<and>
        pid = TenantUserId.project_id sender \<and>
        x = new_room_message (requested_room_row (room_request u rid sender body mid ts) mid))"

lemma sent_mono:
  assumes "set h \<subseteq> set h'"
  shows "sent_direct u h pid conv x \<Longrightarrow> sent_direct u h' pid conv x"
    and "sent_room u h pid rid y \<Longrightarrow> sent_room u h' pid rid y"
  using assms unfolding sent_direct_def sent_room_def by blast+

lemma requested_fields [simp]:
  "DirectMessageRow.project_id (requested_row (dm_request u conv sender receiver body mid ts) mid) = TenantUserId.project_id sender"
  "DirectMessageRow.conversation_id (requested_row (dm_request u conv sender receiver body mid ts) mid) = conv"
  "DirectMessageRow.message_id (requested_row (dm_request u conv sender receiver body mid ts) mid) = mid"
  "DbRoomMessageEx.project_id (requested_room_row (room_request u rid sender body mid ts) mid) = TenantUserId.project_id sender"
  "DbRoomMessageEx.room_id (requested_room_row (room_request u rid sender body mid ts) mid) = rid"
  "DbRoomMessageEx.message_id (requested_room_row (room_request u rid sender body mid ts) mid) = mid"
  by (simp_all add: requested_row_def dm_request_def requested_room_row_def room_request_def)

lemma write_sent:
  assumes "db_ok db" and "writes t = Some m" and "m \<in> snd ` set h"
  shows "x \<in> set (history tk (write_of u t db) pid conv) \<Longrightarrow> x \<in> set (history tk db pid conv) \<or> sent_direct u h pid conv x"
    and "y \<in> set (room_history tk (write_of u t db) pid rid) \<Longrightarrow> y \<in> set (room_history tk db pid rid) \<or> sent_room u h pid rid y"
proof -
  show "x \<in> set (history tk db pid conv) \<or> sent_direct u h pid conv x"
    if "x \<in> set (history tk (write_of u t db) pid conv)"
    using that assms(2,3)
    by (cases t) (fastforce simp: history_after_write [OF assms(1)] sent_direct_def split: if_splits)+
  show "y \<in> set (room_history tk db pid rid) \<or> sent_room u h pid rid y"
    if "y \<in> set (room_history tk (write_of u t db) pid rid)"
    using that assms(2,3)
    by (cases t) (fastforce simp: room_history_after_write [OF assms(1)] sent_room_def split: if_splits)+
qed

lemma deployed_sent:
  assumes "site_ok S b w"
  shows "deployed S w D \<Longrightarrow>
    (\<forall>pid conv x. x \<in> set (history tk (contents b (store D)) pid conv) \<longrightarrow>
       x \<in> set (history tk (contents b w) pid conv) \<or> sent_direct (site_uuid S) (handled (gateway D)) pid conv x) \<and>
    (\<forall>pid rid x. x \<in> set (room_history tk (contents b (store D)) pid rid) \<longrightarrow>
       x \<in> set (room_history tk (contents b w) pid rid) \<or> sent_room (site_uuid S) (handled (gateway D)) pid rid x)"
proof (induction rule: deployed.induct)
  case (start p)
  then show ?case by (simp add: deployment_init_def)
next
  case (move D mv D')
  note sent = sent_mono [OF deployment_handled [OF move.hyps(2)], of "site_uuid S"]
  note old = move_store [OF assms deployed_db_ok [OF assms move.hyps(1)] move.hyps(2), THEN conjunct2]
  from old show ?case
  proof (elim disjE exE conjE)
    fix t m
    assume t: "t \<in> set (spawned (gateway D))" "writes t = Some m"
      and eq: "contents b (store D') = write_of (site_uuid S) t (contents b (store D))"
    note new = write_sent [OF deployed_db_ok [OF assms move.hyps(1)] t(2) deployed_tasks [OF assms move.hyps(1) t]]
    show ?thesis unfolding eq using new [of _ tk "site_uuid S"] move.IH sent by blast
  next
    assume "\<forall>tk pid conv. history tk (contents b (store D')) pid conv = history tk (contents b (store D)) pid conv"
      and "\<forall>tk pid rid. room_history tk (contents b (store D')) pid rid = room_history tk (contents b (store D)) pid rid"
    note same = this [rule_format]
    show ?thesis unfolding same using move.IH sent by blast
  qed
qed

section \<open>What is acknowledged is stored\<close>

text \<open>The partition and the id under which a message is stored; \<open>sole\<close>: no other handled message has them.\<close>

fun place :: "RouterMessage \<Rightarrow> (bool \<times> string \<times> string \<times> uuid) option" where
  "place (RouterMessage.SendDirectMessage conv sender receiver body mid c) =
     Some (True, TenantUserId.project_id sender, conv, mid)"
| "place (SendRoomMessage rid sender body mid c) = Some (False, TenantUserId.project_id sender, rid, mid)"
| "place _ = None"

definition sole :: "(session_sender \<times> RouterMessage) list \<Rightarrow> RouterMessage \<Rightarrow> bool" where
  "sole h m \<longleftrightarrow> (\<forall>(s, m') \<in> set h. place m' = place m \<longrightarrow> m' = m)"

fun stored :: "(uuid \<Rightarrow> int) \<Rightarrow> UuidOps \<Rightarrow> database \<Rightarrow> RouterMessage \<Rightarrow> bool" where
  "stored tk u db (RouterMessage.SendDirectMessage conv sender receiver body mid c) \<longleftrightarrow>
     (\<exists>ts. new_message (requested_row (dm_request u conv sender receiver body mid ts) mid)
        \<in> set (history tk db (TenantUserId.project_id sender) conv))"
| "stored tk u db (SendRoomMessage rid sender body mid c) \<longleftrightarrow>
     (\<exists>ts. new_room_message (requested_room_row (room_request u rid sender body mid ts) mid)
        \<in> set (room_history tk db (TenantUserId.project_id sender) rid))"
| "stored tk u db _ \<longleftrightarrow> False"

lemma message_ids [simp]:
  "DbMessage.message_id (new_message r) = DirectMessageRow.message_id r"
  "DbRoomMessage.message_id (new_room_message r') = DbRoomMessageEx.message_id r'"
  by (simp_all add: new_message_def new_room_message_def)

lemma stored_new: "db_ok db \<Longrightarrow> writes t = Some m \<Longrightarrow> stored tk u (write_of u t db) m"
  by (cases t) (auto simp: history_after_write room_history_after_write)

lemma stored_kept:
  assumes "db_ok db" and "writes t = Some m'" and "stored tk u db m" and "place m' \<noteq> place m"
  shows "stored tk u (write_of u t db) m"
  using assms(2-4)
  by (cases t; cases m) (auto simp: history_after_write [OF assms(1)] room_history_after_write [OF assms(1)] split: if_splits)

lemma stored_cong:
  assumes "\<And>pid conv. history tk db' pid conv = history tk db pid conv"
    and "\<And>pid rid. room_history tk db' pid rid = room_history tk db pid rid"
  shows "stored tk u db' m = stored tk u db m"
  by (cases m) (simp_all add: assms)

lemma sole_mono: "sole h' m \<Longrightarrow> set h \<subseteq> set h' \<Longrightarrow> sole h m"
  unfolding sole_def by blast

lemma channel_owner:
  assumes "reachable parse iter g" and "(s, m) \<in> set (handled g)" and "(s', m') \<in> set (handled g)"
    and "reply_channel m = Some c" and "reply_channel m' = Some c"
  shows "(s', m') = (s, m)"
proof -
  have "distinct (reply_channels (handled g))"
    using reachable_channels_ok [OF assms(1)] by (simp add: channels_ok_def)
  then show ?thesis using reply_channels_unique assms(2-5) by metis
qed

lemma stored_step:
  assumes "site_ok S b w" and "deployed S w D" and "deployment_move S D mv = Some D'"
    and "stored tk (site_uuid S) (contents b (store D)) m" and "sole (handled (gateway D)) m"
  shows "stored tk (site_uuid S) (contents b (store D')) m"
proof -
  note db = deployed_db_ok [OF assms(1,2)]
  from move_store [OF assms(1) db assms(3), THEN conjunct2] show ?thesis
  proof (elim disjE exE conjE)
    fix t m'
    assume t: "t \<in> set (spawned (gateway D))" "writes t = Some m'"
      and eq: "contents b (store D') = write_of (site_uuid S) t (contents b (store D))"
    have "place m' = place m \<longrightarrow> m' = m" using deployed_tasks [OF assms(1,2) t] assms(5) unfolding sole_def by force
    then show ?thesis
      unfolding eq using stored_new [OF db t(2)] stored_kept [OF db t(2) assms(4)] by blast
  next
    assume "\<forall>tk pid conv. history tk (contents b (store D')) pid conv = history tk (contents b (store D)) pid conv"
      and "\<forall>tk pid rid. room_history tk (contents b (store D')) pid rid = room_history tk (contents b (store D)) pid rid"
    then show ?thesis using assms(4) stored_cong [of tk "contents b (store D')" "contents b (store D)"] by blast
  qed
qed

text \<open>The move that acknowledges a message as persisted is the attempt that has stored it.\<close>

lemma persisted_stored:
  assumes "site_ok S b w" and "deployed S w D" and "deployment_move S D mv = Some D'"
    and "answers (gateway D) c \<noteq> Some (AckReply k)" and "answers (gateway D') c = Some (AckReply k)" and "status k = Persisted"
  shows "\<exists>s m. (s, m) \<in> set (handled (gateway D)) \<and> reply_channel m = Some c \<and>
    stored tk (site_uuid S) (contents b (store D')) m"
proof -
  have iter: "hash_iter (site_iter S)" and u: "uuid_ops (site_uuid S)" and d: "serves (site_session S) b"
    using assms(1) by (simp_all add: site_ok_def)
  note db = deployed_db_ok [OF assms(1,2)]
  note by_write = persisted_by_write [OF deployed_reachable [OF assms(2)] iter _ assms(4-6)]
  from assms(3) show ?thesis
  proof (cases rule: deployment_move_cases)
    case (local mv')
    then show ?thesis using by_write [OF local(2)] by auto
  next
    case (written i f now c' fs res)
    from by_write [OF written(3)] obtain s m where m: "res = Inr ()" "writes (spawned (gateway D) ! i) = Some m"
      "(s, m) \<in> set (handled (gateway D))" "sent_with c (MessageAckResponse.message_id k) m" by auto
    have "contents b (store D') = write_of (site_uuid S) (spawned (gateway D) ! i) (contents b (store D))"
      using write_attempt_effect(2) [OF u d db written(2) [unfolded site_client_def]] m(1) by simp
    then show ?thesis
      using stored_new [OF db m(2), of tk "site_uuid S"] sent_with_channel [OF m(4)] m(3)
      by (intro exI [of _ s] exI [of _ m]) simp
  next
    case (read i f fs out)
    have "\<nexists>res now. out = Written res now"
      using read(2) by (cases "spawned (gateway D) ! i") (auto split: prod.splits)
    then show ?thesis using by_write [OF read(3)] by blast
  qed (use assms(4,5) in simp_all)
qed

lemma deployed_persisted:
  assumes "site_ok S b w"
  shows "deployed S w D \<Longrightarrow> answers (gateway D) c = Some (AckReply k) \<Longrightarrow> status k = Persisted \<Longrightarrow>
    (s, m) \<in> set (handled (gateway D)) \<Longrightarrow> reply_channel m = Some c \<Longrightarrow> sole (handled (gateway D)) m \<Longrightarrow>
    stored tk (site_uuid S) (contents b (store D)) m"
proof (induction rule: deployed.induct)
  case (start p)
  then show ?case by (simp add: deployment_init_def gateway_init_def)
next
  case (move D mv D')
  note h = deployment_handled [OF move.hyps(2)]
  note owner = channel_owner [OF deployed_reachable [OF deployed.move [OF move.hyps]] move.prems(3) _ move.prems(4)]
  have iter: "hash_iter (site_iter S)" using assms by (simp add: site_ok_def)
  show ?case
  proof (cases "answers (gateway D) c = Some (AckReply k)")
    case True
    obtain s' m' where "(s', m') \<in> set (handled (gateway D))" "reply_channel m' = Some c"
      using acks_okD(3) [OF reachable_acks_ok [OF deployed_reachable [OF move.hyps(1)] iter] True] sent_with_channel
      by force
    then have "(s, m) \<in> set (handled (gateway D))" using owner h by blast
    then have "stored tk (site_uuid S) (contents b (store D)) m"
      using move.IH True move.prems(2,4) sole_mono [OF move.prems(5) h] by blast
    then show ?thesis using stored_step [OF assms move.hyps] sole_mono [OF move.prems(5) h] by blast
  next
    case False
    then show ?thesis
      using persisted_stored [OF assms move.hyps False move.prems(1,2), of tk] owner h by blast
  qed
qed

section \<open>What is read was sent\<close>

definition known :: "('w, 'r, 'rows, 'p, 'st) Site \<Rightarrow> ('w, 'rows, 'p) Backend \<Rightarrow> 'w \<Rightarrow> (session_sender \<times> RouterMessage) list \<Rightarrow>
  string \<Rightarrow> string \<Rightarrow> ResponseDirectMessage \<Rightarrow> bool" where
  "known S b w h pid conv x \<longleftrightarrow>
     (\<exists>y. x = as_response y \<and>
        (y \<in> set (history (tkey b) (contents b w) pid conv) \<or> sent_direct (site_uuid S) h pid conv y))"

lemma known_mono: "known S b w h pid conv x \<Longrightarrow> set h \<subseteq> set h' \<Longrightarrow> known S b w h' pid conv x"
  unfolding known_def using sent_mono(1) by blast

lemma read_known:
  assumes "site_ok S b w" and "deployed S w D" and "deployment_move S D mv = Some D'"
    and "answers (gateway D) c \<noteq> Some v" and "answers (gateway D') c = Some v" and "x \<in> set (answered_messages v)"
  shows "\<exists>s m pid conv. (s, m) \<in> set (handled (gateway D)) \<and> reply_channel m = Some c \<and> asks m = Some (pid, conv) \<and>
    known S b w (handled (gateway D)) pid conv x"
proof -
  have u: "uuid_ops (site_uuid S)" and d: "serves (site_session S) b"
    and q: "statement_of b (site_queries S) = q_fetch_after"
    using assms(1) by (simp_all add: site_ok_def)
  note by_read = answered_by_read [OF deployed_reachable [OF assms(2)] _ assms(4-6)]
  from assms(3) show ?thesis
  proof (cases rule: deployment_move_cases)
    case (local mv')
    then show ?thesis using by_read [OF local(2)] by fastforce
  next
    case (written i f now c' fs res)
    then show ?thesis using by_read [OF written(3)] by fastforce
  next
    case (read i f fs out)
    from by_read [OF read(3)] obtain s m where m: "fetches (spawned (gateway D) ! i) = Some m"
      "(s, m) \<in> set (handled (gateway D))" "reply_channel m = Some c" "x \<in> set (outcome_messages out)" by fastforce
    from read_outcome_effect(2) [OF u d deployed_db_ok [OF assms(1,2)] q read(2) [unfolded site_client_def]] m(1,4)
    obtain pid conv y where y: "asks m = Some (pid, conv)" "x = as_response y"
      "y \<in> set (history (tkey b) (contents b (store D)) pid conv)" by auto
    have "known S b w (handled (gateway D)) pid conv x"
      unfolding known_def using deployed_sent [OF assms(1,2), THEN conjunct1] y(2,3) by blast
    then show ?thesis using m(2,3) y(1) by blast
  qed (use assms(4,5) in simp_all)
qed

lemma deployed_reads:
  assumes "site_ok S b w"
  shows "deployed S w D \<Longrightarrow> answers (gateway D) c = Some v \<Longrightarrow> x \<in> set (answered_messages v) \<Longrightarrow>
    \<exists>s m pid conv. (s, m) \<in> set (handled (gateway D)) \<and> reply_channel m = Some c \<and> asks m = Some (pid, conv) \<and>
      known S b w (handled (gateway D)) pid conv x"
proof (induction rule: deployed.induct)
  case (start p)
  then show ?case by (simp add: deployment_init_def gateway_init_def)
next
  case (move D mv D')
  note h = deployment_handled [OF move.hyps(2)]
  have "\<exists>s m pid conv. (s, m) \<in> set (handled (gateway D)) \<and> reply_channel m = Some c \<and> asks m = Some (pid, conv) \<and>
      known S b w (handled (gateway D)) pid conv x"
    using move.IH move.prems read_known [OF assms move.hyps _ move.prems] by blast
  then show ?case using h by (meson known_mono subsetD)
qed

section \<open>Attempts make progress\<close>

lemma finish_direct:
  assumes "i < length (spawned g)" and "spawned g ! i = PersistDirectMessage conv sender receiver body mid ts c"
    and "answers g c = None"
  shows "\<exists>g'. finish_move i (Written res now) g = Some g' \<and> answers g' c = Some (AckReply
    \<lparr>MessageAckResponse.message_id = mid, timestamp = now, status = (case res of Inr _ \<Rightarrow> Persisted | Inl e \<Rightarrow> Failed e)\<rparr>)"
  using assms by (cases res) (simp_all add: finish_move_def apply_effects_def dm_persist_task_def)

lemma attempt_direct:
  assumes "i < length (spawned (gateway D))" and "answers (gateway D) c = None"
    and "spawned (gateway D) ! i = PersistDirectMessage conv sender receiver body mid ts c"
  shows "\<exists>D'. deployment_move S D (Attempt i f now) = Some D' \<and>
    (answers (gateway D') c \<noteq> None \<or>
     gateway D' = gateway D \<and> tries D' c = tries D c + 1 \<and> tries D c + 1 \<le> 3)"
proof -
  let ?call = "dm_attempt (site_uuid S) (site_client S) conv sender receiver body mid ts (tries D c) ([f], store D)"
  obtain fs w' r where call: "?call = ((fs, w'), r)" by (metis prod.exhaust)
  show ?thesis
  proof (cases r)
    case None
    then have "tries D c + 1 \<le> 3"
      using call by (auto simp: dm_attempt_def one_attempt_def split: prod.splits sum.splits if_splits)
    then show ?thesis using None call assms by (simp add: attempt_move_def)
  next
    case (Some res)
    then show ?thesis using call assms finish_direct [OF assms(1,3,2), of res now] by (auto simp: attempt_move_def)
  qed
qed

lemma delivered_attempt:
  assumes "site_ok S b w" and "deployed S w D" and "i < length (spawned (gateway D))" and "answers (gateway D) c = None"
    and "spawned (gateway D) ! i = PersistDirectMessage conv sender receiver body mid ts c"
    and "TenantUserId.project_id sender \<noteq> []" and "conv \<noteq> []"
  shows "\<exists>D'. deployment_move S D (Attempt i Delivered now) = Some D' \<and> answers (gateway D') c =
      Some (AckReply \<lparr>MessageAckResponse.message_id = mid, timestamp = now, status = Persisted\<rparr>) \<and>
    stored tk (site_uuid S) (contents b (store D')) (RouterMessage.SendDirectMessage conv sender receiver body mid (Some c))"
proof -
  have u: "uuid_ops (site_uuid S)" and d: "serves (site_session S) b" using assms(1) by (simp_all add: site_ok_def)
  note db = deployed_db_ok [OF assms(1,2)]
  let ?req = "dm_request (site_uuid S) conv sender receiver body mid ts"
  have "WriteDmRequest.project_id ?req \<noteq> []" "WriteDmRequest.conversation_id ?req \<noteq> []"
    "parse_str (site_uuid S) (WriteDmRequest.message_id ?req) = Some mid"
    using u assms(6,7) by (simp_all add: dm_request_def uuid_ops_parse)
  from service_write_dm_effect [OF d db this] obtain w' where w': "service_write_dm (site_uuid S) (site_session S) (store D) ?req =
      (w', \<lparr>WriteDmResponse.success = True, WriteDmResponse.error_message = []\<rparr>)"
    "contents b w' = dm_written (requested_row ?req mid) (contents b (store D))"
    by blast
  then have "dm_attempt (site_uuid S) (site_client S) conv sender receiver body mid ts (tries D c) ([Delivered], store D) =
      (([], w'), Some (Inr ()))"
    by (simp add: dm_attempt_def one_attempt_def site_client_def service_client_def)
  then show ?thesis
    using finish_direct [OF assms(3,5,4), of "Inr ()" now] assms(3,5) w'(2)
    by (auto simp: attempt_move_def history_after_write [OF db])
qed

section \<open>An example\<close>

definition example_site :: "(database, result_set, result_set, Stmt, string) Site" where
  "example_site = \<lparr>site_uuid = unary_uuid, site_session = example_session, site_queries = q_fetch_after,
     site_status = (\<lambda>e. e), site_parse = example_parse, site_iter = id\<rparr>"

lemma example_site_ok: "db_ok db \<Longrightarrow> site_ok example_site example_backend db"
  by (simp add: site_ok_def example_site_def unary_uuid_ops example_setting(1) hash_iter_identity)

lemma local_run:
  "deployed S w D \<Longrightarrow> list_all is_local mvs \<Longrightarrow>
   gateway_run (site_parse S) (site_iter S) (gateway D) mvs = Some g \<Longrightarrow> deployed S w (D\<lparr>gateway := g\<rparr>)"
proof (induction mvs arbitrary: D)
  case (Cons mv mvs)
  then obtain g1 where g1: "gateway_move (site_parse S) (site_iter S) (gateway D) mv = Some g1"
    "gateway_run (site_parse S) (site_iter S) g1 mvs = Some g"
    by (cases "gateway_move (site_parse S) (site_iter S) (gateway D) mv") simp_all
  have "deployment_move S D (Local mv) = Some (D\<lparr>gateway := g1\<rparr>)" using Cons.prems(2) g1(1) by simp
  from deployed.move [OF Cons.prems(1) this] have "deployed S w (D\<lparr>gateway := g1\<rparr>)" .
  then show ?case using Cons.IH [of "D\<lparr>gateway := g1\<rparr>"] Cons.prems(2) g1(2) by simp
qed auto

lemma attempt_handled: "deployment_move S D (Attempt i f now) = Some D' \<Longrightarrow> handled (gateway D') = handled (gateway D)"
  by (auto simp: attempt_move_def finish_move_def split: if_splits option.splits)

text \<open>Ann's message to bob, routed, and not written yet; then written.\<close>

abbreviation example_message :: RouterMessage where
  "example_message \<equiv> RouterMessage.SendDirectMessage ''c'' ann bob ''hi'' 80 (Some 20)"

lemma example_routed:
  assumes "site_parse S = example_parse" and "site_iter S = id"
  shows "\<exists>D. deployed S w D \<and> answers (gateway D) 20 = None \<and>
     spawned (gateway D) = [PersistDirectMessage ''c'' ann bob ''hi'' 80 1 20] \<and>
     handled (gateway D) = [(1, RegisterUser ann 1 10), (2, RegisterUser bob 2 11), (1, example_message)]"
proof -
  obtain g where g: "gateway_run example_parse id (gateway_init 0) direct_moves = Some g" "answers g 20 = None"
    "spawned g = [PersistDirectMessage ''c'' ann bob ''hi'' 80 1 20]"
    "handled g = [(1, RegisterUser ann 1 10), (2, RegisterUser bob 2 11), (1, example_message)]"
    by (simp add: direct_moves_def run_defs)
  have "deployed S w ((deployment_init 0 w)\<lparr>gateway := g\<rparr>)"
    using g(1) assms by (intro local_run [OF deployed.start, of direct_moves])
      (simp_all add: direct_moves_def deployment_init_def)
  then show ?thesis using g(2-4) by (intro exI [of _ "(deployment_init 0 w)\<lparr>gateway := g\<rparr>"]) simp
qed

lemma example_persisted:
  assumes "site_parse S = example_parse" and "site_iter S = id" and "site_ok S b w"
  shows "\<exists>D. deployed S w D \<and> answers (gateway D) 20 = Some (AckReply example_ack) \<and>
     handled (gateway D) = [(1, RegisterUser ann 1 10), (2, RegisterUser bob 2 11), (1, example_message)]"
proof -
  obtain D where D: "deployed S w D" "answers (gateway D) 20 = None"
    "spawned (gateway D) = [PersistDirectMessage ''c'' ann bob ''hi'' 80 1 20]"
    "handled (gateway D) = [(1, RegisterUser ann 1 10), (2, RegisterUser bob 2 11), (1, example_message)]"
    using example_routed [OF assms(1,2)] by blast
  obtain D' where D': "deployment_move S D (Attempt 0 Delivered 7) = Some D'"
    "answers (gateway D') 20 = Some (AckReply \<lparr>MessageAckResponse.message_id = 80, timestamp = 7, status = Persisted\<rparr>)"
    using delivered_attempt [OF assms(3) D(1) _ D(2), of 0 "''c''" ann bob "''hi''" 80 1 7] D(3)
    by (auto simp: tenant_new_def)
  show ?thesis
    using deployed.move [OF D(1) D'(1)] D'(2) attempt_handled [OF D'(1)] D(4)
    by (intro exI [of _ D']) (simp add: example_ack_def)
qed

lemma example_site_simps [simp]: "site_parse example_site = example_parse" "site_iter example_site = id"
  by (simp_all add: example_site_def)

text \<open>Ann asks for the messages she missed, and reads the one that is stored.\<close>

definition sync_moves :: "Move list" where
  "sync_moves = [Connect ann 1 10, Route (fresh_env 0), Answered 1, Frame 1 (frame_env 0) ''sync'', Route (fresh_env 1)]"

lemma example_read:
  "\<exists>D. deployed example_site example_db D \<and>
     answers (gateway D) 20 = Some (SyncReply (Inr [as_response (new_message (requested_row example_request 1))]))"
proof -
  obtain g where g: "gateway_run example_parse id (gateway_init 0) sync_moves = Some g" "answers g 20 = None"
    "spawned g = [FetchSync ''p'' ''c'' 0 20]"
    by (simp add: sync_moves_def run_defs router_handle_sync_messages_def)
  define D where "D = (deployment_init 0 example_db)\<lparr>gateway := g\<rparr>"
  have D: "deployed example_site example_db D" unfolding D_def
    using g(1) by (intro local_run [OF deployed.start, of sync_moves])
      (simp_all add: sync_moves_def example_site_def deployment_init_def)
  obtain w' where w': "fetch_messages_after example_session q_fetch_after example_db ''p'' ''c'' 0 =
      (w', Inr [new_message (requested_row example_request 1)])"
    using fetch_messages_after_exact [OF example_setting(1), of example_db q_fetch_after "''p''" "''c''" 0] example_db_ok
    by (auto simp: db_ok_def example_history requested_row_def)
  obtain D' where "deployment_move example_site D (Read 0 Delivered) = Some D'"
    "answers (gateway D') 20 = Some (SyncReply (Inr [as_response (new_message (requested_row example_request 1))]))"
    using g(2,3) w' response_of_stored [OF unary_uuid_ops, of "[new_message (requested_row example_request 1)]"]
    by (simp add: D_def deployment_init_def read_move_def example_site_def site_client_def service_client_def
        persistence_sync_messages_def service_sync_messages_def uuid_ops_parse [OF unary_uuid_ops]
        finish_move_def apply_effects_def fetch_sync_task_def)
  then show ?thesis using deployed.move [OF D] by blast
qed

lemma example_sole:
  "sole [(1, RegisterUser ann 1 10), (2, RegisterUser bob 2 11), (1, example_message)] example_message"
  by (simp add: sole_def)

section \<open>Properties\<close>

text \<open>
  C2. \<^verbatim>\<open>Persisted\<close> means stored, in every interleaving of the gateway's tasks with each other's attempts,
  losses of the network and conversation requests: when a reply channel holds an acknowledgement
  with this status, it is that of a direct or room message the router has handled with this channel,
  and the message is in the database, in the history of its conversation or room, with its sender,
  recipient, content and id, unless another message with the same id was sent there.
\<close>

theorem persisted_means_stored:
  assumes "site_ok S b w" and "deployed S w D"
    and "answers (gateway D) c = Some (AckReply k)" and "status k = Persisted"
  shows "\<exists>s m. (s, m) \<in> set (handled (gateway D)) \<and> sent_with c (MessageAckResponse.message_id k) m \<and>
    (sole (handled (gateway D)) m \<longrightarrow> stored tk (site_uuid S) (contents b (store D)) m)"
proof -
  have "hash_iter (site_iter S)" using assms(1) by (simp add: site_ok_def)
  then obtain s m where m: "(s, m) \<in> set (handled (gateway D))" "sent_with c (MessageAckResponse.message_id k) m"
    using acks_okD(3) [OF reachable_acks_ok [OF deployed_reachable [OF assms(2)]] assms(3)] by auto
  then show ?thesis using deployed_persisted [OF assms(1-4) m(1) sent_with_channel [OF m(2)]] by blast
qed

theorem persisted_means_stored_witness:
  "\<exists>D. deployed example_site empty_db D \<and> answers (gateway D) 20 = Some (AckReply example_ack) \<and>
     stored uint unary_uuid (store D) example_message"
proof -
  obtain D where D: "deployed example_site empty_db D" "answers (gateway D) 20 = Some (AckReply example_ack)"
    "handled (gateway D) = [(1, RegisterUser ann 1 10), (2, RegisterUser bob 2 11), (1, example_message)]"
    using example_persisted [OF _ _ example_site_ok [OF empty_db_ok]] by auto
  have "status example_ack = Persisted" by (simp add: example_ack_def)
  from persisted_means_stored [OF example_site_ok [OF empty_db_ok] D(1,2) this, of uint]
  obtain s m where "(s, m) \<in> set (handled (gateway D))" "sent_with 20 80 m"
    "sole (handled (gateway D)) m \<longrightarrow> stored uint unary_uuid (store D) m"
    by (auto simp: example_ack_def example_site_def)
  then have "stored uint unary_uuid (store D) example_message" unfolding D(3) using example_sole by auto
  then show ?thesis using D(1,2) by blast
qed

text \<open>
  C5. Only authenticated users write, and only in their own project: a direct message in the history of
  a conversation was there at the start, or a session authenticated as a user of the
  project of this history sent it, with this sender, recipient, content and id, to this
  conversation; the same holds for room messages.
\<close>

theorem stored_messages_authentic:
  assumes "site_ok S b w" and "deployed S w D"
  shows "(x \<in> set (history tk (contents b (store D)) pid conv) \<longrightarrow>
      x \<in> set (history tk (contents b w) pid conv) \<or>
      (\<exists>s t receiver c. sessions (gateway D) s = Some t \<and> TenantUserId.project_id (session_user t) = pid \<and>
         DbMessage.sender_id x = TenantUserId.user_id (session_user t) \<and>
         DbMessage.recipient_id x = TenantUserId.user_id receiver \<and> DbMessage.conversation_id x = conv \<and>
         (s, RouterMessage.SendDirectMessage conv (session_user t) receiver (DbMessage.message_text x)
            (DbMessage.message_id x) c) \<in> set (handled (gateway D)))) \<and>
    (y \<in> set (room_history tk (contents b (store D)) pid rid) \<longrightarrow>
      y \<in> set (room_history tk (contents b w) pid rid) \<or>
      (\<exists>s t c. sessions (gateway D) s = Some t \<and> TenantUserId.project_id (session_user t) = pid \<and>
         DbRoomMessage.sender_id y = TenantUserId.user_id (session_user t) \<and> DbRoomMessage.room_id y = rid \<and>
         (s, SendRoomMessage rid (session_user t) (DbRoomMessage.content y) (DbRoomMessage.message_id y) c)
           \<in> set (handled (gateway D))))"
proof -
  have iter: "hash_iter (site_iter S)" using assms(1) by (simp add: site_ok_def)
  note spoken = reachable_spoken [OF deployed_reachable [OF assms(2)] iter]
  note sent = deployed_sent [OF assms, of tk]
  have dm: "\<exists>s t receiver c. sessions (gateway D) s = Some t \<and> TenantUserId.project_id (session_user t) = pid \<and>
         DbMessage.sender_id x = TenantUserId.user_id (session_user t) \<and>
         DbMessage.recipient_id x = TenantUserId.user_id receiver \<and> DbMessage.conversation_id x = conv \<and>
         (s, RouterMessage.SendDirectMessage conv (session_user t) receiver (DbMessage.message_text x)
            (DbMessage.message_id x) c) \<in> set (handled (gateway D))"
    if "sent_direct (site_uuid S) (handled (gateway D)) pid conv x"
    using that unfolding sent_direct_def
    by (elim exE conjE) (frule spoken, fastforce simp: new_message_def requested_row_def dm_request_def)
  have room: "\<exists>s t c. sessions (gateway D) s = Some t \<and> TenantUserId.project_id (session_user t) = pid \<and>
         DbRoomMessage.sender_id y = TenantUserId.user_id (session_user t) \<and> DbRoomMessage.room_id y = rid \<and>
         (s, SendRoomMessage rid (session_user t) (DbRoomMessage.content y) (DbRoomMessage.message_id y) c)
           \<in> set (handled (gateway D))"
    if "sent_room (site_uuid S) (handled (gateway D)) pid rid y"
    using that unfolding sent_room_def
    by (elim exE conjE) (frule spoken, fastforce simp: new_room_message_def requested_room_row_def room_request_def)
  show ?thesis using sent dm room by blast
qed

theorem stored_messages_authentic_witness:
  "\<exists>D x s t. deployed example_site empty_db D \<and> x \<in> set (history uint (store D) ''p'' ''c'') \<and>
     sessions (gateway D) s = Some t \<and> TenantUserId.project_id (session_user t) = ''p'' \<and>
     DbMessage.sender_id x = TenantUserId.user_id (session_user t)"
proof -
  obtain D where D: "deployed example_site empty_db D" "answers (gateway D) 20 = Some (AckReply example_ack)"
    "handled (gateway D) = [(1, RegisterUser ann 1 10), (2, RegisterUser bob 2 11), (1, example_message)]"
    using example_persisted [OF _ _ example_site_ok [OF empty_db_ok]] by auto
  have "status example_ack = Persisted" "(1, example_message) \<in> set (handled (gateway D))"
    "reply_channel example_message = Some 20" "sole (handled (gateway D)) example_message"
    using D(3) example_sole by (simp_all add: example_ack_def)
  from deployed_persisted [OF example_site_ok [OF empty_db_ok] D(1,2) this, of uint]
  obtain x where "x \<in> set (history uint (store D) ''p'' ''c'')" by (auto simp: tenant_new_def)
  moreover have "history uint empty_db ''p'' ''c'' = []" by (simp add: history_def empty_db_def)
  ultimately show ?thesis
    using stored_messages_authentic [OF example_site_ok [OF empty_db_ok] D(1), of x uint "''p''" "''c''" undefined "[]"] D(1)
    by auto
qed

text \<open>
  C8. Nothing is made up on the way back: every message in a page of history or in a list of missed
  messages that has arrived on a reply channel answers the request the router handled with
  this channel, and it was in the history the request asks for at the start, or a session authenticated
  as a user of the requested project sent it to the requested conversation, with this sender, content and id.
\<close>

theorem read_messages_authentic:
  assumes "site_ok S b w" and "deployed S w D"
    and "answers (gateway D) c = Some v" and "x \<in> set (answered_messages v)"
  shows "\<exists>s m pid conv. (s, m) \<in> set (handled (gateway D)) \<and> reply_channel m = Some c \<and> asks m = Some (pid, conv) \<and>
    (x \<in> as_response ` set (history (tkey b) (contents b w) pid conv) \<or>
     (\<exists>s' t receiver c'. sessions (gateway D) s' = Some t \<and> TenantUserId.project_id (session_user t) = pid \<and>
        ResponseDirectMessage.sender_id x = TenantUserId.user_id (session_user t) \<and>
        ResponseDirectMessage.conversation_id x = conv \<and>
        (s', RouterMessage.SendDirectMessage conv (session_user t) receiver (ResponseDirectMessage.message_text x)
           (ResponseDirectMessage.message_id x) c') \<in> set (handled (gateway D))))"
proof -
  have iter: "hash_iter (site_iter S)" using assms(1) by (simp add: site_ok_def)
  note spoken = reachable_spoken [OF deployed_reachable [OF assms(2)] iter]
  obtain s m pid conv y where m: "(s, m) \<in> set (handled (gateway D))" "reply_channel m = Some c" "asks m = Some (pid, conv)"
    and y: "x = as_response y"
      "y \<in> set (history (tkey b) (contents b w) pid conv) \<or> sent_direct (site_uuid S) (handled (gateway D)) pid conv y"
    using deployed_reads [OF assms] unfolding known_def by blast
  have "\<exists>s' t receiver c'. sessions (gateway D) s' = Some t \<and> TenantUserId.project_id (session_user t) = pid \<and>
        ResponseDirectMessage.sender_id x = TenantUserId.user_id (session_user t) \<and>
        ResponseDirectMessage.conversation_id x = conv \<and>
        (s', RouterMessage.SendDirectMessage conv (session_user t) receiver (ResponseDirectMessage.message_text x)
           (ResponseDirectMessage.message_id x) c') \<in> set (handled (gateway D))"
    if "sent_direct (site_uuid S) (handled (gateway D)) pid conv y"
    using that unfolding sent_direct_def y(1)
    by (elim exE conjE) (frule spoken, fastforce simp: as_response_def new_message_def requested_row_def dm_request_def)
  then show ?thesis using m y by blast
qed

theorem read_messages_authentic_witness:
  "\<exists>D x s m pid conv. deployed example_site example_db D \<and> (s, m) \<in> set (handled (gateway D)) \<and>
     reply_channel m = Some 20 \<and> asks m = Some (pid, conv) \<and>
     answers (gateway D) 20 = Some (SyncReply (Inr [x]))"
proof -
  obtain D where D: "deployed example_site example_db D"
    "answers (gateway D) 20 = Some (SyncReply (Inr [as_response (new_message (requested_row example_request 1))]))"
    using example_read by blast
  have "as_response (new_message (requested_row example_request 1)) \<in> set (answered_messages
      (SyncReply (Inr [as_response (new_message (requested_row example_request 1))])))" by simp
  from read_messages_authentic [OF example_site_ok [OF example_db_ok] D this] D show ?thesis by blast
qed

text \<open>
  C6. A direct message gets its verdict: while a handled direct message has no answer, its write task
  is there and can always make an attempt, which answers it, or counts one more failure, at most
  three in all; so four attempts answer it whatever the network does. An attempt that the network delivers,
  for a project and a conversation that are not empty, stores the message and answers \<^verbatim>\<open>Persisted\<close>.
\<close>

theorem direct_message_resolved:
  assumes "site_ok S b w" and "deployed S w D" and "answers (gateway D) c = None"
    and "(s, RouterMessage.SendDirectMessage conv sender receiver body mid (Some c)) \<in> set (handled (gateway D))"
  shows "\<exists>i.
    (\<forall>f now. \<exists>D'. deployment_move S D (Attempt i f now) = Some D' \<and>
       (answers (gateway D') c \<noteq> None \<or>
        gateway D' = gateway D \<and> tries D' c = tries D c + 1 \<and> tries D c + 1 \<le> 3)) \<and>
    (\<forall>now. TenantUserId.project_id sender \<noteq> [] \<longrightarrow> conv \<noteq> [] \<longrightarrow>
       (\<exists>D'. deployment_move S D (Attempt i Delivered now) = Some D' \<and>
          answers (gateway D') c =
            Some (AckReply \<lparr>MessageAckResponse.message_id = mid, timestamp = now, status = Persisted\<rparr>) \<and>
          stored tk (site_uuid S) (contents b (store D'))
            (RouterMessage.SendDirectMessage conv sender receiver body mid (Some c))))"
proof -
  have "hash_iter (site_iter S)" using assms(1) by (simp add: site_ok_def)
  then obtain ts where "PersistDirectMessage conv sender receiver body mid ts c \<in> set (spawned (gateway D))"
    using direct_pending [OF deployed_reachable [OF assms(2)] _ assms(4)] assms(3) by blast
  then obtain i where i: "i < length (spawned (gateway D))"
    "spawned (gateway D) ! i = PersistDirectMessage conv sender receiver body mid ts c"
    by (auto simp: in_set_conv_nth)
  show ?thesis
    using attempt_direct [OF i(1) assms(3) i(2), of S] delivered_attempt [OF assms(1,2) i(1) assms(3) i(2), of _ tk]
    by (intro exI [of _ i]) blast
qed

theorem direct_message_resolved_witness:
  "\<exists>D i D'. deployed example_site empty_db D \<and> deployment_move example_site D (Attempt i Delivered 7) = Some D' \<and>
     answers (gateway D') 20 = Some (AckReply example_ack) \<and> stored uint unary_uuid (store D') example_message"
proof -
  obtain D where D: "deployed example_site empty_db D" "answers (gateway D) 20 = None"
    "handled (gateway D) = [(1, RegisterUser ann 1 10), (2, RegisterUser bob 2 11), (1, example_message)]"
    using example_routed [of example_site] by auto
  have "(1, example_message) \<in> set (handled (gateway D))" using D(3) by simp
  from direct_message_resolved [OF example_site_ok [OF empty_db_ok] D(1,2) this, of uint] D(1) show ?thesis
    by (fastforce simp: example_ack_def example_site_def tenant_new_def)
qed


end
