(* ===== verification/Chat_Start.thy ===== *)
theory Chat_Start
  imports Chat_Writes
begin

text \<open>
  What the migrations of the chat service establish: the tables that the handlers rely on, without
  touching the ones that exist. \<open>defines_tables\<close> and \<open>connects\<close> state the documented behaviour of the
  statements that define tables and of opening a session.
\<close>

section \<open>Definition statements\<close>

text \<open>\<^verbatim>\<open>CREATE TABLE IF NOT EXISTS\<close> on the tables of the keyspace \<^verbatim>\<open>affinity\<close>.\<close>

fun cql_define :: "Stmt \<Rightarrow> database \<Rightarrow> database" where
  "cql_define (CreateTable t td) db = (case db t of None \<Rightarrow> db(t \<mapsto> (td, [])) | Some x \<Rightarrow> db)"
| "cql_define _ db = db"

fun is_definition :: "Stmt \<Rightarrow> bool" where
  "is_definition (CreateKeyspace k) \<longleftrightarrow> True"
| "is_definition (Use k) \<longleftrightarrow> True"
| "is_definition (CreateTable t td) \<longleftrightarrow> True"
| "is_definition _ \<longleftrightarrow> False"

text \<open>A statement is accepted when the table or keyspace it names can be resolved.\<close>

fun accepted_in :: "string option \<Rightarrow> database \<Rightarrow> Stmt \<Rightarrow> bool" where
  "accepted_in k db (CreateTable t td) \<longleftrightarrow> k = Some ''affinity''"
| "accepted_in k db (Select cols ks t conds order limit) \<longleftrightarrow> table_of k db ks t \<noteq> None"
| "accepted_in k db _ \<longleftrightarrow> True"

fun use_after :: "Stmt \<Rightarrow> string option \<Rightarrow> string option" where
  "use_after (Use k) k' = Some k"
| "use_after _ k' = k'"

text \<open>
  \<open>in_use\<close> is the keyspace the session uses, in a state of the world. An accepted statement can be
  prepared, and an accepted definition executed.
\<close>

definition defines_tables :: "('w, 'r, 'rows, 'p) Session \<Rightarrow> ('w, 'rows, 'p) Backend \<Rightarrow> ('w \<Rightarrow> string option) \<Rightarrow> bool" where
  "defines_tables d b in_use \<longleftrightarrow>
     (\<forall>w s. accepted_in (in_use w) (contents b w) s \<longrightarrow>
        (\<exists>w' p. prepare d w s = (w', Inr p) \<and> statement_of b p = s \<and> contents b w' = contents b w \<and>
           in_use w' = in_use w)) \<and>
     (\<forall>w p. is_definition (statement_of b p) \<longrightarrow> accepted_in (in_use w) (contents b w) (statement_of b p) \<longrightarrow>
        (\<exists>w' r. execute_unpaged d w p [] = (w', Inr r) \<and>
           contents b w' = cql_define (statement_of b p) (contents b w) \<and>
           in_use w' = use_after (statement_of b p) (in_use w)))"

text \<open>
  Opening a session, with no keyspace or with \<^verbatim>\<open>affinity\<close> once it has a table; the session is served by
  the same database.
\<close>

definition connects :: "('w, 'r, 'rows, 'p) connector \<Rightarrow> ('w, 'rows, 'p) Backend \<Rightarrow> bool" where
  "connects connect b \<longleftrightarrow>
     (\<forall>node ks w. ks = None \<or> ks = Some ''affinity'' \<and> contents b w \<noteq> Map.empty \<longrightarrow>
        (\<exists>w' d in_use. connect node ks w = (w', Inr d) \<and> contents b w' = contents b w \<and> in_use w' = ks \<and>
           serves d (b\<lparr>keyspace := ks\<rparr>) \<and> defines_tables d b in_use))"

section \<open>Running the migrations\<close>

lemma run_statement_defines:
  assumes "defines_tables d b in_use" and "is_definition s" and "accepted_in (in_use w) (contents b w) s"
  shows "\<exists>w'. run_statement d w s = (w', Inr ()) \<and> contents b w' = cql_define s (contents b w) \<and>
    in_use w' = use_after s (in_use w)"
proof -
  obtain w1 p where p: "prepare d w s = (w1, Inr p)" "statement_of b p = s" "contents b w1 = contents b w"
    "in_use w1 = in_use w"
    using assms(1,3) unfolding defines_tables_def by blast
  then obtain w2 r where "execute_unpaged d w1 p [] = (w2, Inr r)" "contents b w2 = cql_define s (contents b w)"
    "in_use w2 = use_after s (in_use w)"
    using assms unfolding defines_tables_def by metis
  then show ?thesis using p(1) by (simp add: run_statement_def)
qed

text \<open>Definitions that can run one after the other.\<close>

fun runnable :: "string option \<Rightarrow> Stmt list \<Rightarrow> bool" where
  "runnable k [] \<longleftrightarrow> True"
| "runnable k (s # ss) \<longleftrightarrow> is_definition s \<and> (\<forall>db. accepted_in k db s) \<and> runnable (use_after s k) ss"

lemma run_all_defines:
  assumes "defines_tables d b in_use"
  shows "runnable (in_use w) ss \<Longrightarrow>
    \<exists>w'. run_all d w ss = (w', Inr ()) \<and> contents b w' = fold cql_define ss (contents b w)"
proof (induction ss arbitrary: w)
  case (Cons s ss)
  then obtain w1 where "run_statement d w s = (w1, Inr ())" "contents b w1 = cql_define s (contents b w)"
    "in_use w1 = use_after s (in_use w)"
    using run_statement_defines [OF assms, of s w] by auto
  then show ?case using Cons.IH [of w1] Cons.prems by auto
qed simp

lemma migrations_runnable: "runnable k migration_statements"
  by (simp add: migration_statements_def)

definition schema :: database where
  "schema = [''projects'' \<mapsto> (projects_table, []), ''direct_messages'' \<mapsto> (direct_messages_table, []),
     ''user_conversations'' \<mapsto> (user_conversations_table, []), ''dm_lookup'' \<mapsto> (dm_lookup_table, []),
     ''room_messages'' \<mapsto> (room_messages_table, []), ''project_rooms'' \<mapsto> (project_rooms_table, [])]"

lemma define_add: "cql_define (CreateTable t td) (s ++ db) = (s(t \<mapsto> (td, []))) ++ db" if "s t = None"
  using that by (auto simp: map_add_def fun_eq_iff split: option.splits)

lemma migrated_tables: "fold cql_define migration_statements db = schema ++ db"
proof -
  have "fold cql_define migration_statements (Map.empty ++ db) = schema ++ db"
    unfolding migration_statements_def schema_def by (simp add: define_add del: cql_define.simps(1) empty_map_add)
  then show ?thesis by simp
qed

text \<open>\<open>fits\<close>: whichever of the tables already exist are well-formed.\<close>

definition fits :: "database \<Rightarrow> bool" where
  "fits db \<longleftrightarrow> db_ok (schema ++ db)"

lemma fits_empty: "fits Map.empty"
  by (simp add: fits_def schema_def db_ok_def has_table_iff has_table_def table_ok_def row_keys_def)

lemma schema_absorbed: "schema ++ (schema ++ db) = schema ++ db"
  by (rule ext) (auto simp: map_add_def split: option.splits)

lemma run_migrations_effect:
  assumes "defines_tables d b in_use"
  shows "\<exists>w'. run_migrations d w = (w', Inr ()) \<and> contents b w' = schema ++ contents b w"
  using run_all_defines [OF assms migrations_runnable, of w] by (simp add: run_migrations_in_order migrated_tables)

lemma service_start_effect:
  assumes "connects connect b"
  shows "\<exists>w' d queries. service_start connect w node = (w', Inr (d, queries)) \<and>
    serves d (b\<lparr>keyspace := None\<rparr>) \<and> statement_of b queries = q_fetch_after \<and>
    contents b w' = schema ++ contents b w"
proof -
  obtain w1 d1 in_use1 where 1: "connect node None w = (w1, Inr d1)" "contents b w1 = contents b w" "defines_tables d1 b in_use1"
    using assms unfolding connects_def by blast
  obtain w2 where 2: "run_migrations d1 w1 = (w2, Inr ())" "contents b w2 = schema ++ contents b w"
    using run_migrations_effect [OF 1(3), of w1] 1(2) by auto
  have "contents b w2 \<noteq> Map.empty" unfolding 2(2) by (simp add: schema_def)
  then obtain w3 d3 where 3: "connect node (Some ''affinity'') w2 = (w3, Inr d3)" "contents b w3 = contents b w2"
    using assms unfolding connects_def by blast
  obtain w4 d in_use where 4: "connect node None w3 = (w4, Inr d)" "contents b w4 = contents b w3"
    "serves d (b\<lparr>keyspace := None\<rparr>)" "defines_tables d b in_use"
    using assms unfolding connects_def by blast
  have "accepted_in (in_use w4) (contents b w4) q_fetch_after"
    unfolding 4(2) 3(2) 2(2) by (simp add: q_fetch_after_def table_of_def schema_def map_add_def split: option.splits)
  then obtain w5 queries where "prepare d w4 q_fetch_after = (w5, Inr queries)" "statement_of b queries = q_fetch_after"
    "contents b w5 = contents b w4"
    using 4(4) unfolding defines_tables_def by blast
  then show ?thesis
    using 1(1) 2 3 4(1,2,3)
    by (simp add: service_start_def run_database_migrations_def migrations_new_def prepare_queries_def)
qed

section \<open>An instance in memory\<close>

text \<open>The database with the keyspace that is in use.\<close>

definition ddl_session ::
  "string option \<Rightarrow> (database \<times> string option, result_set, result_set, Stmt) Session" where
  "ddl_session ks =
     \<lparr>query_unpaged = (\<lambda>(db, k) stmt vals. case mem_query ks True uint db stmt vals of (db', r) \<Rightarrow> ((db', k), r)),
      prepare = (\<lambda>w stmt. (w, Inr stmt)),
      execute_unpaged = (\<lambda>(db, k) q vals.
        if is_select q then (case mem_query ks True uint db q vals of (db', r) \<Rightarrow> ((db', k), r))
        else ((cql_define q db, use_after q k), Inr ([], []))),
      batch = (\<lambda>(db, k) stmts vals. case cql_batch ks True 0 db stmts vals of
                 None \<Rightarrow> ((db, k), Inl ''invalid'') | Some db' \<Rightarrow> ((db', k), Inr ())),
      into_rows_result = Inr,
      rows_conversation = rows_as True conversation_types dec_conversation,
      rows_history = rows_as True history_types dec_history,
      rows_message = rows_as True message_types dec_message,
      rows_room_message = rows_as True room_message_types dec_room_message,
      rows_id = rows_as True [String_r] dec_id\<rparr>"

definition ddl_backend :: "(database \<times> string option, result_set, Stmt) Backend" where
  "ddl_backend =
     \<lparr>keyspace = None, uuid_ok = True, tkey = uint, contents = fst, result_set_of = (\<lambda>rs. rs), statement_of = (\<lambda>s. s)\<rparr>"

definition ddl_connector :: "(database \<times> string option, result_set, result_set, Stmt) connector" where
  "ddl_connector node ks w = ((fst w, ks), Inr (ddl_session ks))"

lemma ddl_session_serves: "serves (ddl_session ks) (ddl_backend\<lparr>keyspace := ks\<rparr>)"
  unfolding serves_def
  by (auto simp: ddl_session_def ddl_backend_def rows_as_typed mem_query_def select_answered_def
      write_answered_def split: option.splits)

lemma ddl_session_defines: "defines_tables (ddl_session ks) ddl_backend snd"
  unfolding defines_tables_def by (auto simp: ddl_session_def ddl_backend_def elim: is_definition.elims)

lemma ddl_connects: "connects ddl_connector ddl_backend"
  unfolding connects_def
proof (intro allI impI)
  fix node ks and w :: "database \<times> string option"
  show "\<exists>w' d in_use. ddl_connector node ks w = (w', Inr d) \<and> contents ddl_backend w' = contents ddl_backend w \<and>
      in_use w' = ks \<and> serves d (ddl_backend\<lparr>keyspace := ks\<rparr>) \<and> defines_tables d ddl_backend in_use"
    by (intro exI [of _ "(fst w, ks)"] exI [of _ "ddl_session ks"] exI [of _ snd])
       (simp add: ddl_connector_def ddl_session_serves ddl_session_defines, simp add: ddl_backend_def)
qed

section \<open>Properties\<close>



end
