(* ===== verification/Auth_Service.thy ===== *)
theory Auth_Service
  imports Chat_Types
begin

text \<open>
  \<^verbatim>\<open>auth-service/src\<close>: user tokens in Redis, the rate limiter, tenants in Postgres, the check of
  Google's id tokens, the HTTP handlers and the gRPC handler.

  Redis, Postgres, Google's endpoint, serde and the random generator are not part of the sources.
  They are arguments: a \<open>Redis\<close> and a \<open>Postgres\<close> hold the operations the sources call, each taking the
  state \<open>'w\<close> of the outside world to the next one, \<open>http_get\<close> is \<^verbatim>\<open>reqwest::get\<close>, a \<open>TokenCodec\<close> holds serde's
  two directions, and readings of the clock (\<^const>\<open>None\<close>: before the epoch), of the environment and of the
  random generator are arguments where they are taken. Log lines are left out.
\<close>

section \<open>The outside world\<close>

record 'w Redis =
  get_connection :: "'w \<Rightarrow> 'w \<times> (string, unit) result"
  set_ex :: "'w \<Rightarrow> string \<Rightarrow> string \<Rightarrow> u64 \<Rightarrow> 'w \<times> (string, unit) result"
  get_key :: "'w \<Rightarrow> string \<Rightarrow> 'w \<times> (string, string option) result"
  incr :: "'w \<Rightarrow> string \<Rightarrow> int \<Rightarrow> 'w \<times> (string, int) result"
  expire :: "'w \<Rightarrow> string \<Rightarrow> int \<Rightarrow> 'w \<times> (string, bool) result"

text \<open>
  Of Postgres: \<^verbatim>\<open>INSERT INTO tenant_keys\<close> and \<^verbatim>\<open>SELECT ... WHERE project_id = $1\<close>, the latter with the
  column \<^verbatim>\<open>secret_api_key\<close> of the row it finds.
\<close>

record 'w Postgres =
  insert_key :: "'w \<Rightarrow> string \<Rightarrow> string \<Rightarrow> 'w \<times> (string, unit) result"
  select_key :: "'w \<Rightarrow> string \<Rightarrow> 'w \<times> (string, string option) result"

section \<open>User tokens\<close>

record StoredToken =
  project_id :: string
  user_id :: string
  expires_at :: u64

record TokenCodec =
  to_json :: "StoredToken \<Rightarrow> (string, string) result"
  from_json :: "string \<Rightarrow> (string, StoredToken) result"

definition generate_token :: "string \<Rightarrow> string" where
  "generate_token rand_string = ''pxtok_'' @ rand_string"

definition ttl_secs :: u64 where
  "ttl_secs = 600"

definition store_user_token ::
  "'w Redis \<Rightarrow> TokenCodec \<Rightarrow> string \<Rightarrow> u64 option \<Rightarrow> 'w \<Rightarrow> string \<Rightarrow> string \<Rightarrow>
   'w \<times> (Panic, (string, string) result) result" where
  "store_user_token redis codec rand_string now w pid uid =
     (let token = generate_token rand_string in
      case now of
        None \<Rightarrow> (w, Inl UnwrapErr)
      | Some t \<Rightarrow>
          (case to_json codec \<lparr>StoredToken.project_id = pid, StoredToken.user_id = uid,
                              StoredToken.expires_at = t + ttl_secs\<rparr> of
             Inl e \<Rightarrow> (w, Inl UnwrapErr)
           | Inr json_value \<Rightarrow>
               (case and_then (get_connection redis w) (\<lambda>w _.
                       and_then (set_ex redis w token json_value ttl_secs) (\<lambda>w _. (w, Inr token))) of
                  (w', r) \<Rightarrow> (w', Inr r))))"

definition verify_user_token ::
  "'w Redis \<Rightarrow> TokenCodec \<Rightarrow> u64 option \<Rightarrow> 'w \<Rightarrow> string \<Rightarrow>
   'w \<times> (Panic, (string, StoredToken option) result) result" where
  "verify_user_token redis codec now w token =
     (if \<not> starts_with token ''pxtok_'' then (w, Inr (Inr None))
      else (case and_then (get_connection redis w) (\<lambda>w _. get_key redis w token) of
          (w', Inl e) \<Rightarrow> (w', Inr (Inl e))
        | (w', Inr None) \<Rightarrow> (w', Inr (Inr None))
        | (w', Inr (Some json)) \<Rightarrow>
            (case from_json codec json of
               Inl e \<Rightarrow> (w', Inr (Inr None))
             | Inr parsed \<Rightarrow>
                 (case now of
                    None \<Rightarrow> (w', Inl UnwrapErr)
                  | Some t \<Rightarrow>
                      (w', Inr (Inr (if t > StoredToken.expires_at parsed then None else Some parsed)))))))"

section \<open>The rate limiter\<close>

datatype RateLimitError = Exceeded | RedisError string

definition MAX_REQUESTS :: int where
  "MAX_REQUESTS = 3"

definition WINDOW_SECS :: int where
  "WINDOW_SECS = 3600"

definition rate_limit_key :: "string \<Rightarrow> string" where
  "rate_limit_key google_sub = ''rl:gen_tenant:'' @ google_sub"

definition check_rate_limit :: "'w Redis \<Rightarrow> 'w \<Rightarrow> string \<Rightarrow> 'w \<times> (RateLimitError, unit) result" where
  "check_rate_limit redis w google_sub =
     (let key = rate_limit_key google_sub in
      case and_then (get_connection redis w) (\<lambda>w _.
             and_then (incr redis w key 1) (\<lambda>w n.
               if n = 1
               then and_then (expire redis w key WINDOW_SECS) (\<lambda>w _. (w, Inr n))
               else (w, Inr n))) of
        (w', Inl e) \<Rightarrow> (w', Inl (RedisError e))
      | (w', Inr n) \<Rightarrow> if n > MAX_REQUESTS then (w', Inl Exceeded) else (w', Inr ()))"

section \<open>Google id tokens\<close>

record GoogleUser =
  sub :: string
  email :: string

datatype GoogleAuthError = InvalidToken string | AudienceMismatch | RequestFailed

record TokenInfoResponse =
  sub :: string
  email :: string
  aud :: string

text \<open>The response of the endpoint: whether its status is a success, and its body as serde reads it.\<close>

record HttpResponse =
  is_success :: bool
  json_body :: "(string, TokenInfoResponse) result"

definition verify_id_token ::
  "('w \<Rightarrow> string \<Rightarrow> 'w \<times> (string, HttpResponse) result) \<Rightarrow> string option \<Rightarrow> 'w \<Rightarrow> string \<Rightarrow>
   'w \<times> (GoogleAuthError, GoogleUser) result" where
  "verify_id_token http_get google_client_id w id_token =
     (case http_get w (''https://oauth2.googleapis.com/tokeninfo?id_token='' @ id_token) of
        (w', Inl e) \<Rightarrow> (w', Inl RequestFailed)
      | (w', Inr response) \<Rightarrow>
          if \<not> is_success response then (w', Inl (InvalidToken ''token rejected by Google''))
          else (case json_body response of
              Inl e \<Rightarrow> (w', Inl (InvalidToken e))
            | Inr info \<Rightarrow>
                (case google_client_id of
                   None \<Rightarrow> (w', Inl RequestFailed)
                 | Some expected_client_id \<Rightarrow>
                     if aud info \<noteq> expected_client_id then (w', Inl AudienceMismatch)
                     else (w', Inr \<lparr>GoogleUser.sub = TokenInfoResponse.sub info,
                                   GoogleUser.email = TokenInfoResponse.email info\<rparr>))))"

section \<open>Tenants\<close>

record TenantKeypair =
  secret_api_key :: string
  project_id :: string

definition tenant_keypair_new :: "string \<Rightarrow> string \<Rightarrow> TenantKeypair" where
  "tenant_keypair_new random_segment nanoid =
     \<lparr>TenantKeypair.secret_api_key = ''peroxo_'' @ random_segment,
      TenantKeypair.project_id = ''peroxo_pj_'' @ nanoid\<rparr>"

definition insert_tenant_keypair :: "'w Postgres \<Rightarrow> 'w \<Rightarrow> string \<Rightarrow> string \<Rightarrow> 'w \<times> (string, unit) result" where
  "insert_tenant_keypair pool w pid secret_key =
     and_then (insert_key pool w pid secret_key) (\<lambda>w _. (w, Inr ()))"

definition get_secret_key_by_project_id :: "'w Postgres \<Rightarrow> 'w \<Rightarrow> string \<Rightarrow> 'w \<times> (string, string option) result" where
  "get_secret_key_by_project_id pool w pid =
     and_then (select_key pool w pid) (\<lambda>w row. (w, Inr row))"

section \<open>HTTP handlers\<close>

type_synonym http_error = "nat \<times> string"

record GenerateTenantResponse =
  project_id :: string
  secret_api_key :: string

record GenerateUserTokenRequest =
  user_id :: string
  project_id :: string
  secret_api_key :: string

text \<open>
  \<open>authorization\<close> is the value of the header as text, if there is one. The random parts of the
  key pair are \<open>random_segment\<close> and \<open>nanoid\<close>.
\<close>

definition google_error :: "GoogleAuthError \<Rightarrow> http_error" where
  "google_error e =
     (case e of
        AudienceMismatch \<Rightarrow> (401, ''Token audience mismatch'')
      | InvalidToken msg \<Rightarrow> (401, ''Invalid Google token: '' @ msg)
      | RequestFailed \<Rightarrow> (401, ''Google authentication failed''))"

definition rate_limit_error :: "RateLimitError \<Rightarrow> http_error" where
  "rate_limit_error e =
     (case e of
        Exceeded \<Rightarrow> (429, ''Rate limit exceeded: maximum 3 tenant generations per hour'')
      | RedisError re \<Rightarrow> (500, ''Internal error''))"

definition generate_tenant_handler ::
  "'w Postgres \<Rightarrow> 'w Redis \<Rightarrow> ('w \<Rightarrow> string \<Rightarrow> 'w \<times> (string, HttpResponse) result) \<Rightarrow> string option \<Rightarrow>
   string \<Rightarrow> string \<Rightarrow> 'w \<Rightarrow> string option \<Rightarrow> 'w \<times> (http_error, GenerateTenantResponse) result" where
  "generate_tenant_handler pool redis http_get google_client_id random_segment nanoid w authorization =
     (case Option.bind authorization (\<lambda>v. strip_prefix v ''Bearer '') of
        None \<Rightarrow> (w, Inl (401, ''Missing or invalid Authorization header''))
      | Some token \<Rightarrow>
          (case verify_id_token http_get google_client_id w token of
             (w, Inl e) \<Rightarrow> (w, Inl (google_error e))
           | (w, Inr google_user) \<Rightarrow>
               (case check_rate_limit redis w (GoogleUser.sub google_user) of
                  (w, Inl e) \<Rightarrow> (w, Inl (rate_limit_error e))
                | (w, Inr _) \<Rightarrow>
                    (let kp = tenant_keypair_new random_segment nanoid in
                     case insert_tenant_keypair pool w (TenantKeypair.project_id kp)
                            (TenantKeypair.secret_api_key kp) of
                       (w, Inl e) \<Rightarrow> (w, Inl (500, e))
                     | (w, Inr _) \<Rightarrow>
                         (w, Inr \<lparr>GenerateTenantResponse.project_id = TenantKeypair.project_id kp,
                                 GenerateTenantResponse.secret_api_key = TenantKeypair.secret_api_key kp\<rparr>)))))"

definition generate_user_token_handler ::
  "'w Postgres \<Rightarrow> 'w Redis \<Rightarrow> TokenCodec \<Rightarrow> string \<Rightarrow> u64 option \<Rightarrow> 'w \<Rightarrow> GenerateUserTokenRequest \<Rightarrow>
   'w \<times> (Panic, (http_error, string) result) result" where
  "generate_user_token_handler pool redis codec rand_string now w payload =
     (case get_secret_key_by_project_id pool w (GenerateUserTokenRequest.project_id payload) of
        (w, Inl e) \<Rightarrow> (w, Inr (Inl (500, e)))
      | (w, Inr None) \<Rightarrow> (w, Inr (Inl (401, ''Invalid project_id or secret_api_key'')))
      | (w, Inr (Some stored_key)) \<Rightarrow>
          if stored_key \<noteq> GenerateUserTokenRequest.secret_api_key payload
          then (w, Inr (Inl (401, ''Invalid secret_api_key'')))
          else (case store_user_token redis codec rand_string now w
                  (GenerateUserTokenRequest.project_id payload) (GenerateUserTokenRequest.user_id payload) of
              (w, Inl p) \<Rightarrow> (w, Inl p)
            | (w, Inr (Inl e)) \<Rightarrow> (w, Inr (Inl (500, ''Failed to store token: '' @ e)))
            | (w, Inr (Inr user_token)) \<Rightarrow> (w, Inr (Inr user_token))))"

definition verify_user_token_handler ::
  "'w Redis \<Rightarrow> TokenCodec \<Rightarrow> u64 option \<Rightarrow> 'w \<Rightarrow> string \<Rightarrow>
   'w \<times> (Panic, (http_error, StoredToken option) result) result" where
  "verify_user_token_handler redis codec now w token =
     (case verify_user_token redis codec now w token of
        (w, Inl p) \<Rightarrow> (w, Inl p)
      | (w, Inr (Inr result)) \<Rightarrow> (w, Inr (Inr result))
      | (w, Inr (Inl err)) \<Rightarrow> (w, Inr (Inl (500, err))))"

section \<open>The gRPC handler\<close>

record VerifyUserTokenResponse =
  found :: bool
  user_token :: "UserToken option"

text \<open>The error is the message of \<^verbatim>\<open>Status::internal\<close>.\<close>

definition grpc_verify_user_token ::
  "'w Redis \<Rightarrow> TokenCodec \<Rightarrow> u64 option \<Rightarrow> 'w \<Rightarrow> string \<Rightarrow>
   'w \<times> (Panic, (string, VerifyUserTokenResponse) result) result" where
  "grpc_verify_user_token redis codec now w token =
     (case verify_user_token redis codec now w token of
        (w, Inl p) \<Rightarrow> (w, Inl p)
      | (w, Inr (Inr (Some t))) \<Rightarrow>
          (w, Inr (Inr \<lparr>found = True,
             user_token = Some \<lparr>UserToken.project_id = StoredToken.project_id t,
                                UserToken.user_id = StoredToken.user_id t,
                                UserToken.expires_at = StoredToken.expires_at t\<rparr>\<rparr>))
      | (w, Inr (Inr None)) \<Rightarrow> (w, Inr (Inr \<lparr>found = False, user_token = None\<rparr>))
      | (w, Inr (Inl e)) \<Rightarrow> (w, Inr (Inl e)))"

section \<open>Documented behaviour of Redis\<close>

text \<open>
  A Redis that answers: \<open>value w k\<close> is the text stored under a key, \<open>counter w k\<close> the number, 0
  where there is none, and \<open>volatile w k\<close> tells that the key has a time to live. \<open>set_ex\<close> stores a text,
  \<open>get_key\<close> reads it, \<open>incr\<close> adds to the number and keeps the time to live, \<open>expire\<close> sets it.
\<close>

record 'w RedisView =
  "value" :: "'w \<Rightarrow> string \<Rightarrow> string option"
  counter :: "'w \<Rightarrow> string \<Rightarrow> int"
  volatile :: "'w \<Rightarrow> string \<Rightarrow> bool"

definition redis_stores :: "'w Redis \<Rightarrow> 'w RedisView \<Rightarrow> bool" where
  "redis_stores r v \<longleftrightarrow>
     (\<forall>w. snd (get_connection r w) = Inr () \<and> value v (fst (get_connection r w)) = value v w) \<and>
     (\<forall>w k t s. snd (set_ex r w k t s) = Inr () \<and> value v (fst (set_ex r w k t s)) = (value v w)(k \<mapsto> t)) \<and>
     (\<forall>w k. snd (get_key r w k) = Inr (value v w k))"

text \<open>
  The counters under failures: an operation that reports an error may or may not have been done.
\<close>

definition redis_counts :: "'w Redis \<Rightarrow> 'w RedisView \<Rightarrow> bool" where
  "redis_counts r v \<longleftrightarrow>
     (\<forall>w w' x. get_connection r w = (w', x) \<longrightarrow> counter v w' = counter v w \<and> volatile v w' = volatile v w) \<and>
     (\<forall>w w' k n m. incr r w k n = (w', Inr m) \<longrightarrow> m = counter v w k + n \<and>
        counter v w' = (counter v w)(k := m) \<and> volatile v w' = volatile v w) \<and>
     (\<forall>w w' k n e. incr r w k n = (w', Inl e) \<longrightarrow>
        (counter v w' = counter v w \<or> counter v w' = (counter v w)(k := counter v w k + n)) \<and>
        volatile v w' = volatile v w) \<and>
     (\<forall>w w' k s x. expire r w k s = (w', x) \<longrightarrow> counter v w' = counter v w \<and>
        (volatile v w' = (volatile v w)(k := True) \<or> \<not> is_ok x \<and> volatile v w' = volatile v w))"

section \<open>Properties of tokens\<close>

definition codec_ok :: "TokenCodec \<Rightarrow> bool" where
  "codec_ok codec \<longleftrightarrow> (\<forall>t. \<exists>j. to_json codec t = Inr j \<and> from_json codec j = Inr t)"

lemma redis_get:
  assumes "redis_stores r v"
  shows "\<exists>w'. and_then (get_connection r w) (\<lambda>w _. get_key r w k) = (w', Inr (value v w k))"
proof -
  have c: "snd (get_connection r w) = Inr ()" "value v (fst (get_connection r w)) = value v w"
    using assms by (simp_all add: redis_stores_def)
  have "snd (get_key r (fst (get_connection r w)) k) = Inr (value v (fst (get_connection r w)) k)"
    using assms unfolding redis_stores_def by blast
  then have "get_key r (fst (get_connection r w)) k = (fst (get_key r (fst (get_connection r w)) k), Inr (value v w k))"
    using c(2) by (simp add: prod_eq_iff)
  moreover have "get_connection r w = (fst (get_connection r w), Inr ())" using c(1) by (simp add: prod_eq_iff)
  ultimately show ?thesis by (metis and_then_simps(2))
qed

lemma redis_set:
  assumes "redis_stores r v"
  shows "\<exists>w'. and_then (get_connection r w) (\<lambda>w _. and_then (set_ex r w k t s) (\<lambda>w _. (w, Inr a))) = (w', Inr a) \<and>
    value v w' = (value v w)(k \<mapsto> t)"
proof -
  let ?w1 = "fst (get_connection r w)"
  have 1: "get_connection r w = (?w1, Inr ())" "value v ?w1 = value v w"
    using assms by (simp_all add: redis_stores_def prod_eq_iff)
  have 2: "set_ex r ?w1 k t s = (fst (set_ex r ?w1 k t s), Inr ())"
    "value v (fst (set_ex r ?w1 k t s)) = (value v ?w1)(k \<mapsto> t)"
    using assms by (simp_all add: redis_stores_def prod_eq_iff)
  show ?thesis
    by (subst 1(1), subst and_then_simps, subst 2(1), subst and_then_simps) (simp add: 1(2) 2(2))
qed

text \<open>
  A token is accepted exactly when it has the prefix of tokens, Redis holds a text under it that
  reads as a token, and the clock has not passed the expiry in that text; the identity returned is
  the one in the text.
\<close>

theorem verify_user_token_iff:
  assumes "redis_stores r v"
  shows "snd (verify_user_token r codec now w token) = Inr (Inr (Some t)) \<longleftrightarrow>
    starts_with token ''pxtok_'' \<and>
    (\<exists>json t0. value v w token = Some json \<and> from_json codec json = Inr t \<and>
       now = Some t0 \<and> t0 \<le> StoredToken.expires_at t)"
proof -
  obtain w' where w': "and_then (get_connection r w) (\<lambda>w _. get_key r w token) = (w', Inr (value v w token))"
    using redis_get [OF assms] by blast
  show ?thesis
    by (auto simp: verify_user_token_def w' split: option.splits sum.splits)
qed

text \<open>A codec for examples: the length of the project and the expiry in unary, then the two texts.\<close>

fun unary_prefix :: "string \<Rightarrow> nat \<times> string" where
  "unary_prefix (c # s) = (if c = CHR ''x'' then let (n, r) = unary_prefix s in (Suc n, r) else (0, s))"
| "unary_prefix [] = (0, [])"

lemma unary_prefix_replicate [simp]: "unary_prefix (replicate n CHR ''x'' @ CHR '';'' # s) = (n, s)"
  by (induction n) simp_all

definition example_codec :: TokenCodec where
  "example_codec = \<lparr>to_json = (\<lambda>t. Inr (replicate (length (StoredToken.project_id t)) CHR ''x'' @ CHR '';'' #
        replicate (unat (StoredToken.expires_at t)) CHR ''x'' @ CHR '';'' #
        StoredToken.project_id t @ StoredToken.user_id t)),
     from_json = (\<lambda>s. let (n, r) = unary_prefix s; (m, q) = unary_prefix r
        in Inr \<lparr>StoredToken.project_id = take n q, StoredToken.user_id = drop n q,
                StoredToken.expires_at = of_nat m\<rparr>)\<rparr>"

lemma example_codec_ok: "codec_ok example_codec"
  by (simp add: codec_ok_def example_codec_def)

text \<open>A Redis in memory, for examples: texts, and counters that never expire.\<close>

type_synonym mem_redis_state = "(string \<rightharpoonup> string) \<times> (string \<Rightarrow> int) \<times> (string \<Rightarrow> bool)"

definition mem_redis :: "mem_redis_state Redis" where
  "mem_redis = \<lparr>get_connection = (\<lambda>w. (w, Inr ())),
     set_ex = (\<lambda>(kv, c, e) k t s. ((kv(k \<mapsto> t), c, e), Inr ())),
     get_key = (\<lambda>(kv, c, e) k. ((kv, c, e), Inr (kv k))),
     incr = (\<lambda>(kv, c, e) k n. ((kv, c(k := c k + n), e), Inr (c k + n))),
     expire = (\<lambda>(kv, c, e) k s. ((kv, c, e(k := True)), Inr True))\<rparr>"

definition mem_view :: "mem_redis_state RedisView" where
  "mem_view = \<lparr>value = fst, counter = (\<lambda>w. fst (snd w)), volatile = (\<lambda>w. snd (snd w))\<rparr>"

lemma mem_redis_ok: "redis_stores mem_redis mem_view" "redis_counts mem_redis mem_view"
  by (auto simp: redis_stores_def redis_counts_def mem_redis_def mem_view_def)

theorem verify_user_token_iff_witness:
  "snd (verify_user_token mem_redis example_codec (Some 2) ([''pxtok_a'' \<mapsto> ''x;xxx;pann''], (\<lambda>_. 0), (\<lambda>_. False)) ''pxtok_a'') =
     Inr (Inr (Some \<lparr>StoredToken.project_id = ''p'', StoredToken.user_id = ''ann'', StoredToken.expires_at = 3\<rparr>))"
  unfolding verify_user_token_iff [OF mem_redis_ok(1)]
  by (simp add: starts_with_def mem_view_def example_codec_def)

lemma store_user_token_effect:
  assumes "redis_stores r v" and "codec_ok codec"
  shows "\<exists>w' json. store_user_token r codec rnd (Some t0) w pid uid = (w', Inr (Inr (''pxtok_'' @ rnd))) \<and>
    from_json codec json = Inr \<lparr>StoredToken.project_id = pid, StoredToken.user_id = uid,
      StoredToken.expires_at = t0 + ttl_secs\<rparr> \<and>
    value v w' = (value v w)(''pxtok_'' @ rnd \<mapsto> json)"
proof -
  let ?t = "\<lparr>StoredToken.project_id = pid, StoredToken.user_id = uid, StoredToken.expires_at = t0 + ttl_secs\<rparr>"
  obtain json where j: "to_json codec ?t = Inr json" "from_json codec json = Inr ?t"
    using assms(2) unfolding codec_ok_def by blast
  obtain w' where "and_then (get_connection r w) (\<lambda>w _.
      and_then (set_ex r w (''pxtok_'' @ rnd) json ttl_secs) (\<lambda>w _. (w, Inr (''pxtok_'' @ rnd)))) =
      (w', Inr (''pxtok_'' @ rnd))" "value v w' = (value v w)(''pxtok_'' @ rnd \<mapsto> json)"
    using redis_set [OF assms(1), of w "''pxtok_'' @ rnd" json ttl_secs "''pxtok_'' @ rnd"] by blast
  then show ?thesis using j by (auto simp: store_user_token_def generate_token_def)
qed

lemma issued_token_verdict:
  assumes "redis_stores r v" and "codec_ok codec"
    and "store_user_token r codec rnd (Some t0) w pid uid = (w1, Inr (Inr token))"
    and "value v w2 token = value v w1 token" and "unat t0 + 600 < 2 ^ 64"
  shows "snd (verify_user_token r codec (Some t1) w2 token) =
    Inr (Inr (if unat t1 \<le> unat t0 + 600
              then Some \<lparr>StoredToken.project_id = pid, StoredToken.user_id = uid,
                         StoredToken.expires_at = t0 + 600\<rparr>
              else None))"
proof -
  obtain json where json: "from_json codec json =
      Inr \<lparr>StoredToken.project_id = pid, StoredToken.user_id = uid, StoredToken.expires_at = t0 + 600\<rparr>"
    "token = ''pxtok_'' @ rnd" "value v w1 token = Some json"
    using store_user_token_effect [OF assms(1,2), of rnd t0 w pid uid] assms(3) by (auto simp: ttl_secs_def)
  obtain w' where w': "and_then (get_connection r w2) (\<lambda>w _. get_key r w token) = (w', Inr (Some json))"
    using redis_get [OF assms(1), of w2 token] assms(4) json(3) by auto
  have "unat (t0 + 600) = unat t0 + 600"
    using assms(5) by (subst unat_plus_if_size) (simp add: word_size)
  then have "t0 + 600 < t1 \<longleftrightarrow> \<not> unat t1 \<le> unat t0 + 600"
    by (simp add: word_less_nat_alt not_le)
  then show ?thesis
    using json(1,2) w' by (simp add: verify_user_token_def starts_with_def)
qed

text \<open>
  A token that was issued is accepted for exactly ten minutes, the last second included, as the
  project and user it was issued for, as long as Redis still holds what was stored under it; after
  that it is refused even if Redis has not dropped it. The clock must be at least ten minutes below
  the end of its 64-bit range.
\<close>

theorem token_round_trip:
  assumes "redis_stores r v" and "codec_ok codec"
    and "store_user_token r codec rnd (Some t0) w pid uid = (w1, Inr (Inr token))"
    and "value v w2 token = value v w1 token" and "unat t0 + 600 < 2 ^ 64"
  shows "snd (verify_user_token r codec (Some t1) w2 token) =
    Inr (Inr (if unat t1 \<le> unat t0 + 600
              then Some \<lparr>StoredToken.project_id = pid, StoredToken.user_id = uid,
                         StoredToken.expires_at = t0 + 600\<rparr>
              else None))"
  using assms by (rule issued_token_verdict)

theorem token_round_trip_witness:
  "snd (verify_user_token mem_redis example_codec (Some 603)
     (fst (store_user_token mem_redis example_codec ''abc'' (Some 3) (Map.empty, (\<lambda>_. 0), (\<lambda>_. False)) ''p'' ''ann''))
     ''pxtok_abc'') =
   Inr (Inr (Some \<lparr>StoredToken.project_id = ''p'', StoredToken.user_id = ''ann'', StoredToken.expires_at = 603\<rparr>))"
proof -
  obtain w1 where "store_user_token mem_redis example_codec ''abc'' (Some 3)
      (Map.empty, (\<lambda>_. 0), (\<lambda>_. False)) ''p'' ''ann'' = (w1, Inr (Inr ''pxtok_abc''))"
    using store_user_token_effect [OF mem_redis_ok(1) example_codec_ok, of "''abc''" 3] by force
  from token_round_trip [OF mem_redis_ok(1) example_codec_ok this refl, of 603] this
  show ?thesis by simp
qed

section \<open>Properties of the rate limiter\<close>

lemma rate_limit_key_inject [simp]: "rate_limit_key s = rate_limit_key s' \<longleftrightarrow> s = s'"
  by (simp add: rate_limit_key_def)

lemma redis_countsD:
  assumes "redis_counts r v"
  shows "get_connection r w = (w', x) \<Longrightarrow> counter v w' = counter v w \<and> volatile v w' = volatile v w"
    and "incr r w k n = (w', Inr m) \<Longrightarrow> m = counter v w k + n \<and>
      counter v w' = (counter v w)(k := m) \<and> volatile v w' = volatile v w"
    and "incr r w k n = (w', Inl e) \<Longrightarrow>
      (counter v w' = counter v w \<or> counter v w' = (counter v w)(k := counter v w k + n)) \<and>
      volatile v w' = volatile v w"
    and "expire r w k t = (w', z) \<Longrightarrow> counter v w' = counter v w \<and>
      (volatile v w' = (volatile v w)(k := True) \<or> \<not> is_ok z \<and> volatile v w' = volatile v w)"
  using assms unfolding redis_counts_def by blast+

text \<open>
  One request: it never lowers a counter, touches only its own key, is admitted only from below three
  and then raises the counter, and gives its key a time to live only when the counter was zero.
\<close>

lemma check_rate_limit_step:
  assumes "redis_counts r v" and "check_rate_limit r w s = (w', res)"
  shows "counter v w (rate_limit_key s) \<le> counter v w' (rate_limit_key s) \<and>
    (\<forall>k. k \<noteq> rate_limit_key s \<longrightarrow> counter v w' k = counter v w k \<and> volatile v w' k = volatile v w k) \<and>
    (res = Inr () \<longrightarrow> counter v w' (rate_limit_key s) = counter v w (rate_limit_key s) + 1 \<and>
       counter v w (rate_limit_key s) < MAX_REQUESTS) \<and>
    (counter v w (rate_limit_key s) \<noteq> 0 \<longrightarrow> volatile v w' (rate_limit_key s) = volatile v w (rate_limit_key s))"
proof -
  let ?k = "rate_limit_key s"
  obtain w1 x where c: "get_connection r w = (w1, x)" by (cases "get_connection r w")
  note c' = redis_countsD(1) [OF assms(1) c]
  show ?thesis
  proof (cases x)
    case (Inl e)
    then show ?thesis using assms(2) c c' by (auto simp: check_rate_limit_def Let_def)
  next
    case (Inr u)
    obtain w2 y where i: "incr r w1 ?k 1 = (w2, y)" by (cases "incr r w1 ?k 1")
    show ?thesis
    proof (cases y)
      case (Inl e)
      then show ?thesis
        using redis_countsD(3) [OF assms(1), of w1 ?k 1 w2 e] assms(2) c c' i \<open>x = Inr u\<close>
        by (auto simp: check_rate_limit_def Let_def)
    next
      case (Inr m)
      have m: "m = counter v w ?k + 1" "counter v w2 = (counter v w)(?k := m)" "volatile v w2 = volatile v w"
        using redis_countsD(2) [OF assms(1), of w1 ?k 1 w2 m] c' i Inr by auto
      obtain w3 z where e: "expire r w2 ?k WINDOW_SECS = (w3, z)" by (cases "expire r w2 ?k WINDOW_SECS")
      have "counter v w3 = counter v w2" "\<forall>k. k \<noteq> ?k \<longrightarrow> volatile v w3 k = volatile v w2 k"
        using redis_countsD(4) [OF assms(1) e] by auto
      then show ?thesis
        using assms(2) c i e m \<open>x = Inr u\<close> Inr
        by (cases z) (auto simp: check_rate_limit_def Let_def MAX_REQUESTS_def split: if_splits)
    qed
  qed
qed

text \<open>
  A sequence of requests, each with its Google user, and of moments at which time passes (\<open>tick\<close>,
  which may drop keys that have a time to live); the answers to the requests, in order.
\<close>

datatype RateEvent = Request string | Elapse

fun rate_run ::
  "'w Redis \<Rightarrow> ('w \<Rightarrow> 'w) \<Rightarrow> 'w \<Rightarrow> RateEvent list \<Rightarrow> (string \<times> (RateLimitError, unit) result) list" where
  "rate_run r tick w [] = []"
| "rate_run r tick w (Request s # es) =
     (case check_rate_limit r w s of (w', res) \<Rightarrow> (s, res) # rate_run r tick w' es)"
| "rate_run r tick w (Elapse # es) = rate_run r tick (tick w) es"

definition admitted :: "string \<Rightarrow> (string \<times> (RateLimitError, unit) result) list \<Rightarrow> nat" where
  "admitted s rs = length (filter (\<lambda>(s', res). s' = s \<and> res = Inr ()) rs)"

lemma admitted_simps [simp]:
  "admitted s [] = 0"
  "admitted s ((s', res) # rs) = (if s' = s \<and> res = Inr () then Suc (admitted s rs) else admitted s rs)"
  by (simp_all add: admitted_def)

lemma admitted_request:
  assumes "redis_counts r v" and "check_rate_limit r w s = (w', res)"
    and "n \<le> nat (MAX_REQUESTS - counter v w' (rate_limit_key s))"
  shows "(if res = Inr () then Suc n else n) \<le> nat (MAX_REQUESTS - counter v w (rate_limit_key s))"
proof -
  let ?c = "counter v w (rate_limit_key s)" and ?c' = "counter v w' (rate_limit_key s)"
  have "?c \<le> ?c'" and "res = Inr () \<Longrightarrow> ?c' = ?c + 1 \<and> ?c < MAX_REQUESTS"
    using check_rate_limit_step [OF assms(1,2)] by blast+
  then show ?thesis using assms(3) by (cases "res = Inr ()") (simp_all, linarith+)
qed

text \<open>
  C25. Within a window, that is, while no key expires, at most three requests of one Google user are
  admitted, less those counted before, whatever requests of other users come between and
  whichever operations of Redis fail.
\<close>

theorem rate_limit_window:
  assumes "redis_counts r v" and "Elapse \<notin> set es"
  shows "admitted s (rate_run r tick w es) \<le> nat (MAX_REQUESTS - counter v w (rate_limit_key s))"
  using assms(2)
proof (induction es arbitrary: w)
  case (Cons ev es)
  then obtain s' where ev: "ev = Request s'" by (cases ev) auto
  obtain w' res where c: "check_rate_limit r w s' = (w', res)" by (cases "check_rate_limit r w s'")
  note st = check_rate_limit_step [OF assms(1) c]
  have IH: "admitted s (rate_run r tick w' es) \<le> nat (MAX_REQUESTS - counter v w' (rate_limit_key s))"
    using Cons by simp
  show ?case
  proof (cases "s' = s")
    case True
    then show ?thesis using admitted_request [OF assms(1), of w s w' res] c IH by (simp add: ev)
  next
    case False
    then have "counter v w' (rate_limit_key s) = counter v w (rate_limit_key s)" using st by simp
    then show ?thesis using IH False by (simp add: ev c)
  qed
qed simp

theorem rate_limit_window_witness:
  "admitted ''g'' (rate_run mem_redis (\<lambda>w. w) (Map.empty, (\<lambda>_. 0), (\<lambda>_. False))
     (replicate 5 (Request ''g''))) \<le> 3"
  using rate_limit_window [OF mem_redis_ok(2), of "replicate 5 (Request ''g'')" "''g''" "\<lambda>w. w"
      "(Map.empty, (\<lambda>_. 0), (\<lambda>_. False))"]
  by (simp add: MAX_REQUESTS_def mem_view_def)

text \<open>
  The counter and its time to live are set by two calls: when the second fails after the first
  request of a window, the key never expires, since the limiter sets a time to live only when the
  count is one; from then on the Google user gets at most two more requests admitted, however much
  time passes.
\<close>

theorem rate_limit_lockout:
  assumes "redis_counts r v"
    and "\<And>w k. \<not> volatile v w k \<Longrightarrow> counter v (tick w) k = counter v w k \<and> \<not> volatile v (tick w) k"
    and "1 \<le> counter v w (rate_limit_key s)" and "\<not> volatile v w (rate_limit_key s)"
  shows "admitted s (rate_run r tick w es) \<le> nat (MAX_REQUESTS - counter v w (rate_limit_key s)) \<and>
    nat (MAX_REQUESTS - counter v w (rate_limit_key s)) \<le> 2"
proof -
  have "admitted s (rate_run r tick w es) \<le> nat (MAX_REQUESTS - counter v w (rate_limit_key s))"
    using assms(3,4)
  proof (induction es arbitrary: w)
    case (Cons ev es)
    show ?case
    proof (cases ev)
      case (Request s')
      obtain w' res where c: "check_rate_limit r w s' = (w', res)" by (cases "check_rate_limit r w s'")
      note st = check_rate_limit_step [OF assms(1) c]
      show ?thesis
      proof (cases "s' = s")
        case True
        then have "1 \<le> counter v w' (rate_limit_key s)" "\<not> volatile v w' (rate_limit_key s)"
          using st Cons.prems by auto
        from Cons.IH [OF this] show ?thesis
          using admitted_request [OF assms(1), of w s w' res] c True by (simp add: Request)
      next
        case False
        then have "counter v w' (rate_limit_key s) = counter v w (rate_limit_key s)"
          "volatile v w' (rate_limit_key s) = volatile v w (rate_limit_key s)" using st by simp_all
        then show ?thesis using Cons.IH [of w'] Cons.prems False by (simp add: Request c)
      qed
    next
      case Elapse
      then show ?thesis using Cons.IH [of "tick w"] Cons.prems assms(2) [of w "rate_limit_key s"] by simp
    qed
  qed simp
  then show ?thesis using assms(3) by (simp add: MAX_REQUESTS_def)
qed

theorem rate_limit_lockout_witness:
  "admitted ''g'' (rate_run mem_redis (\<lambda>w. w) (Map.empty, (\<lambda>_. 1), (\<lambda>_. False))
     (replicate 9 Elapse @ replicate 4 (Request ''g''))) \<le> 2"
  using rate_limit_lockout [OF mem_redis_ok(2), of "\<lambda>w. w" "(Map.empty, (\<lambda>_. 1), (\<lambda>_. False))" "''g''"
      "replicate 9 Elapse @ replicate 4 (Request ''g'')"]
  by (simp add: MAX_REQUESTS_def mem_view_def)

section \<open>Properties of the handlers\<close>


definition example_postgres :: "mem_redis_state Postgres" where
  "example_postgres = \<lparr>insert_key = (\<lambda>w p k. (w, Inr ())),
     select_key = (\<lambda>w p. (w, Inr (if p = ''p'' then Some ''key'' else None)))\<rparr>"


text \<open>
  C35. A tenant is created only for a bearer token that Google accepts for this client id and whose
  user the rate limiter admits; then exactly the key pair of the answer is inserted.
\<close>

theorem tenant_generation_guarded:
  assumes "generate_tenant_handler pool redis http_get client_id rnd nano w authorization = (w', Inr resp)"
  shows "\<exists>tok w1 info w2 w3.
    authorization = Some (''Bearer '' @ tok) \<and>
    http_get w (''https://oauth2.googleapis.com/tokeninfo?id_token='' @ tok) =
      (w1, Inr \<lparr>is_success = True, json_body = Inr info\<rparr>) \<and>
    client_id = Some (aud info) \<and>
    check_rate_limit redis w1 (TokenInfoResponse.sub info) = (w2, Inr ()) \<and>
    insert_key pool w2 (''peroxo_pj_'' @ nano) (''peroxo_'' @ rnd) = (w', Inr w3) \<and>
    resp = \<lparr>GenerateTenantResponse.project_id = ''peroxo_pj_'' @ nano,
            GenerateTenantResponse.secret_api_key = ''peroxo_'' @ rnd\<rparr>"
proof -
  obtain tok where tok: "authorization = Some (''Bearer '' @ tok)"
    and 1: "Option.bind authorization (\<lambda>v. strip_prefix v ''Bearer '') = Some tok"
    using assms by (auto simp: generate_tenant_handler_def strip_prefix_Some bind_eq_Some_conv split: option.splits)
  obtain w1 g where g: "verify_id_token http_get client_id w tok = (w1, Inr g)"
    using assms 1 by (auto simp: generate_tenant_handler_def split: prod.splits sum.splits)
  obtain w2 where r: "check_rate_limit redis w1 (GoogleUser.sub g) = (w2, Inr ())"
    using assms 1 g by (auto simp: generate_tenant_handler_def split: prod.splits sum.splits)
  have i: "insert_key pool w2 (''peroxo_pj_'' @ nano) (''peroxo_'' @ rnd) = (w', Inr ()) \<and>
      resp = \<lparr>GenerateTenantResponse.project_id = ''peroxo_pj_'' @ nano,
              GenerateTenantResponse.secret_api_key = ''peroxo_'' @ rnd\<rparr>"
    using assms 1 g r
    by (auto simp: generate_tenant_handler_def tenant_keypair_new_def insert_tenant_keypair_def and_then_def
        split: prod.splits sum.splits)
  have "\<exists>info. http_get w (''https://oauth2.googleapis.com/tokeninfo?id_token='' @ tok) =
      (w1, Inr \<lparr>is_success = True, json_body = Inr info\<rparr>) \<and> client_id = Some (aud info) \<and>
      GoogleUser.sub g = TokenInfoResponse.sub info"
    using g
    by (cases "http_get w (''https://oauth2.googleapis.com/tokeninfo?id_token='' @ tok)")
       (auto simp: verify_id_token_def split: sum.splits option.splits if_splits; metis HttpResponse.surjective old.unit.exhaust)
  then show ?thesis using tok r i by auto
qed

definition example_google :: "mem_redis_state \<Rightarrow> string \<Rightarrow> mem_redis_state \<times> (string, HttpResponse) result" where
  "example_google w url = (w, Inr \<lparr>is_success = True, json_body = Inr
     \<lparr>TokenInfoResponse.sub = ''g'', TokenInfoResponse.email = ''m'', aud = ''client''\<rparr>\<rparr>)"

theorem tenant_generation_guarded_witness:
  "\<exists>w2. check_rate_limit mem_redis (Map.empty, (\<lambda>_. 0), (\<lambda>_. False)) ''g'' = (w2, Inr ())"
proof -
  have "generate_tenant_handler example_postgres mem_redis example_google (Some ''client'') ''r'' ''n''
      (Map.empty, (\<lambda>_. 0), (\<lambda>_. False)) (Some ''Bearer t'') =
    ((Map.empty, (\<lambda>_. 0)(rate_limit_key ''g'' := 1), (\<lambda>_. False)(rate_limit_key ''g'' := True)),
     Inr \<lparr>GenerateTenantResponse.project_id = ''peroxo_pj_n'', GenerateTenantResponse.secret_api_key = ''peroxo_r''\<rparr>)"
    by (simp add: generate_tenant_handler_def strip_prefix_def starts_with_def verify_id_token_def example_google_def
        check_rate_limit_def Let_def mem_redis_def MAX_REQUESTS_def tenant_keypair_new_def insert_tenant_keypair_def
        example_postgres_def)
  from tenant_generation_guarded [OF this] show ?thesis by (auto simp: example_google_def)
qed

end
