(* ===== verification/Number_Text.thy ===== *)
theory Number_Text
  imports Prelude
begin

text \<open>
  Numbers as text: \<^verbatim>\<open>from_str_radix\<close>, \<^verbatim>\<open>parse::<i32>()\<close> and \<^verbatim>\<open>Display\<close> of the standard library, as the sources
  use them, and \<^verbatim>\<open>peroxo/src/actors/uuid_util.rs\<close>, which reads the node id of the generated
  message ids from a MAC address.
\<close>

section \<open>Parsing\<close>

definition char_code :: "char \<Rightarrow> nat" where
  "char_code c = of_char c"

definition to_digit :: "nat \<Rightarrow> char \<Rightarrow> nat option" where
  "to_digit radix c =
     (let n = char_code c;
          d = (if 48 \<le> n \<and> n \<le> 57 then n - 48
               else if 97 \<le> n \<and> n \<le> 122 then n - 87
               else if 65 \<le> n \<and> n \<le> 90 then n - 55 else 36)
      in if d < radix then Some d else None)"

fun digits_value :: "nat \<Rightarrow> nat \<Rightarrow> string \<Rightarrow> nat option" where
  "digits_value radix acc [] = Some acc"
| "digits_value radix acc (c # cs) =
     (case to_digit radix c of
        None \<Rightarrow> None
      | Some d \<Rightarrow> digits_value radix (radix * acc + d) cs)"

text \<open>
  \<^verbatim>\<open>from_str_radix\<close> of an integer type with the bounds \<open>lo\<close> and \<open>hi\<close>: an optional sign, \<open>-\<close> only for a signed
  type, and at least one digit.
\<close>

definition from_str_radix :: "int \<Rightarrow> int \<Rightarrow> nat \<Rightarrow> string \<Rightarrow> int option" where
  "from_str_radix lo hi radix s =
     (let in_range = (\<lambda>i. if lo \<le> i \<and> i \<le> hi then Some i else None)
      in case s of
           [] \<Rightarrow> None
         | c # cs \<Rightarrow>
             if c = CHR ''+'' \<and> cs \<noteq> [] then Option.bind (digits_value radix 0 cs) (\<lambda>n. in_range (int n))
             else if c = CHR ''-'' \<and> cs \<noteq> [] \<and> lo < 0 then Option.bind (digits_value radix 0 cs) (\<lambda>n. in_range (- int n))
             else Option.bind (digits_value radix 0 s) (\<lambda>n. in_range (int n)))"

definition parse_i32 :: "string \<Rightarrow> i32 option" where
  "parse_i32 s = map_option of_int (from_str_radix (- (2 ^ 31)) (2 ^ 31 - 1) 10 s)"

definition parse_hex_u8 :: "string \<Rightarrow> u8 option" where
  "parse_hex_u8 s = map_option of_int (from_str_radix 0 255 16 s)"

section \<open>Printing\<close>

definition digit_char :: "nat \<Rightarrow> char" where
  "digit_char d = (if d < 10 then char_of (48 + d) else char_of (87 + d))"

fun show_nat :: "nat \<Rightarrow> string" where
  "show_nat n = (if n < 10 then [digit_char n] else show_nat (n div 10) @ [digit_char (n mod 10)])"

declare show_nat.simps [simp del]

definition show_i32 :: "i32 \<Rightarrow> string" where
  "show_i32 i = (if sint i < 0 then CHR ''-'' # show_nat (nat (- sint i)) else show_nat (nat (sint i)))"

section \<open>Reading back what was printed\<close>

lemma char_code_digit [simp]: "d < 36 \<Longrightarrow> char_code (digit_char d) = (if d < 10 then 48 + d else 87 + d)"
  by (simp add: char_code_def digit_char_def)

lemma to_digit_digit [simp]: "d < radix \<Longrightarrow> radix \<le> 36 \<Longrightarrow> to_digit radix (digit_char d) = Some d"
  by (simp add: to_digit_def Let_def)

lemma to_digit_signs [simp]: "to_digit radix CHR ''-'' = (if 36 < radix then Some 36 else None)"
  "to_digit radix CHR ''+'' = (if 36 < radix then Some 36 else None)"
  by (simp_all add: to_digit_def char_code_def)

lemma digits_value_append:
  "digits_value radix a (s @ t) = Option.bind (digits_value radix a s) (\<lambda>b. digits_value radix b t)"
  by (induction s arbitrary: a) (auto split: option.splits)

lemma digits_show_nat: "digits_value 10 0 (show_nat n) = Some n"
proof (induction n rule: show_nat.induct)
  case (1 n)
  show ?case
  proof (cases "n < 10")
    case True
    then show ?thesis by (simp add: show_nat.simps [of n])
  next
    case False
    then show ?thesis using "1.IH" by (simp add: show_nat.simps [of n] digits_value_append)
  qed
qed

lemma show_nat_nonempty [simp]: "show_nat n \<noteq> []"
  by (subst show_nat.simps) simp

lemma sign_not_digit: "digits_value radix 0 (c # cs) = Some n \<Longrightarrow> radix \<le> 36 \<Longrightarrow> c \<noteq> CHR ''+'' \<and> c \<noteq> CHR ''-''"
  by (auto split: option.splits)

lemma from_str_radix_digits:
  assumes "digits_value radix 0 s = Some n" and "s \<noteq> []" and "radix \<le> 36"
  shows "from_str_radix lo hi radix s = (if lo \<le> int n \<and> int n \<le> hi then Some (int n) else None)"
  using assms sign_not_digit [of radix] by (cases s) (auto simp: from_str_radix_def simp del: digits_value.simps)

lemma from_str_radix_minus:
  assumes "digits_value radix 0 s = Some n" and "s \<noteq> []" and "lo < 0"
  shows "from_str_radix lo hi radix (CHR ''-'' # s) = (if lo \<le> - int n \<and> - int n \<le> hi then Some (- int n) else None)"
  using assms by (simp add: from_str_radix_def)

lemma parse_show_i32: "parse_i32 (show_i32 i) = Some i"
proof -
  have "- (2 ^ 31) \<le> sint i" "sint i \<le> 2 ^ 31 - 1" using sint_greater_eq [of i] sint_less [of i] by auto
  then show ?thesis
    by (simp add: parse_i32_def show_i32_def from_str_radix_digits [OF digits_show_nat] from_str_radix_minus [OF digits_show_nat])
qed

section \<open>The node id\<close>

fun split_on :: "char \<Rightarrow> string \<Rightarrow> string list" where
  "split_on c [] = [[]]"
| "split_on c (d # s) =
     (if d = c then [] # split_on c s
      else (case split_on c s of [] \<Rightarrow> [[d]] | p # ps \<Rightarrow> (d # p) # ps))"

text \<open>\<open>NODE_ID\<close> for the value of the variable \<^verbatim>\<open>MAC_ADD\<close>; \<^const>\<open>Inl\<close> is the message of the panic.\<close>

definition NODE_ID :: "string option \<Rightarrow> (string, u8 list) result" where
  "NODE_ID mac_add =
     (case mac_add of
        None \<Rightarrow> Inl ''Environment variable MAC_ADD must be set''
      | Some node_str \<Rightarrow>
          (case those (map parse_hex_u8 (split_on (CHR '':'') node_str)) of
             None \<Rightarrow> Inl ''Invalid Hex Component''
           | Some node_vec \<Rightarrow>
               if length node_vec = 6 then Inr node_vec
               else Inl ''MAC_ADD must contain exactly 6 bytes, e.g. 00:01:02:03:04:05''))"

definition show_hex_u8 :: "u8 \<Rightarrow> string" where
  "show_hex_u8 b = [digit_char (unat b div 16), digit_char (unat b mod 16)]"

fun join_with :: "char \<Rightarrow> string list \<Rightarrow> string" where
  "join_with c [] = []"
| "join_with c [s] = s"
| "join_with c (s # t # ss) = s @ c # join_with c (t # ss)"

lemma split_on_nonempty [simp]: "split_on c s \<noteq> []"
  by (induction s) (auto split: list.splits)

lemma split_on_no: "c \<notin> set s \<Longrightarrow> split_on c s = [s]"
  by (induction s) auto

lemma split_on_append: "c \<notin> set s \<Longrightarrow> split_on c (s @ c # t) = s # split_on c t"
  by (induction s) auto

lemma split_join:
  "ss \<noteq> [] \<Longrightarrow> \<forall>s\<in>set ss. c \<notin> set s \<Longrightarrow> split_on c (join_with c ss) = ss"
  by (induction c ss rule: join_with.induct) (simp_all add: split_on_no split_on_append)

lemma digit_char_not_colon: "d < 16 \<Longrightarrow> digit_char d \<noteq> CHR '':''"
proof
  assume d: "d < 16" "digit_char d = CHR '':''"
  then have "char_code (digit_char d) = 58" by (simp add: char_code_def)
  then show False using d(1) by (simp split: if_splits)
qed

lemma unat_u8: "unat (b :: u8) < 256"
  using unsigned_less [of b] by simp

lemma parse_show_hex: "parse_hex_u8 (show_hex_u8 b) = Some b"
proof -
  have b: "unat b < 256" by (rule unat_u8)
  then have d: "unat b div 16 < 16" "unat b mod 16 < 16" by simp_all
  have "digits_value 16 0 (show_hex_u8 b) = Some (unat b)" using d by (simp add: show_hex_u8_def)
  then have "from_str_radix 0 255 16 (show_hex_u8 b) = Some (int (unat b))"
    using b from_str_radix_digits [of 16 "show_hex_u8 b" "unat b" 0 255]
    by (simp add: show_hex_u8_def del: of_nat_unat)
  then show ?thesis by (simp add: parse_hex_u8_def)
qed

lemma hex_no_colon: "CHR '':'' \<notin> set (show_hex_u8 b)"
proof -
  have "unat b div 16 < 16" "unat b mod 16 < 16" using unat_u8 [of b] by simp_all
  then show ?thesis
    using digit_char_not_colon [of "unat b div 16"] digit_char_not_colon [of "unat b mod 16"]
    by (auto simp: show_hex_u8_def)
qed

lemma those_map_Some [simp]: "those (map Some xs) = Some xs"
  by (induction xs) simp_all

lemma those_Some_length: "those xs = Some ys \<Longrightarrow> length ys = length xs"
  by (induction xs arbitrary: ys) (auto split: option.splits)

lemma NODE_ID_mac:
  assumes "bs \<noteq> []"
  shows "NODE_ID (Some (join_with (CHR '':'') (map show_hex_u8 bs))) =
    (if length bs = 6 then Inr bs else Inl ''MAC_ADD must contain exactly 6 bytes, e.g. 00:01:02:03:04:05'')"
proof -
  have "split_on (CHR '':'') (join_with (CHR '':'') (map show_hex_u8 bs)) = map show_hex_u8 bs"
    using assms hex_no_colon by (intro split_join) auto
  then show ?thesis by (simp add: NODE_ID_def comp_def parse_show_hex)
qed

section \<open>Properties\<close>

text \<open>
  A MAC address in the usual notation, two hexadecimal digits for each of its bytes and colons
  between them, is read as exactly its six bytes; with any other number of bytes, or when the
  variable is not set, the program panics; and every address that is accepted has six parts.
\<close>

theorem node_id_reads_mac:
  "(length bs = 6 \<longrightarrow> NODE_ID (Some (join_with (CHR '':'') (map show_hex_u8 bs))) = Inr bs) \<and>
   (length bs \<noteq> 6 \<longrightarrow> \<not> is_ok (NODE_ID (Some (join_with (CHR '':'') (map show_hex_u8 bs))))) \<and>
   \<not> is_ok (NODE_ID None) \<and>
   (is_ok (NODE_ID (Some s)) \<longrightarrow> length (split_on (CHR '':'') s) = 6)"
proof (intro conjI impI)
  assume "length bs = 6"
  then show "NODE_ID (Some (join_with (CHR '':'') (map show_hex_u8 bs))) = Inr bs" using NODE_ID_mac [of bs] by (cases bs) simp_all
next
  assume bs: "length bs \<noteq> 6"
  show "\<not> is_ok (NODE_ID (Some (join_with (CHR '':'') (map show_hex_u8 bs))))"
  proof (cases bs)
    case Nil
    then show ?thesis by (simp add: NODE_ID_def parse_hex_u8_def from_str_radix_def)
  next
    case (Cons b bs')
    then show ?thesis using bs NODE_ID_mac [of bs] by simp
  qed
next
  show "\<not> is_ok (NODE_ID None)" by (simp add: NODE_ID_def)
next
  assume "is_ok (NODE_ID (Some s))"
  then show "length (split_on (CHR '':'') s) = 6"
    by (auto simp: NODE_ID_def split: option.splits if_splits dest: those_Some_length)
qed

theorem node_id_reads_mac_witness:
  "NODE_ID (Some ''00:01:02:03:04:0a'') = Inr [0, 1, 2, 3, 4, 10]"
proof -
  have "join_with (CHR '':'') (map show_hex_u8 [0, 1, 2, 3, 4, 10]) = ''00:01:02:03:04:0a''"
    by code_simp
  then show ?thesis using node_id_reads_mac [of "[0, 1, 2, 3, 4, 10]"] by simp
qed

end
