(* ===== verification/Mongo.thy ===== *)
theory Mongo
  imports Persistence Interfaces Number_Text
begin

text \<open>
  The persistence of the gateway with the feature \<^verbatim>\<open>mongo_db\<close>: direct messages go to MongoDB and are
  paged from there (\<^verbatim>\<open>peroxo/src/mongo_db\<close> and the parts of \<^verbatim>\<open>persistance_actor/handlers.rs\<close> under the
  feature). Room messages and syncing go through \<^verbatim>\<open>chat-service\<close> as without it.

  The crate \<^verbatim>\<open>mongodb\<close> is an argument, a \<open>MongoClient\<close> with the operations the sources call. A \<^verbatim>\<open>DateTime\<close> of
  \<^verbatim>\<open>bson\<close> is its milliseconds.
\<close>

section \<open>Configuration and documents\<close>

record MongoDbConfig =
  connection_url :: string
  database_name :: string

definition mongo_config_new :: "string \<Rightarrow> MongoDbConfig" where
  "mongo_config_new url = \<lparr>connection_url = url, database_name = ''affinity''\<rparr>"

definition with_database_name :: "MongoDbConfig \<Rightarrow> string \<Rightarrow> MongoDbConfig" where
  "with_database_name self name = self\<lparr>database_name := name\<rparr>"

record DirectMessageId =
  conversation_id :: string
  message_id :: string

record MongoDirectMessage =
  doc_id :: DirectMessageId
  sender_id :: i32
  recipient_id :: i32
  message_text :: string
  created_at :: millis

record UserConversationId =
  user_id :: i32
  conversation_id :: string

record UserConversation =
  conversation_key :: UserConversationId
  last_message :: millis

section \<open>The driver\<close>

text \<open>
  \<open>insert_one w s db collection document\<close>; \<open>update_one w s db collection user conversation time\<close>, the update with the filter
  on \<^verbatim>\<open>_id.user_id\<close> and \<^verbatim>\<open>_id.conversation_id\<close>, \<^verbatim>\<open>$set\<close> of \<^verbatim>\<open>last_message\<close> and \<^verbatim>\<open>upsert(true)\<close>; \<open>find w db collection conversation
  below limit\<close>, the query with the filter on \<^verbatim>\<open>_id.conversation_id\<close> and, when given, \<^verbatim>\<open>$lt\<close> on
  \<^verbatim>\<open>_id.message_id\<close>, sorted by it in descending order; \<open>documents\<close>, what \<^verbatim>\<open>try_next\<close> yields. A session that
  goes out of scope is \<open>drop_session\<close>.
\<close>

record ('w, 's, 'cur) MongoClient =
  start_session :: "'w \<Rightarrow> 'w \<times> (string, 's) result"
  start_transaction :: "'w \<Rightarrow> 's \<Rightarrow> 'w \<times> (string, unit) result"
  insert_one :: "'w \<Rightarrow> 's \<Rightarrow> string \<Rightarrow> string \<Rightarrow> MongoDirectMessage \<Rightarrow> 'w \<times> (string, unit) result"
  update_one :: "'w \<Rightarrow> 's \<Rightarrow> string \<Rightarrow> string \<Rightarrow> i32 \<Rightarrow> string \<Rightarrow> millis \<Rightarrow> 'w \<times> (string, unit) result"
  commit_transaction :: "'w \<Rightarrow> 's \<Rightarrow> 'w \<times> (string, unit) result"
  drop_session :: "'w \<Rightarrow> 's \<Rightarrow> 'w"
  find_documents :: "'w \<Rightarrow> string \<Rightarrow> string \<Rightarrow> string \<Rightarrow> string option \<Rightarrow> nat \<Rightarrow> 'w \<times> (string, 'cur) result"
  documents :: "'cur \<Rightarrow> (string, MongoDirectMessage) result list"

section \<open>Operations\<close>

definition mongo_conversation :: "string \<Rightarrow> string \<Rightarrow> string" where
  "mongo_conversation sender receiver =
     (if sender < receiver then sender @ ''_'' @ receiver else receiver @ ''_'' @ sender)"

definition parse_or_default :: "string \<Rightarrow> i32" where
  "parse_or_default s = (case parse_i32 s of Some i \<Rightarrow> i | None \<Rightarrow> 0)"

definition mongo_message :: "UuidOps \<Rightarrow> TenantUserId \<Rightarrow> TenantUserId \<Rightarrow> string \<Rightarrow> uuid \<Rightarrow> millis \<Rightarrow> MongoDirectMessage" where
  "mongo_message u tenant_sender_id tenant_receiver_id message_content mid ts =
     (let sender = TenantUserId.user_id tenant_sender_id; receiver = TenantUserId.user_id tenant_receiver_id
      in \<lparr>doc_id = \<lparr>DirectMessageId.conversation_id = mongo_conversation sender receiver,
            DirectMessageId.message_id = to_string u mid\<rparr>,
          MongoDirectMessage.sender_id = parse_or_default sender,
          MongoDirectMessage.recipient_id = parse_or_default receiver,
          MongoDirectMessage.message_text = message_content, MongoDirectMessage.created_at = ts\<rparr>)"

definition insert_message_in_mongo ::
  "('w, 's, 'cur) MongoClient \<Rightarrow> MongoDbConfig \<Rightarrow> 'w \<Rightarrow> MongoDirectMessage \<Rightarrow> 'w \<times> (string, unit) result" where
  "insert_message_in_mongo client config w m =
     (let db = database_name config; conv = DirectMessageId.conversation_id (doc_id m)
      in and_then (start_session client w) (\<lambda>w session.
         let (w, res) =
           and_then (start_transaction client w session) (\<lambda>w _.
           and_then (insert_one client w session db ''direct_messages'' m) (\<lambda>w _.
           and_then (update_one client w session db ''user_conversations'' (MongoDirectMessage.sender_id m) conv
             (MongoDirectMessage.created_at m)) (\<lambda>w _.
           and_then (update_one client w session db ''user_conversations'' (MongoDirectMessage.recipient_id m) conv
             (MongoDirectMessage.created_at m)) (\<lambda>w _.
           and_then (commit_transaction client w session) (\<lambda>w _. (w, Inr ()))))))
         in (drop_session client w session, res)))"

definition mongo_persist_direct_message ::
  "UuidOps \<Rightarrow> ('w, 's, 'cur) MongoClient \<Rightarrow> MongoDbConfig \<Rightarrow> 'w \<Rightarrow> string \<Rightarrow> TenantUserId \<Rightarrow> TenantUserId \<Rightarrow> string \<Rightarrow>
   uuid \<Rightarrow> millis \<Rightarrow> 'w \<times> (string, unit) result" where
  "mongo_persist_direct_message u client config w conv tenant_sender_id tenant_receiver_id message_content mid ts =
     (case insert_message_in_mongo client config w
             (mongo_message u tenant_sender_id tenant_receiver_id message_content mid ts) of
        (w, Inl e) \<Rightarrow> (w, Inl (''MongoDB persistence failed: '' @ e))
      | (w, Inr _) \<Rightarrow> (w, Inr ()))"

definition mongo_response :: "UuidOps \<Rightarrow> nat \<Rightarrow> MongoDirectMessage \<Rightarrow> ResponseDirectMessage" where
  "mongo_response u i doc =
     \<lparr>ResponseDirectMessage.conversation_id = DirectMessageId.conversation_id (doc_id doc),
      ResponseDirectMessage.message_id =
        (case parse_str u (DirectMessageId.message_id (doc_id doc)) of Some uid \<Rightarrow> uid | None \<Rightarrow> new_v4 u i),
      ResponseDirectMessage.sender_id = show_i32 (MongoDirectMessage.sender_id doc),
      ResponseDirectMessage.recipient_id = show_i32 (MongoDirectMessage.recipient_id doc),
      ResponseDirectMessage.message_text = MongoDirectMessage.message_text doc,
      ResponseDirectMessage.created_at = MongoDirectMessage.created_at doc\<rparr>"

text \<open>The loop over \<^verbatim>\<open>try_next\<close>; the first argument counts the messages pushed so far.\<close>

fun read_documents ::
  "UuidOps \<Rightarrow> nat \<Rightarrow> (string, MongoDirectMessage) result list \<Rightarrow> (string, ResponseDirectMessage list) result" where
  "read_documents u i [] = Inr []"
| "read_documents u i (Inl e # ds) = Inl (''Failed to iterate cursor: '' @ e)"
| "read_documents u i (Inr d # ds) =
     (case read_documents u (Suc i) ds of
        Inl e \<Rightarrow> Inl e
      | Inr ms \<Rightarrow> Inr (mongo_response u i d # ms))"

definition fetch_paginated_messages_from_mongo ::
  "UuidOps \<Rightarrow> ('w, 's, 'cur) MongoClient \<Rightarrow> MongoDbConfig \<Rightarrow> 'w \<Rightarrow> string \<Rightarrow> uuid option \<Rightarrow>
   'w \<times> (string, PaginatedMessagesResponse) result" where
  "fetch_paginated_messages_from_mongo u client config w conv cursor =
     (case find_documents client w (database_name config) ''direct_messages'' conv (map_option (to_string u) cursor) 50 of
        (w, Inl e) \<Rightarrow> (w, Inl (''MongoDB query failed: '' @ e))
      | (w, Inr cur) \<Rightarrow>
          (case read_documents u 0 (documents client cur) of
             Inl e \<Rightarrow> (w, Inl e)
           | Inr ms \<Rightarrow>
               (w, Inr \<lparr>PaginatedMessagesResponse.messages = ms,
                  PaginatedMessagesResponse.next_cursor =
                    (if ms = [] then None else Some (to_string u (ResponseDirectMessage.message_id (last ms)))),
                  PaginatedMessagesResponse.has_more = (length ms = 50)\<rparr>)))"

definition mongo_get_paginated_messages ::
  "UuidOps \<Rightarrow> ('w, 's, 'cur) MongoClient \<Rightarrow> MongoDbConfig \<Rightarrow> 'w \<Rightarrow> string \<Rightarrow> uuid option \<Rightarrow> string \<Rightarrow>
   'w \<times> (string, PaginatedMessagesResponse) result" where
  "mongo_get_paginated_messages u client config w pid mid conv =
     fetch_paginated_messages_from_mongo u client config w conv mid"

section \<open>Documented behaviour of MongoDB\<close>

text \<open>
  \<open>committed\<close> is what other sessions see, \<open>view\<close> what a session sees inside its transaction.
  \<open>mongo_serves\<close> states what a success means and that nothing becomes visible before the commit, which
  makes the whole view visible or, when it fails, may or may not have done so; an operation may
  fail at any time. An \<^verbatim>\<open>insert_one\<close> with an \<^verbatim>\<open>_id\<close> that exists fails. An upsert whose filter reaches into
  \<^verbatim>\<open>_id\<close> by dot notation updates a document that matches; when none does, MongoDB refuses to insert
  one.
\<close>

record MongoData =
  direct_messages :: "MongoDirectMessage list"
  user_conversations :: "i32 \<times> string \<rightharpoonup> millis"

record ('w, 's) MongoBackend =
  committed :: "'w \<Rightarrow> string \<Rightarrow> MongoData"
  view :: "'w \<Rightarrow> 's \<Rightarrow> (string \<Rightarrow> MongoData) option"

definition insert_document :: "string \<Rightarrow> MongoDirectMessage \<Rightarrow> (string \<Rightarrow> MongoData) \<Rightarrow> string \<Rightarrow> MongoData" where
  "insert_document db m v = v(db := (v db)\<lparr>direct_messages := direct_messages (v db) @ [m]\<rparr>)"

definition set_last_message :: "string \<Rightarrow> i32 \<Rightarrow> string \<Rightarrow> millis \<Rightarrow> (string \<Rightarrow> MongoData) \<Rightarrow> string \<Rightarrow> MongoData" where
  "set_last_message db usr conv ts v =
     v(db := (v db)\<lparr>user_conversations := (user_conversations (v db))((usr, conv) \<mapsto> ts)\<rparr>)"

definition mongo_serves :: "('w, 's, 'cur) MongoClient \<Rightarrow> ('w, 's) MongoBackend \<Rightarrow> bool" where
  "mongo_serves c b \<longleftrightarrow>
     (\<forall>w. committed b (fst (start_session c w)) = committed b w) \<and>
     (\<forall>w s. committed b (fst (start_transaction c w s)) = committed b w \<and>
        (is_ok (snd (start_transaction c w s)) \<longrightarrow> view b (fst (start_transaction c w s)) s = Some (committed b w))) \<and>
     (\<forall>w s db m. committed b (fst (insert_one c w s db ''direct_messages'' m)) = committed b w \<and>
        (\<forall>v. view b w s = Some v \<longrightarrow> is_ok (snd (insert_one c w s db ''direct_messages'' m)) \<longrightarrow>
           doc_id m \<notin> doc_id ` set (direct_messages (v db)) \<and>
           view b (fst (insert_one c w s db ''direct_messages'' m)) s = Some (insert_document db m v))) \<and>
     (\<forall>w s db usr conv ts. committed b (fst (update_one c w s db ''user_conversations'' usr conv ts)) = committed b w \<and>
        (\<forall>v. view b w s = Some v \<longrightarrow> is_ok (snd (update_one c w s db ''user_conversations'' usr conv ts)) \<longrightarrow>
           user_conversations (v db) (usr, conv) \<noteq> None \<and>
           view b (fst (update_one c w s db ''user_conversations'' usr conv ts)) s = Some (set_last_message db usr conv ts v))) \<and>
     (\<forall>w s v. view b w s = Some v \<longrightarrow>
        committed b (fst (commit_transaction c w s)) = v \<or>
        \<not> is_ok (snd (commit_transaction c w s)) \<and> committed b (fst (commit_transaction c w s)) = committed b w) \<and>
     (\<forall>w s. committed b (drop_session c w s) = committed b w)"

text \<open>\<open>mongo_reads\<close>: queries are answered, from what is committed.\<close>

definition mongo_query :: "MongoData \<Rightarrow> string \<Rightarrow> string option \<Rightarrow> nat \<Rightarrow> MongoDirectMessage list" where
  "mongo_query data conv below limit =
     take limit (rev (sort_key (\<lambda>m. DirectMessageId.message_id (doc_id m))
       (filter (\<lambda>m. DirectMessageId.conversation_id (doc_id m) = conv \<and>
          (case below of None \<Rightarrow> True | Some x \<Rightarrow> DirectMessageId.message_id (doc_id m) < x)) (direct_messages data))))"

definition mongo_reads :: "('w, 's, 'cur) MongoClient \<Rightarrow> ('w, 's) MongoBackend \<Rightarrow> bool" where
  "mongo_reads c b \<longleftrightarrow> (\<forall>w db conv below limit. \<exists>w' cur.
     find_documents c w db ''direct_messages'' conv below limit = (w', Inr cur) \<and> committed b w' = committed b w \<and>
     documents c cur = map Inr (mongo_query (committed b w db) conv below limit))"

section \<open>The transaction\<close>

definition mongo_written :: "string \<Rightarrow> MongoDirectMessage \<Rightarrow> (string \<Rightarrow> MongoData) \<Rightarrow> string \<Rightarrow> MongoData" where
  "mongo_written db m v =
     (let conv = DirectMessageId.conversation_id (doc_id m); ts = MongoDirectMessage.created_at m
      in set_last_message db (MongoDirectMessage.recipient_id m) conv ts
           (set_last_message db (MongoDirectMessage.sender_id m) conv ts (insert_document db m v)))"

definition can_write :: "MongoData \<Rightarrow> MongoDirectMessage \<Rightarrow> bool" where
  "can_write data m \<longleftrightarrow> doc_id m \<notin> doc_id ` set (direct_messages data) \<and>
     (\<forall>usr \<in> {MongoDirectMessage.sender_id m, MongoDirectMessage.recipient_id m}.
        user_conversations data (usr, DirectMessageId.conversation_id (doc_id m)) \<noteq> None)"

lemma and_then_rule:
  assumes "\<And>w e. r = (w, Inl e) \<Longrightarrow> Q (w, Inl e)" and "\<And>w a. r = (w, Inr a) \<Longrightarrow> Q (f w a)"
  shows "Q (and_then r f)"
  using assms by (cases r; cases "snd r") auto

text \<open>One step of the transaction: the view moves from \<open>v\<close> to \<open>v'\<close>, nothing becomes visible.\<close>

lemma serves_insert:
  assumes "mongo_serves c b" and "view b w s = Some v" and "insert_one c w s db ''direct_messages'' m = (w', Inr x)"
  shows "view b w' s = Some (insert_document db m v) \<and> committed b w' = committed b w \<and>
    doc_id m \<notin> doc_id ` set (direct_messages (v db))"
proof -
  have "committed b (fst (insert_one c w s db ''direct_messages'' m)) = committed b w"
    "\<forall>v. view b w s = Some v \<longrightarrow> is_ok (snd (insert_one c w s db ''direct_messages'' m)) \<longrightarrow>
       doc_id m \<notin> doc_id ` set (direct_messages (v db)) \<and>
       view b (fst (insert_one c w s db ''direct_messages'' m)) s = Some (insert_document db m v)"
    using assms(1) unfolding mongo_serves_def by blast+
  then show ?thesis using assms(2,3) by simp
qed

lemma serves_update:
  assumes "mongo_serves c b" and "view b w s = Some v"
    and "update_one c w s db ''user_conversations'' usr conv ts = (w', Inr x)"
  shows "view b w' s = Some (set_last_message db usr conv ts v) \<and> committed b w' = committed b w \<and>
    user_conversations (v db) (usr, conv) \<noteq> None"
proof -
  have "committed b (fst (update_one c w s db ''user_conversations'' usr conv ts)) = committed b w"
    "\<forall>v. view b w s = Some v \<longrightarrow> is_ok (snd (update_one c w s db ''user_conversations'' usr conv ts)) \<longrightarrow>
       user_conversations (v db) (usr, conv) \<noteq> None \<and>
       view b (fst (update_one c w s db ''user_conversations'' usr conv ts)) s = Some (set_last_message db usr conv ts v)"
    using assms(1) unfolding mongo_serves_def by blast+
  then show ?thesis using assms(2,3) by simp
qed

lemma serves_begin:
  assumes "mongo_serves c b" and "start_transaction c w s = (w', Inr x)"
  shows "view b w' s = Some (committed b w) \<and> committed b w' = committed b w"
proof -
  have "committed b (fst (start_transaction c w s)) = committed b w"
    "is_ok (snd (start_transaction c w s)) \<longrightarrow> view b (fst (start_transaction c w s)) s = Some (committed b w)"
    using assms(1) unfolding mongo_serves_def by blast+
  then show ?thesis using assms(2) by simp
qed

lemma serves_committed:
  assumes "mongo_serves c b"
  shows "start_session c w = (w', s) \<Longrightarrow> committed b w' = committed b w"
    and "start_transaction c w t = (w', r) \<Longrightarrow> committed b w' = committed b w"
    and "insert_one c w t db ''direct_messages'' m = (w', r) \<Longrightarrow> committed b w' = committed b w"
    and "update_one c w t db ''user_conversations'' usr conv ts = (w', r) \<Longrightarrow> committed b w' = committed b w"
    and "committed b (drop_session c w t) = committed b w"
    and "view b w t = Some v \<Longrightarrow> commit_transaction c w t = (w', r) \<Longrightarrow>
      committed b w' = v \<or> \<not> is_ok r \<and> committed b w' = committed b w"
  using assms unfolding mongo_serves_def by (metis fst_conv snd_conv)+

definition all_or_nothing ::
  "('w, 's) MongoBackend \<Rightarrow> string \<Rightarrow> MongoDirectMessage \<Rightarrow> 'w \<Rightarrow> 'w \<times> (string, unit) result \<Rightarrow> bool" where
  "all_or_nothing b db m w r \<longleftrightarrow>
     committed b (fst r) = committed b w \<and> \<not> is_ok (snd r) \<or>
     committed b (fst r) = mongo_written db m (committed b w) \<and> can_write (committed b w db) m"

text \<open>Rules for the steps, backwards from the result. \<open>stage\<close>: the session's view is \<open>v\<close>.\<close>

definition stage :: "('w, 's) MongoBackend \<Rightarrow> 'w \<Rightarrow> 's \<Rightarrow> (string \<Rightarrow> MongoData) \<Rightarrow> 'w \<Rightarrow> bool" where
  "stage b w0 s v w \<longleftrightarrow> committed b w = committed b w0 \<and> view b w s = Some v"

lemma begin_stage:
  assumes "mongo_serves c b" and "committed b w = committed b w0"
    and "\<And>w' x. stage b w0 s (committed b w0) w' \<Longrightarrow> all_or_nothing b db m w0 (f w' x)"
  shows "all_or_nothing b db m w0 (and_then (start_transaction c w s) f)"
proof (rule and_then_rule [where Q = "all_or_nothing b db m w0"])
  fix w' e assume "start_transaction c w s = (w', Inl e)"
  then show "all_or_nothing b db m w0 (w', Inl e)"
    using serves_committed(2) [OF assms(1)] assms(2) by (simp add: all_or_nothing_def stage_def)
next
  fix w' x assume "start_transaction c w s = (w', Inr x)"
  then show "all_or_nothing b db m w0 (f w' x)"
    using serves_begin [OF assms(1)] assms(2) by (intro assms(3)) (auto simp: stage_def)
qed

lemma insert_stage:
  assumes "mongo_serves c b" and "stage b w0 s v w"
    and "\<And>w' x. stage b w0 s (insert_document db m v) w' \<Longrightarrow> doc_id m \<notin> doc_id ` set (direct_messages (v db)) \<Longrightarrow>
      all_or_nothing b db m w0 (f w' x)"
  shows "all_or_nothing b db m w0 (and_then (insert_one c w s db ''direct_messages'' m) f)"
proof (rule and_then_rule [where Q = "all_or_nothing b db m w0"])
  fix w' e assume "insert_one c w s db ''direct_messages'' m = (w', Inl e)"
  then show "all_or_nothing b db m w0 (w', Inl e)"
    using serves_committed(3) [OF assms(1)] assms(2) by (simp add: all_or_nothing_def stage_def)
next
  fix w' x assume "insert_one c w s db ''direct_messages'' m = (w', Inr x)"
  from serves_insert [OF assms(1) _ this, of v] show "all_or_nothing b db m w0 (f w' x)"
    using assms(2) by (intro assms(3)) (simp_all add: stage_def)
qed

lemma update_stage:
  assumes "mongo_serves c b" and "stage b w0 s v w"
    and "\<And>w' x. stage b w0 s (set_last_message db usr conv ts v) w' \<Longrightarrow> user_conversations (v db) (usr, conv) \<noteq> None \<Longrightarrow>
      all_or_nothing b db m w0 (f w' x)"
  shows "all_or_nothing b db m w0 (and_then (update_one c w s db ''user_conversations'' usr conv ts) f)"
proof (rule and_then_rule [where Q = "all_or_nothing b db m w0"])
  fix w' e assume "update_one c w s db ''user_conversations'' usr conv ts = (w', Inl e)"
  then show "all_or_nothing b db m w0 (w', Inl e)"
    using serves_committed(4) [OF assms(1)] assms(2) by (simp add: all_or_nothing_def stage_def)
next
  fix w' x assume "update_one c w s db ''user_conversations'' usr conv ts = (w', Inr x)"
  then show "all_or_nothing b db m w0 (f w' x)"
    using serves_update [OF assms(1)] assms(2) by (intro assms(3)) (auto simp: stage_def)
qed

lemma commit_stage:
  assumes "mongo_serves c b" and "stage b w0 s (mongo_written db m (committed b w0)) w" and "can_write (committed b w0 db) m"
  shows "all_or_nothing b db m w0 (and_then (commit_transaction c w s) (\<lambda>w _. (w, Inr ())))"
proof -
  obtain w' r where r: "commit_transaction c w s = (w', r)" by (cases "commit_transaction c w s")
  then have "committed b w' = mongo_written db m (committed b w0) \<or> \<not> is_ok r \<and> committed b w' = committed b w"
    using serves_committed(6) [OF assms(1) _ r] assms(2) by (simp add: stage_def)
  then show ?thesis
    using r assms(2,3) by (cases r) (auto simp: all_or_nothing_def stage_def)
qed

lemma can_write_updates:
  assumes "doc_id m \<notin> doc_id ` set (direct_messages (v db))"
    and "user_conversations (insert_document db m v db) (MongoDirectMessage.sender_id m, conv) \<noteq> None"
    and "user_conversations (set_last_message db (MongoDirectMessage.sender_id m) conv ts (insert_document db m v) db)
      (MongoDirectMessage.recipient_id m, conv) \<noteq> None"
    and "conv = DirectMessageId.conversation_id (doc_id m)"
  shows "can_write (v db) m"
  using assms by (auto simp: can_write_def insert_document_def set_last_message_def split: if_splits)

lemma drop_all_or_nothing:
  "mongo_serves c b \<Longrightarrow> all_or_nothing b db m w r \<Longrightarrow> all_or_nothing b db m w (drop_session c (fst r) s, snd r)"
  by (simp add: all_or_nothing_def serves_committed(5))

lemma insert_all_or_nothing:
  assumes c: "mongo_serves c b"
  shows "all_or_nothing b (database_name cfg) m w (insert_message_in_mongo c cfg w m)"
  unfolding insert_message_in_mongo_def Let_def
proof (rule and_then_rule)
  fix w1 s assume "start_session c w = (w1, Inr s)"
  then have w1: "committed b w1 = committed b w" by (rule serves_committed(1) [OF c])
  note commit = commit_stage [OF c, unfolded mongo_written_def Let_def]
  show "all_or_nothing b (database_name cfg) m w
     (case and_then (start_transaction c w1 s) (\<lambda>w _.
        and_then (insert_one c w s (database_name cfg) ''direct_messages'' m) (\<lambda>w _.
        and_then (update_one c w s (database_name cfg) ''user_conversations'' (MongoDirectMessage.sender_id m)
          (DirectMessageId.conversation_id (doc_id m)) (MongoDirectMessage.created_at m)) (\<lambda>w _.
        and_then (update_one c w s (database_name cfg) ''user_conversations'' (MongoDirectMessage.recipient_id m)
          (DirectMessageId.conversation_id (doc_id m)) (MongoDirectMessage.created_at m)) (\<lambda>w _.
        and_then (commit_transaction c w s) (\<lambda>w _. (w, Inr ()))))))
      of (w, res) \<Rightarrow> (drop_session c w s, res))"
    unfolding case_prod_beta
    by (intro drop_all_or_nothing [OF c] begin_stage [OF c w1] insert_stage [OF c] update_stage [OF c] commit)
       (assumption | rule can_write_updates refl)+
qed (use serves_committed(1) [OF c] in \<open>simp add: all_or_nothing_def\<close>)

section \<open>Reading\<close>

lemma read_documents_map: "read_documents u i (map Inr ds) = Inr (map (\<lambda>(j, d). mongo_response u j d) (enumerate i ds))"
  by (induction ds arbitrary: i) (simp_all add: enumerate_Suc_eq)

definition mongo_ok :: "UuidOps \<Rightarrow> MongoData \<Rightarrow> bool" where
  "mongo_ok u data \<longleftrightarrow> distinct (map doc_id (direct_messages data)) \<and>
     (\<forall>m\<in>set (direct_messages data). \<exists>i. DirectMessageId.message_id (doc_id m) = to_string u i)"

lemma mongo_ok_written:
  assumes "mongo_ok u (v db)" and "can_write (v db) (mongo_message u s r x mid ts)"
  shows "mongo_ok u (mongo_written db (mongo_message u s r x mid ts) v db)"
  using assms
  by (auto simp: mongo_ok_def can_write_def mongo_written_def Let_def insert_document_def set_last_message_def
      mongo_message_def)

text \<open>The messages of a conversation, newest first by the text of their ids.\<close>

definition mongo_history :: "MongoData \<Rightarrow> string \<Rightarrow> MongoDirectMessage list" where
  "mongo_history data conv = rev (sort_key (\<lambda>m. DirectMessageId.message_id (doc_id m))
     (filter (\<lambda>m. DirectMessageId.conversation_id (doc_id m) = conv) (direct_messages data)))"

lemma mongo_query_history:
  "mongo_query data conv below limit = take limit (filter (\<lambda>m. case below of None \<Rightarrow> True
     | Some x \<Rightarrow> DirectMessageId.message_id (doc_id m) < x) (mongo_history data conv))"
  by (simp add: mongo_query_def mongo_history_def rev_filter [symmetric] filter_sort conj_commute)

lemma mongo_history_strict:
  assumes "mongo_ok u data"
  shows "sorted_wrt (\<lambda>a b. DirectMessageId.message_id (doc_id b) < DirectMessageId.message_id (doc_id a)) (mongo_history data conv)"
  unfolding mongo_history_def
proof (rule sort_strict)
  have "distinct (map doc_id (filter (\<lambda>m. DirectMessageId.conversation_id (doc_id m) = conv) (direct_messages data)))"
    using assms by (simp add: mongo_ok_def distinct_map inj_on_def)
  then show "distinct (map (\<lambda>m. DirectMessageId.message_id (doc_id m))
      (filter (\<lambda>m. DirectMessageId.conversation_id (doc_id m) = conv) (direct_messages data)))"
    by (auto simp: distinct_map inj_on_def)
qed

lemma mongo_history_ids:
  "mongo_ok u data \<Longrightarrow> d \<in> set (mongo_history data conv) \<Longrightarrow> \<exists>i. DirectMessageId.message_id (doc_id d) = to_string u i"
  by (auto simp: mongo_ok_def mongo_history_def)

lemma mongo_response_id:
  assumes "uuid_ops u" and "DirectMessageId.message_id (doc_id d) = to_string u i"
  shows "mongo_response u k d = mongo_response u 0 d" and "ResponseDirectMessage.message_id (mongo_response u k d) = i"
  using assms by (simp_all add: mongo_response_def uuid_ops_parse)

lemma responses_of_ids:
  assumes "uuid_ops u" and "\<forall>d\<in>set ds. \<exists>i. DirectMessageId.message_id (doc_id d) = to_string u i"
  shows "map (\<lambda>(j, d). mongo_response u j d) (enumerate k ds) = map (mongo_response u 0) ds"
  using assms(2)
proof (induction ds arbitrary: k)
  case (Cons d ds)
  then show ?case using mongo_response_id(1) [OF assms(1), of d] by auto
qed simp

lemma response_id_text:
  assumes "uuid_ops u" and "mongo_ok u data" and "d \<in> set (mongo_history data conv)"
  shows "to_string u (ResponseDirectMessage.message_id (mongo_response u 0 d)) = DirectMessageId.message_id (doc_id d)"
  using mongo_history_ids [OF assms(2,3)] mongo_response_id(2) [OF assms(1)] by auto

type_synonym ('w, 's, 'cur) mongo_context =
  "UuidOps \<times> ('w, 's, 'cur) MongoClient \<times> ('w, 's) MongoBackend \<times> MongoDbConfig \<times> string \<times> string"

fun mongo_ask :: "('w, 's, 'cur) mongo_context \<Rightarrow> 'w \<Rightarrow> uuid option \<Rightarrow> 'w \<times> ResponseDirectMessage list \<times> uuid option" where
  "mongo_ask (u, c, b, cfg, pid, conv) w cursor =
     (case mongo_get_paginated_messages u c cfg w pid cursor conv of
        (w', Inl e) \<Rightarrow> (w', [], None)
      | (w', Inr p) \<Rightarrow> (w', PaginatedMessagesResponse.messages p,
          Option.bind (PaginatedMessagesResponse.next_cursor p) (parse_str u)))"

fun mongo_stored :: "('w, 's, 'cur) mongo_context \<Rightarrow> 'w \<Rightarrow> ResponseDirectMessage list" where
  "mongo_stored (u, c, b, cfg, pid, conv) w =
     map (mongo_response u 0) (mongo_history (committed b w (database_name cfg)) conv)"

fun mongo_place :: "('w, 's, 'cur) mongo_context \<Rightarrow> uuid \<Rightarrow> string" where
  "mongo_place (u, c, b, cfg, pid, conv) = to_string u"

fun mongo_good :: "('w, 's, 'cur) mongo_context \<Rightarrow> 'w \<Rightarrow> bool" where
  "mongo_good (u, c, b, cfg, pid, conv) w \<longleftrightarrow>
     uuid_ops u \<and> mongo_reads c b \<and> mongo_ok u (committed b w (database_name cfg))"

lemma mongo_page:
  assumes "uuid_ops u" and "mongo_reads c b" and "mongo_ok u (committed b w (database_name cfg))"
    and "page = take 50 (filter (\<lambda>m. below_cursor (to_string u) cursor (ResponseDirectMessage.message_id m))
      (map (mongo_response u 0) (mongo_history (committed b w (database_name cfg)) conv)))"
  shows "\<exists>w'. mongo_get_paginated_messages u c cfg w pid cursor conv =
      (w', Inr \<lparr>PaginatedMessagesResponse.messages = page,
         PaginatedMessagesResponse.next_cursor =
           (if page = [] then None else Some (to_string u (ResponseDirectMessage.message_id (last page)))),
         PaginatedMessagesResponse.has_more = (length page = 50)\<rparr>) \<and>
    committed b w' = committed b w"
proof -
  let ?h = "mongo_history (committed b w (database_name cfg)) conv"
  let ?q = "mongo_query (committed b w (database_name cfg)) conv (map_option (to_string u) cursor) 50"
  obtain w' cur where f: "find_documents c w (database_name cfg) ''direct_messages'' conv (map_option (to_string u) cursor) 50 =
      (w', Inr cur)" "committed b w' = committed b w" "documents c cur = map Inr ?q"
    using assms(2) unfolding mongo_reads_def by blast
  have "filter (\<lambda>d. below_cursor (to_string u) cursor (ResponseDirectMessage.message_id (mongo_response u 0 d))) ?h =
      filter (\<lambda>m. case map_option (to_string u) cursor of None \<Rightarrow> True | Some x \<Rightarrow> DirectMessageId.message_id (doc_id m) < x) ?h"
    using response_id_text [OF assms(1,3)]
    by (intro filter_cong refl) (auto simp: below_cursor_def split: option.splits)
  then have page: "page = map (mongo_response u 0) ?q"
    by (simp add: assms(4) filter_map comp_def take_map mongo_query_history)
  have "set ?q \<subseteq> set ?h" unfolding mongo_query_history by (auto dest: in_set_takeD)
  then have "\<forall>d\<in>set ?q. \<exists>i. DirectMessageId.message_id (doc_id d) = to_string u i"
    using mongo_history_ids [OF assms(3)] by blast
  then have "read_documents u 0 (documents c cur) = Inr page"
    by (simp add: f(3) read_documents_map responses_of_ids [OF assms(1)] page)
  then show ?thesis
    using f(1,2) by (simp add: mongo_get_paginated_messages_def fetch_paginated_messages_from_mongo_def)
qed

interpretation mongo_pages: paged_source mongo_ask mongo_stored "\<lambda>c. ResponseDirectMessage.message_id" mongo_place mongo_good
proof
  fix ctx :: "('w, 's, 'cur) mongo_context" and w :: 'w
  assume good: "mongo_good ctx w"
  obtain u c b cfg pid conv where ctx: "ctx = (u, c, b, cfg, pid, conv)" by (cases ctx)
  have ok: "uuid_ops u" "mongo_reads c b" "mongo_ok u (committed b w (database_name cfg))" using good ctx by simp_all
  have "sorted_wrt (\<lambda>x y. to_string u (ResponseDirectMessage.message_id (mongo_response u 0 y)) <
      to_string u (ResponseDirectMessage.message_id (mongo_response u 0 x)))
      (mongo_history (committed b w (database_name cfg)) conv)"
    by (rule sorted_wrt_mono_rel [OF _ mongo_history_strict [OF ok(3)]]) (simp add: response_id_text [OF ok(1,3)])
  then show "sorted_wrt (\<lambda>x y. mongo_place ctx (ResponseDirectMessage.message_id y) <
      mongo_place ctx (ResponseDirectMessage.message_id x)) (mongo_stored ctx w)"
    by (simp add: ctx sorted_wrt_map)
  fix cursor page
  assume "page = take 50 (filter (\<lambda>m. below_cursor (mongo_place ctx) cursor (ResponseDirectMessage.message_id m)) (mongo_stored ctx w))"
  then obtain w' where "mongo_get_paginated_messages u c cfg w pid cursor conv =
      (w', Inr \<lparr>PaginatedMessagesResponse.messages = page,
         PaginatedMessagesResponse.next_cursor =
           (if page = [] then None else Some (to_string u (ResponseDirectMessage.message_id (last page)))),
         PaginatedMessagesResponse.has_more = (length page = 50)\<rparr>)" "committed b w' = committed b w"
    using mongo_page [OF ok, of page cursor conv pid] by (auto simp: ctx)
  then show "\<exists>w'. mongo_ask ctx w cursor = (w', page, if page = [] then None else Some (ResponseDirectMessage.message_id (last page))) \<and>
      mongo_good ctx w' \<and> mongo_stored ctx w' = mongo_stored ctx w"
    using ok by (simp add: ctx uuid_ops_parse)
qed

section \<open>Properties\<close>

text \<open>
  C22. Persisting to MongoDB is all or nothing: a direct message becomes visible together with the
  time of the last message for both of its users, or nothing changes; it is reported as persisted
  only in the first case, and then its id was new. So ids stay unique.
\<close>

theorem mongo_persist_atomic:
  assumes "mongo_serves c b" and "mongo_ok u (committed b w (database_name cfg))"
    and "mongo_persist_direct_message u c cfg w conv s r x mid ts = (w', res)"
  shows "(committed b w' = committed b w \<and> \<not> is_ok res \<or>
      committed b w' = mongo_written (database_name cfg) (mongo_message u s r x mid ts) (committed b w) \<and>
      doc_id (mongo_message u s r x mid ts) \<notin> doc_id ` set (direct_messages (committed b w (database_name cfg)))) \<and>
    mongo_ok u (committed b w' (database_name cfg))"
proof -
  obtain w1 r1 where 1: "insert_message_in_mongo c cfg w (mongo_message u s r x mid ts) = (w1, r1)" by fastforce
  then have eff: "w' = w1" "is_ok res = is_ok r1"
    using assms(3) by (auto simp: mongo_persist_direct_message_def split: sum.splits)
  show ?thesis
    using insert_all_or_nothing [OF assms(1), of cfg "mongo_message u s r x mid ts" w] assms(2)
    by (auto simp: 1 eff all_or_nothing_def mongo_ok_written can_write_def [of _ "mongo_message u s r x mid ts"])
qed

lemma mongo_persist_unlisted:
  assumes "mongo_serves c b" and "user_conversations (committed b w (database_name cfg)) = Map.empty"
    and "mongo_persist_direct_message u c cfg w conv s r x mid ts = (w', res)"
  shows "committed b w' = committed b w \<and> (\<exists>e. res = Inl (''MongoDB persistence failed: '' @ e))"
proof -
  obtain w1 r1 where 1: "insert_message_in_mongo c cfg w (mongo_message u s r x mid ts) = (w1, r1)" by fastforce
  have "committed b w1 = committed b w \<and> \<not> is_ok r1"
    using insert_all_or_nothing [OF assms(1), of cfg "mongo_message u s r x mid ts" w] assms(2)
    by (auto simp: 1 all_or_nothing_def can_write_def)
  then show ?thesis
    using assms(3) 1 by (auto simp: mongo_persist_direct_message_def split: sum.splits)
qed

text \<open>A series of messages to persist: conversation, sender, receiver, content, id and time.\<close>

fun mongo_persist_all ::
  "UuidOps \<Rightarrow> ('w, 's, 'cur) MongoClient \<Rightarrow> MongoDbConfig \<Rightarrow> 'w \<Rightarrow>
   (string \<times> TenantUserId \<times> TenantUserId \<times> string \<times> uuid \<times> millis) list \<Rightarrow> 'w \<times> (string, unit) result list" where
  "mongo_persist_all u c cfg w [] = (w, [])"
| "mongo_persist_all u c cfg w ((conv, s, r, x, mid, ts) # ms) =
     (let (w, res) = mongo_persist_direct_message u c cfg w conv s r x mid ts;
          (w, rest) = mongo_persist_all u c cfg w ms
      in (w, res # rest))"

text \<open>
  C31. A database that starts without user conversations never gets a message: the upsert that
  should create the entry of a user has a filter on parts of \<^verbatim>\<open>_id\<close>, which MongoDB refuses to insert, so
  that the transaction fails; every message is reported as not persisted, and nothing changes.
\<close>

theorem mongo_never_persists:
  assumes "mongo_serves c b" and "user_conversations (committed b w (database_name cfg)) = Map.empty"
  shows "committed b (fst (mongo_persist_all u c cfg w ms)) = committed b w \<and>
    length (snd (mongo_persist_all u c cfg w ms)) = length ms \<and>
    (\<forall>res \<in> set (snd (mongo_persist_all u c cfg w ms)). \<not> is_ok res)"
  using assms
proof (induction ms arbitrary: w)
  case (Cons m ms)
  obtain conv s r x mid ts where m: "m = (conv, s, r, x, mid, ts)" by (cases m)
  obtain w1 res where 1: "mongo_persist_direct_message u c cfg w conv s r x mid ts = (w1, res)" by fastforce
  from mongo_persist_unlisted [OF Cons.prems 1] have eff: "committed b w1 = committed b w" "\<not> is_ok res" by auto
  obtain w2 rest where 2: "mongo_persist_all u c cfg w1 ms = (w2, rest)" by fastforce
  show ?case using Cons.IH [of w1] Cons.prems eff by (simp add: m 1 2)
qed simp

text \<open>
  C32. Following the cursors, a client reads the whole history of a conversation from MongoDB: every
  message once, newest first by the text of the ids, in at most one request more than there are
  pages of fifty; and a page with \<^verbatim>\<open>has_more\<close> false is the last one with messages.
\<close>

theorem mongo_walk_complete:
  assumes "uuid_ops u" and "mongo_reads c b" and "mongo_ok u (committed b w (database_name cfg))"
  shows "(length (mongo_history (committed b w (database_name cfg)) conv) \<le> 50 * k \<longrightarrow>
      walk (Suc k) (mongo_ask (u, c, b, cfg, pid, conv)) w None =
        Some (map (mongo_response u 0) (mongo_history (committed b w (database_name cfg)) conv))) \<and>
    (\<exists>w' p. mongo_get_paginated_messages u c cfg w pid cursor conv = (w', Inr p) \<and>
      (\<not> PaginatedMessagesResponse.has_more p \<longrightarrow>
         PaginatedMessagesResponse.messages p =
           filter (\<lambda>m. below_cursor (to_string u) cursor (ResponseDirectMessage.message_id m))
             (map (mongo_response u 0) (mongo_history (committed b w (database_name cfg)) conv))))"
proof -
  have "mongo_good (u, c, b, cfg, pid, conv) w" using assms by simp
  from mongo_pages.walk_complete [OF this, of k] show ?thesis
    using mongo_page [OF assms refl, of pid cursor conv] by (auto simp: not_less)
qed

section \<open>A database in memory\<close>

text \<open>An instance of the hypotheses, for examples: what is committed and the view of the one session.\<close>

type_synonym mongo_store = "string \<Rightarrow> MongoData"
type_synonym mongo_world = "mongo_store \<times> mongo_store option"

definition mem_insert :: "mongo_world \<Rightarrow> unit \<Rightarrow> string \<Rightarrow> string \<Rightarrow> MongoDirectMessage \<Rightarrow> mongo_world \<times> (string, unit) result" where
  "mem_insert w s db coll m =
     (case w of
        (c, Some v) \<Rightarrow> if doc_id m \<in> doc_id ` set (direct_messages (v db)) then (w, Inl ''duplicate key'')
          else ((c, Some (insert_document db m v)), Inr ())
      | _ \<Rightarrow> (w, Inl ''no transaction''))"

definition mem_update ::
  "mongo_world \<Rightarrow> unit \<Rightarrow> string \<Rightarrow> string \<Rightarrow> i32 \<Rightarrow> string \<Rightarrow> millis \<Rightarrow> mongo_world \<times> (string, unit) result" where
  "mem_update w s db coll usr conv ts =
     (case w of
        (c, Some v) \<Rightarrow> if user_conversations (v db) (usr, conv) = None then (w, Inl ''dotted _id'')
          else ((c, Some (set_last_message db usr conv ts v)), Inr ())
      | _ \<Rightarrow> (w, Inl ''no transaction''))"

definition mem_mongo :: "(mongo_world, unit, MongoDirectMessage list) MongoClient" where
  "mem_mongo =
     \<lparr>start_session = (\<lambda>w. (w, Inr ())), start_transaction = (\<lambda>w s. ((fst w, Some (fst w)), Inr ())),
      insert_one = mem_insert, update_one = mem_update,
      commit_transaction = (\<lambda>w s. case w of (c, Some v) \<Rightarrow> ((v, None), Inr ()) | _ \<Rightarrow> (w, Inl ''no transaction'')),
      drop_session = (\<lambda>w s. (fst w, None)),
      find_documents = (\<lambda>w db coll conv below limit. (w, Inr (mongo_query (fst w db) conv below limit))),
      documents = map Inr\<rparr>"

definition mem_mongo_backend :: "(mongo_world, unit) MongoBackend" where
  "mem_mongo_backend = \<lparr>committed = fst, view = (\<lambda>w s. snd w)\<rparr>"

lemma mem_mongo_serves: "mongo_serves mem_mongo mem_mongo_backend"
  by (auto simp: mongo_serves_def mem_mongo_def mem_mongo_backend_def mem_insert_def mem_update_def
      split: prod.splits option.splits)

lemma mem_mongo_reads: "mongo_reads mem_mongo mem_mongo_backend"
  by (auto simp: mongo_reads_def mem_mongo_def mem_mongo_backend_def)

definition one_two :: mongo_store where
  "one_two db = \<lparr>direct_messages = [], user_conversations = [(1, ''1_2'') \<mapsto> 0, (2, ''1_2'') \<mapsto> 0]\<rparr>"

abbreviation user1 :: TenantUserId where "user1 \<equiv> tenant_new ''p'' ''1''"
abbreviation user2 :: TenantUserId where "user2 \<equiv> tenant_new ''p'' ''2''"

lemma one_two_ok: "mongo_ok u (one_two db)"
  by (simp add: mongo_ok_def one_two_def)

lemma one_two_numbers: "parse_i32 ''1'' = Some 1" "parse_i32 ''2'' = Some 2"
  by code_simp+

lemma one_two_message:
  "mongo_message unary_uuid user1 user2 ''hi'' 3 5 =
     \<lparr>doc_id = \<lparr>DirectMessageId.conversation_id = ''1_2'', DirectMessageId.message_id = to_string unary_uuid 3\<rparr>,
      MongoDirectMessage.sender_id = 1, MongoDirectMessage.recipient_id = 2,
      MongoDirectMessage.message_text = ''hi'', MongoDirectMessage.created_at = 5\<rparr>"
proof -
  have "''1'' < ''2''" by code_simp
  then show ?thesis
    by (simp add: mongo_message_def mongo_conversation_def parse_or_default_def one_two_numbers tenant_new_def)
qed

theorem mongo_persist_atomic_witness:
  "\<exists>w'. mongo_persist_direct_message unary_uuid mem_mongo (mongo_config_new ''url'') (one_two, None) ''c'' user1 user2 ''hi'' 3 5 =
      (w', Inr ()) \<and> mongo_ok unary_uuid (fst w' ''affinity'') \<and>
    fst w' = mongo_written ''affinity'' (mongo_message unary_uuid user1 user2 ''hi'' 3 5) one_two"
proof -
  let ?run = "mongo_persist_direct_message unary_uuid mem_mongo (mongo_config_new ''url'') (one_two, None) ''c'' user1 user2 ''hi'' 3 5"
  obtain w' where w': "?run = (w', Inr ())"
    by (simp add: mongo_persist_direct_message_def insert_message_in_mongo_def one_two_message mem_mongo_def mem_insert_def
        mem_update_def one_two_def insert_document_def set_last_message_def Let_def)
  have ok: "mongo_ok unary_uuid (committed mem_mongo_backend (one_two, None) (database_name (mongo_config_new ''url'')))"
    by (simp add: mem_mongo_backend_def one_two_ok)
  show ?thesis
    using mongo_persist_atomic [OF mem_mongo_serves ok w'] w' by (auto simp: mem_mongo_backend_def mongo_config_new_def)
qed

definition no_data :: mongo_store where
  "no_data db = \<lparr>direct_messages = [], user_conversations = Map.empty\<rparr>"

theorem mongo_never_persists_witness:
  "fst (fst (mongo_persist_all unary_uuid mem_mongo (mongo_config_new ''url'') (no_data, None)
     [(''c'', user1, user2, ''hi'', 3, 5), (''c'', user2, user1, ''yo'', 4, 6)])) = no_data"
proof -
  have "user_conversations (committed mem_mongo_backend (no_data, None) (database_name (mongo_config_new ''url''))) = Map.empty"
    by (simp add: mem_mongo_backend_def no_data_def)
  from mongo_never_persists [OF mem_mongo_serves this, of unary_uuid "[(''c'', user1, user2, ''hi'', 3, 5), (''c'', user2, user1, ''yo'', 4, 6)]"]
  show ?thesis by (simp add: mem_mongo_backend_def del: mongo_persist_all.simps)
qed

theorem mongo_walk_complete_witness:
  "walk 2 (mongo_ask (unary_uuid, mem_mongo, mem_mongo_backend, mongo_config_new ''url'', ''p'', ''1_2''))
     (mongo_written ''affinity'' (mongo_message unary_uuid user1 user2 ''hi'' 3 5) one_two, None) None =
   Some [mongo_response unary_uuid 0 (mongo_message unary_uuid user1 user2 ''hi'' 3 5)]"
proof -
  let ?m = "mongo_message unary_uuid user1 user2 ''hi'' 3 5"
  let ?w = "(mongo_written ''affinity'' ?m one_two, None) :: mongo_world" and ?cfg = "mongo_config_new ''url''"
  have ok: "mongo_ok unary_uuid (committed mem_mongo_backend ?w (database_name ?cfg))"
    by (simp add: mem_mongo_backend_def mongo_config_new_def)
       (rule mongo_ok_written [OF one_two_ok], simp add: can_write_def one_two_message one_two_def)
  have "mongo_history (committed mem_mongo_backend ?w (database_name ?cfg)) ''1_2'' = [?m]"
    by (simp add: mem_mongo_backend_def mongo_config_new_def mongo_history_def mongo_written_def Let_def set_last_message_def
        insert_document_def one_two_def one_two_message)
  then show ?thesis
    using mongo_walk_complete [OF unary_uuid_ops mem_mongo_reads ok, of "''1_2''" 1 "''p''"] by (simp add: numeral_2_eq_2)
qed

text \<open>
  What a message read from MongoDB keeps of the message persisted: its id, text and time always,
  and its users exactly when their ids are numbers of 32 bits in their usual notation; any other id
  is read as a number it was not.
\<close>

theorem mongo_read_back:
  assumes "uuid_ops u"
  shows "ResponseDirectMessage.message_id (mongo_response u k (mongo_message u s r x mid ts)) = mid \<and>
    ResponseDirectMessage.message_text (mongo_response u k (mongo_message u s r x mid ts)) = x \<and>
    ResponseDirectMessage.created_at (mongo_response u k (mongo_message u s r x mid ts)) = ts \<and>
    (ResponseDirectMessage.sender_id (mongo_response u k (mongo_message u s r x mid ts)) = TenantUserId.user_id s \<longleftrightarrow>
       (\<exists>i. TenantUserId.user_id s = show_i32 i)) \<and>
    (ResponseDirectMessage.recipient_id (mongo_response u k (mongo_message u s r x mid ts)) = TenantUserId.user_id r \<longleftrightarrow>
       (\<exists>i. TenantUserId.user_id r = show_i32 i))"
proof -
  have "show_i32 (parse_or_default t) = t \<longleftrightarrow> (\<exists>i. t = show_i32 i)" for t
    by (auto simp: parse_or_default_def parse_show_i32) metis
  then show ?thesis
    using assms by (simp add: mongo_response_def mongo_message_def Let_def uuid_ops_parse)
qed

theorem mongo_read_back_witness:
  "ResponseDirectMessage.sender_id (mongo_response unary_uuid 0
     (mongo_message unary_uuid (tenant_new ''p'' (show_i32 (-7))) (tenant_new ''p'' ''ann'') ''hi'' 3 5)) = show_i32 (-7)"
  using mongo_read_back [OF unary_uuid_ops, of 0 "tenant_new ''p'' (show_i32 (-7))"] by (auto simp: tenant_new_def)

text \<open>
  The conversation of a message is named by the ids of its users only: not by the conversation the
  client names, and not by the project, so that users of two projects share one; and a separator
  inside an id makes different pairs of users share one too.
\<close>

lemma mongo_conversation_shared:
  "doc_id (mongo_message u (tenant_new p s) (tenant_new p r) x mid ts) =
     doc_id (mongo_message u (tenant_new p' r) (tenant_new p' s) x' mid ts')"
  "mongo_conversation ''a'' ''b_c'' = mongo_conversation ''a_b'' ''c''"
proof -
  show "doc_id (mongo_message u (tenant_new p s) (tenant_new p r) x mid ts) =
     doc_id (mongo_message u (tenant_new p' r) (tenant_new p' s) x' mid ts')"
    by (auto simp: mongo_message_def mongo_conversation_def tenant_new_def Let_def)
  have "''a'' < ''b_c''" "''a_b'' < ''c''" by code_simp+
  then show "mongo_conversation ''a'' ''b_c'' = mongo_conversation ''a_b'' ''c''" by (simp add: mongo_conversation_def)
qed

end
