(* ===== verification/Gateway.thy ===== *)
theory Gateway
  imports Auth_Service User_Session Mongo
begin

text \<open>
  The HTTP side of the gateway: \<^verbatim>\<open>peroxo/src/lib.rs\<close> (the check of the token and the WebSocket endpoint),
  \<^verbatim>\<open>peroxo/src/socket.rs\<close>, \<^verbatim>\<open>peroxo/src/handlers/conversation.rs\<close> and the construction of the shared
  state in \<^verbatim>\<open>peroxo/src/state.rs\<close>, in the default build and with the feature \<^verbatim>\<open>mongo_db\<close>, the clients of
  \<^verbatim>\<open>peroxo/src/connections.rs\<close> and \<^verbatim>\<open>main\<close>.

  The gRPC stubs are arguments: \<open>rpc\<close> is the call \<^verbatim>\<open>VerifyUserToken\<close> or \<^verbatim>\<open>GetSertConversation\<close>, and
  \<open>connect\<close> opens a client. \<open>show_status\<close> prints a status.
\<close>

section \<open>The WebSocket endpoint\<close>

definition verify_token ::
  "('st \<Rightarrow> string) \<Rightarrow> ('w \<Rightarrow> string \<Rightarrow> 'w \<times> ('st, VerifyUserTokenResponse) result) \<Rightarrow> 'w \<Rightarrow> string \<Rightarrow>
   'w \<times> (http_error, UserToken) result" where
  "verify_token show_st rpc w token =
     (case rpc w token of
        (w', Inl e) \<Rightarrow> (w', Inl (500, ''Auth service error: '' @ show_st e))
      | (w', Inr resp) \<Rightarrow>
          if \<not> found resp then (w', Inl (401, ''Invalid token''))
          else (case user_token resp of
              Some t \<Rightarrow> (w', Inr t)
            | None \<Rightarrow> (w', Inl (500, ''Auth service returned found=true but no user_token data''))))"

text \<open>The answer: a reply, or the upgrade to a WebSocket that is then served for a user.\<close>

datatype WsReply = HttpReply nat string | Upgrade TenantUserId

definition ws_handler ::
  "('st \<Rightarrow> string) \<Rightarrow> ('w \<Rightarrow> string \<Rightarrow> 'w \<times> ('st, VerifyUserTokenResponse) result) \<Rightarrow> 'w \<Rightarrow>
   (string, string) hash_map \<Rightarrow> 'w \<times> WsReply" where
  "ws_handler show_st rpc w params =
     (case hm_get params ''token'' of
        None \<Rightarrow> (w, HttpReply 400 ''Missing token'')
      | Some token \<Rightarrow>
          (case verify_token show_st rpc w token of
             (w', Inl err) \<Rightarrow> (w', HttpReply (fst err) (snd err))
           | (w', Inr t) \<Rightarrow>
               (case from_token t of
                  Inl e \<Rightarrow> (w', HttpReply 401 ''Invalid tenant token'')
                | Inr uid \<Rightarrow> (w', Upgrade uid))))"

text \<open>\<^verbatim>\<open>dm_socket\<close>: what the router gets from the upgraded socket.\<close>

definition dm_socket ::
  "(string \<Rightarrow> (string, ChatMessage) result) \<Rightarrow> TenantUserId \<Rightarrow> session_sender \<Rightarrow> oneshot \<Rightarrow> bool \<Rightarrow>
   (string, unit) result option \<Rightarrow> (SessionEnv \<times> (string, WsFrame) result) list \<Rightarrow> SessionEffect list" where
  "dm_socket parse uid sender c is_open response items = handle_connection parse uid sender c is_open response items"

section \<open>The conversation endpoint\<close>

record ConversationParams =
  project_id :: string
  user_id_1 :: string
  user_id_2 :: string

record ConversationResponse =
  success :: bool
  error_message :: string
  conversation_id :: string
  created_new :: bool

definition conversation_endpoint ::
  "('st \<Rightarrow> string) \<Rightarrow> ('w \<Rightarrow> GetSertConversationRequest \<Rightarrow> 'w \<times> ('st, GetSertConversationResponse) result) \<Rightarrow>
   'w \<Rightarrow> ConversationParams \<Rightarrow> 'w \<times> nat \<times> ConversationResponse" where
  "conversation_endpoint show_st rpc w params =
     (let (u1, u2) = (if ConversationParams.user_id_1 params < ConversationParams.user_id_2 params
            then (ConversationParams.user_id_1 params, ConversationParams.user_id_2 params)
            else (ConversationParams.user_id_2 params, ConversationParams.user_id_1 params))
      in case rpc w \<lparr>GetSertConversationRequest.project_id = ConversationParams.project_id params,
                    GetSertConversationRequest.user_id_1 = u1, GetSertConversationRequest.user_id_2 = u2\<rparr> of
           (w', Inr r) \<Rightarrow>
             (w', 200, \<lparr>ConversationResponse.success = GetSertConversationResponse.success r,
                ConversationResponse.error_message = GetSertConversationResponse.error_message r,
                ConversationResponse.conversation_id = GetSertConversationResponse.conversation_id r,
                ConversationResponse.created_new = GetSertConversationResponse.created_new r\<rparr>)
         | (w', Inl e) \<Rightarrow>
             (w', 500, \<lparr>ConversationResponse.success = False,
                ConversationResponse.error_message = ''gRPC error: '' @ show_st e,
                ConversationResponse.conversation_id = [], ConversationResponse.created_new = False\<rparr>))"

section \<open>The shared state\<close>

text \<open>
  \<^verbatim>\<open>PerOxoState\<close>, with the router it spawns. Its \<^verbatim>\<open>ConnectionManager\<close> holds nothing but the router's
  sender. \<open>'c\<close> and \<open>'a\<close> are the two clients; the persistence service holds a clone of the first.
\<close>

record ('c, 'a) PerOxoState =
  router :: MessageRouter
  auth_client :: 'a
  chat_client :: 'c

record PerOxoStateBuilder =
  connection_url :: "string option"
  auth_url :: "string option"

definition builder_new :: PerOxoStateBuilder where
  "builder_new = \<lparr>connection_url = None, auth_url = None\<rparr>"

definition with_persistence_connection_url :: "PerOxoStateBuilder \<Rightarrow> string \<Rightarrow> PerOxoStateBuilder" where
  "with_persistence_connection_url b url = b\<lparr>connection_url := Some url\<rparr>"

definition with_auth_url :: "PerOxoStateBuilder \<Rightarrow> string \<Rightarrow> PerOxoStateBuilder" where
  "with_auth_url b url = b\<lparr>auth_url := Some url\<rparr>"

definition state_new :: "persistence_ref \<Rightarrow> 'c \<Rightarrow> 'a \<Rightarrow> ('c, 'a) PerOxoState" where
  "state_new pref chat auth =
     \<lparr>router = router_new pref, auth_client = auth, chat_client = chat\<rparr>"

definition build ::
  "('w \<Rightarrow> string \<Rightarrow> 'w \<times> (string, 'c) result) \<Rightarrow> ('w \<Rightarrow> string \<Rightarrow> 'w \<times> (string, 'a) result) \<Rightarrow> persistence_ref \<Rightarrow>
   'w \<Rightarrow> PerOxoStateBuilder \<Rightarrow> 'w \<times> (string, ('c, 'a) PerOxoState) result" where
  "build connect_chat connect_auth pref w b =
     (case connection_url b of
        None \<Rightarrow> (w, Inl ''connection_url required when persistence is enabled'')
      | Some url \<Rightarrow> and_then (connect_chat w url) (\<lambda>w chat.
          case auth_url b of
            None \<Rightarrow> (w, Inl ''auth_url is required'')
          | Some url \<Rightarrow> and_then (connect_auth w url) (\<lambda>w auth.
              (w, Inr (state_new pref chat auth)))))"

section \<open>Clients\<close>

definition connect_chat_service_client ::
  "('w \<Rightarrow> string \<Rightarrow> 'w \<times> (string, 'c) result) \<Rightarrow> 'w \<Rightarrow> string \<Rightarrow> 'w \<times> (string, 'c) result" where
  "connect_chat_service_client connect w chat_service_addr = and_then (connect w chat_service_addr) (\<lambda>w client. (w, Inr client))"

definition connect_auth_service_client ::
  "('w \<Rightarrow> string \<Rightarrow> 'w \<times> (string, 'a) result) \<Rightarrow> 'w \<Rightarrow> string \<Rightarrow> 'w \<times> (string, 'a) result" where
  "connect_auth_service_client connect w auth_service_addr = and_then (connect w auth_service_addr) (\<lambda>w client. (w, Inr client))"

text \<open>\<open>parse_options\<close> and \<open>with_options\<close> are \<^verbatim>\<open>ClientOptions::parse\<close> and \<^verbatim>\<open>Client::with_options\<close> of the crate \<^verbatim>\<open>mongodb\<close>.\<close>

definition connect_mongo_db_client ::
  "('w \<Rightarrow> string \<Rightarrow> 'w \<times> (string, 'o) result) \<Rightarrow> ('o \<Rightarrow> (string, 'm) result) \<Rightarrow> 'w \<Rightarrow> string \<Rightarrow> 'w \<times> (string, 'm) result" where
  "connect_mongo_db_client parse_options with_options w mongo_db_url =
     and_then (parse_options w mongo_db_url) (\<lambda>w options.
     and_then (w, with_options options) (\<lambda>w client. (w, Inr client)))"

section \<open>The state with MongoDB\<close>

record ('c, 'm) PersistenceService =
  chat_service_client :: 'c
  mango_db_client :: 'm
  mongo_config :: MongoDbConfig

definition persistence_new :: "'c \<Rightarrow> 'm \<Rightarrow> MongoDbConfig \<Rightarrow> ('c, 'm) PersistenceService" where
  "persistence_new chat mango config = \<lparr>chat_service_client = chat, mango_db_client = mango, mongo_config = config\<rparr>"

record MongoStateBuilder = PerOxoStateBuilder +
  builder_mongo_config :: "MongoDbConfig option"

definition mongo_builder_new :: MongoStateBuilder where
  "mongo_builder_new = PerOxoStateBuilder.extend builder_new \<lparr>builder_mongo_config = None\<rparr>"

definition with_mongo_config :: "MongoStateBuilder \<Rightarrow> MongoDbConfig \<Rightarrow> MongoStateBuilder" where
  "with_mongo_config b config = b\<lparr>builder_mongo_config := Some config\<rparr>"

definition with_mango_db_connection_url :: "MongoStateBuilder \<Rightarrow> string \<Rightarrow> MongoStateBuilder" where
  "with_mango_db_connection_url b url = b\<lparr>builder_mongo_config := Some (mongo_config_new url)\<rparr>"

text \<open>\<open>share\<close> puts the persistence service behind the shared reference the router gets.\<close>

definition mongo_build ::
  "('w \<Rightarrow> string \<Rightarrow> 'w \<times> (string, 'c) result) \<Rightarrow> ('w \<Rightarrow> string \<Rightarrow> 'w \<times> (string, 'm) result) \<Rightarrow>
   ('w \<Rightarrow> string \<Rightarrow> 'w \<times> (string, 'a) result) \<Rightarrow> (('c, 'm) PersistenceService \<Rightarrow> persistence_ref) \<Rightarrow> 'w \<Rightarrow> MongoStateBuilder \<Rightarrow>
   'w \<times> (string, ('c, 'a) PerOxoState) result" where
  "mongo_build connect_chat connect_mongo connect_auth share w b =
     (case PerOxoStateBuilder.connection_url b of
        None \<Rightarrow> (w, Inl ''connection_url required when persistence is enabled'')
      | Some url \<Rightarrow> and_then (connect_chat w url) (\<lambda>w chat.
          case builder_mongo_config b of
            None \<Rightarrow> (w, Inl ''mongo_config required when mongo_db is enabled'')
          | Some config \<Rightarrow> and_then (connect_mongo w (MongoDbConfig.connection_url config)) (\<lambda>w mango.
              case auth_url b of
                None \<Rightarrow> (w, Inl ''auth_url is required'')
              | Some url \<Rightarrow> and_then (connect_auth w url) (\<lambda>w auth.
                  (w, Inr (state_new (share (persistence_new chat mango config)) chat auth))))))"

section \<open>Start\<close>

text \<open>How \<^verbatim>\<open>main\<close> ends or goes on: \<open>bind\<close> opens the listener, \<open>var\<close> reads the environment.\<close>

datatype ('c, 'a) Start = Panics | LogsAndReturns string | Serves string "('c, 'a) PerOxoState"

definition gateway_main ::
  "(string \<rightharpoonup> string) \<Rightarrow> ('w \<Rightarrow> string \<Rightarrow> 'w \<times> (string, 'c) result) \<Rightarrow> ('w \<Rightarrow> string \<Rightarrow> 'w \<times> (string, 'a) result) \<Rightarrow>
   ('w \<Rightarrow> string \<Rightarrow> 'w \<times> (string, unit) result) \<Rightarrow> persistence_ref \<Rightarrow> 'w \<Rightarrow> 'w \<times> ('c, 'a) Start" where
  "gateway_main var connect_chat connect_auth bind pref w =
     (case var ''CHAT_SERVICE_ADDR'' of
        None \<Rightarrow> (w, Panics)
      | Some chat_service_addr \<Rightarrow>
          (case var ''AUTH_SERVICE_ADDR'' of
             None \<Rightarrow> (w, Panics)
           | Some auth_service_addr \<Rightarrow>
               (case build (connect_chat_service_client connect_chat) (connect_auth_service_client connect_auth) pref w
                       (with_auth_url (with_persistence_connection_url builder_new chat_service_addr) auth_service_addr) of
                  (w, Inl e) \<Rightarrow> (w, LogsAndReturns e)
                | (w, Inr state) \<Rightarrow>
                    (case var ''PER_OXO_SERVICE_ADDR'' of
                       None \<Rightarrow> (w, Panics)
                     | Some addr \<Rightarrow>
                         (case bind w addr of
                            (w, Inl e) \<Rightarrow> (w, Panics)
                          | (w, Inr _) \<Rightarrow> (w, Serves addr state))))))"

section \<open>Properties\<close>

text \<open>
  The gateway starts serving exactly when its three addresses are set, both services can be
  connected and the listener opens; it then serves on the configured address, with the clients it
  connected and a router that has no user and no room.
\<close>

theorem gateway_serves_iff:
  "gateway_main var connect_chat connect_auth bind pref w = (w', Serves addr state) \<longleftrightarrow>
   (\<exists>curl aurl w1 w2 chat auth. var ''CHAT_SERVICE_ADDR'' = Some curl \<and> var ''AUTH_SERVICE_ADDR'' = Some aurl \<and>
      var ''PER_OXO_SERVICE_ADDR'' = Some addr \<and> connect_chat w curl = (w1, Inr chat) \<and>
      connect_auth w1 aurl = (w2, Inr auth) \<and> bind w2 addr = (w', Inr ()) \<and>
      state = \<lparr>router = router_new pref, auth_client = auth, chat_client = chat\<rparr>)"
  by (auto simp: gateway_main_def build_def connect_chat_service_client_def connect_auth_service_client_def and_then_def
      builder_new_def with_auth_url_def with_persistence_connection_url_def state_new_def
      split: option.splits prod.splits sum.splits)

text \<open>With the feature, the state needs the configuration of MongoDB too, and the errors come in the order of the checks.\<close>

lemma mongo_build_iff:
  "mongo_build connect_chat connect_mongo connect_auth share w b = (w', Inr state) \<longleftrightarrow>
   (\<exists>curl config aurl w1 w2 chat mango auth. PerOxoStateBuilder.connection_url b = Some curl \<and>
      builder_mongo_config b = Some config \<and> auth_url b = Some aurl \<and> connect_chat w curl = (w1, Inr chat) \<and>
      connect_mongo w1 (MongoDbConfig.connection_url config) = (w2, Inr mango) \<and> connect_auth w2 aurl = (w', Inr auth) \<and>
      state = state_new (share (persistence_new chat mango config)) chat auth)"
  by (auto simp: mongo_build_def and_then_def split: option.splits prod.splits sum.splits)

end
