(* ===== verification/Metrics.thy ===== *)
theory Metrics
  imports Number_Text
begin

text \<open>
  \<^verbatim>\<open>peroxo/src/metrics.rs\<close>: the metrics of the gateway, the helpers that update them, the middleware that
  counts the HTTP requests, and the endpoint that reports them.

  The registry of the crate \<^verbatim>\<open>prometheus\<close> is modelled by what its documentation says of the calls used:
  a series of a metric is named by the values of its labels; registering panics here (\<^verbatim>\<open>unwrap\<close>) for
  a name that exists or for buckets that do not increase, and \<^verbatim>\<open>with_label_values\<close> panics when the number of values is
  not the number of labels. Counts are integers in place of \<^verbatim>\<open>f64\<close>, durations nanoseconds, and
  bounds of buckets microseconds.
\<close>

section \<open>The metrics\<close>

datatype MetricKind = CounterVec | Gauge | HistogramVec "nat list option"

record Metric =
  metric_name :: string
  metric_help :: string
  metric_kind :: MetricKind
  metric_labels :: "string list"

definition HTTP_REQUESTS_TOTAL :: Metric where
  "HTTP_REQUESTS_TOTAL = \<lparr>metric_name = ''http_requests_total'', metric_help = ''Total number of HTTP requests'',
     metric_kind = CounterVec, metric_labels = [''method'', ''path'', ''status'']\<rparr>"

definition HTTP_REQUEST_DURATION :: Metric where
  "HTTP_REQUEST_DURATION = \<lparr>metric_name = ''http_request_duration_seconds'',
     metric_help = ''HTTP request duration in seconds'',
     metric_kind = HistogramVec (Some [5000, 10000, 25000, 50000, 100000, 250000, 500000, 1000000, 2500000, 5000000, 10000000]),
     metric_labels = [''method'', ''path'']\<rparr>"

definition WEBSOCKET_CONNECTIONS_ACTIVE :: Metric where
  "WEBSOCKET_CONNECTIONS_ACTIVE = \<lparr>metric_name = ''websocket_connections_active'',
     metric_help = ''Active WS connections'', metric_kind = Gauge, metric_labels = []\<rparr>"

definition WEBSOCKET_MESSAGES_TOTAL :: Metric where
  "WEBSOCKET_MESSAGES_TOTAL = \<lparr>metric_name = ''websocket_messages_total'', metric_help = ''Total WebSocket messages'',
     metric_kind = CounterVec, metric_labels = [''direction'']\<rparr>"

definition CHAT_MESSAGES_TOTAL :: Metric where
  "CHAT_MESSAGES_TOTAL = \<lparr>metric_name = ''chat_messages_total'', metric_help = ''Total chat messages processed'',
     metric_kind = CounterVec, metric_labels = [''message_type'']\<rparr>"

definition CHAT_MESSAGE_PROCESSING_DURATION :: Metric where
  "CHAT_MESSAGE_PROCESSING_DURATION = \<lparr>metric_name = ''chat_message_processing_duration_seconds'',
     metric_help = ''Chat message processing duration'',
     metric_kind = HistogramVec (Some [1000, 5000, 10000, 25000, 50000, 100000, 250000, 500000, 1000000]),
     metric_labels = [''message_type'']\<rparr>"

definition GRPC_REQUESTS_TOTAL :: Metric where
  "GRPC_REQUESTS_TOTAL = \<lparr>metric_name = ''grpc_requests_total'', metric_help = ''Total gRPC requests'',
     metric_kind = CounterVec, metric_labels = [''service'', ''method'', ''status'']\<rparr>"

definition GRPC_REQUEST_DURATION :: Metric where
  "GRPC_REQUEST_DURATION = \<lparr>metric_name = ''grpc_request_duration_seconds'', metric_help = ''gRPC request duration'',
     metric_kind = HistogramVec (Some [10000, 25000, 50000, 100000, 250000, 500000, 1000000, 2500000, 5000000, 10000000]),
     metric_labels = [''service'', ''method'']\<rparr>"

text \<open>\<^const>\<open>None\<close>: the default buckets of the crate.\<close>

definition DB_QUERY_DURATION_SECONDS :: Metric where
  "DB_QUERY_DURATION_SECONDS = \<lparr>metric_name = ''db_query_duration_seconds'',
     metric_help = ''Duration of database queries in seconds'', metric_kind = HistogramVec None,
     metric_labels = [''operation'']\<rparr>"

definition all_metrics :: "Metric list" where
  "all_metrics = [HTTP_REQUESTS_TOTAL, HTTP_REQUEST_DURATION, WEBSOCKET_CONNECTIONS_ACTIVE, WEBSOCKET_MESSAGES_TOTAL,
     CHAT_MESSAGES_TOTAL, CHAT_MESSAGE_PROCESSING_DURATION, GRPC_REQUESTS_TOTAL, GRPC_REQUEST_DURATION,
     DB_QUERY_DURATION_SECONDS]"

section \<open>Updates\<close>

datatype MetricOp =
    Inc Metric "string list"
  | Dec Metric "string list"
  | Observe Metric "string list" nat

record Registry =
  values_of :: "string \<times> string list \<Rightarrow> int"
  observations :: "string \<times> string list \<Rightarrow> nat list"

definition empty_registry :: Registry where
  "empty_registry = \<lparr>values_of = (\<lambda>_. 0), observations = (\<lambda>_. [])\<rparr>"

fun apply_op :: "MetricOp \<Rightarrow> Registry \<Rightarrow> Registry" where
  "apply_op (Inc m ls) r = r\<lparr>values_of := (values_of r)((metric_name m, ls) := values_of r (metric_name m, ls) + 1)\<rparr>"
| "apply_op (Dec m ls) r = r\<lparr>values_of := (values_of r)((metric_name m, ls) := values_of r (metric_name m, ls) - 1)\<rparr>"
| "apply_op (Observe m ls d) r =
     r\<lparr>observations := (observations r)((metric_name m, ls) := observations r (metric_name m, ls) @ [d])\<rparr>"

definition websocket_connected :: "MetricOp list" where
  "websocket_connected = [Inc WEBSOCKET_CONNECTIONS_ACTIVE []]"

definition websocket_disconnected :: "MetricOp list" where
  "websocket_disconnected = [Dec WEBSOCKET_CONNECTIONS_ACTIVE []]"

definition websocket_message_sent :: "MetricOp list" where
  "websocket_message_sent = [Inc WEBSOCKET_MESSAGES_TOTAL [''sent'']]"

definition websocket_message_received :: "MetricOp list" where
  "websocket_message_received = [Inc WEBSOCKET_MESSAGES_TOTAL [''received'']]"

definition websocket_message_persisted :: "MetricOp list" where
  "websocket_message_persisted = [Inc WEBSOCKET_MESSAGES_TOTAL [''peristed'']]"

definition chat_message_processed :: "string \<Rightarrow> nat \<Rightarrow> MetricOp list" where
  "chat_message_processed msg_type duration =
     [Inc CHAT_MESSAGES_TOTAL [msg_type], Observe CHAT_MESSAGE_PROCESSING_DURATION [msg_type] duration]"

definition grpc_request_completed :: "string \<Rightarrow> string \<Rightarrow> string \<Rightarrow> nat \<Rightarrow> MetricOp list" where
  "grpc_request_completed service meth status duration =
     [Inc GRPC_REQUESTS_TOTAL [service, meth, status], Observe GRPC_REQUEST_DURATION [service, meth] duration]"

definition observe_db_query :: "string \<Rightarrow> nat \<Rightarrow> MetricOp list" where
  "observe_db_query operation duration = [Observe DB_QUERY_DURATION_SECONDS [operation] duration]"

section \<open>The middleware and the endpoint\<close>

record HttpRequest =
  req_method :: string
  req_path :: string

record HttpResponse =
  resp_status :: nat
  resp_body :: string

text \<open>\<open>next_run\<close> is the rest of the service, \<open>elapsed\<close> the time it took.\<close>

definition metrics_middleware ::
  "('w \<Rightarrow> HttpRequest \<Rightarrow> 'w \<times> HttpResponse) \<Rightarrow> 'w \<Rightarrow> nat \<Rightarrow> HttpRequest \<Rightarrow> 'w \<times> MetricOp list \<times> HttpResponse" where
  "metrics_middleware next_run w elapsed req =
     (let (w, response) = next_run w req; status = show_nat (resp_status response)
      in (w, [Inc HTTP_REQUESTS_TOTAL [req_method req, req_path req, status],
              Observe HTTP_REQUEST_DURATION [req_method req, req_path req] elapsed], response))"

text \<open>\<open>encode\<close> is the text encoder of the crate, \<open>from_utf8\<close> the check of the standard library.\<close>

definition metrics_handler ::
  "(Registry \<Rightarrow> (string, bytes) result) \<Rightarrow> (bytes \<Rightarrow> string option) \<Rightarrow> Registry \<Rightarrow> (nat, string) result" where
  "metrics_handler encode from_utf8 registry =
     (case encode registry of
        Inl e \<Rightarrow> Inl 500
      | Inr buffer \<Rightarrow> (case from_utf8 buffer of None \<Rightarrow> Inl 500 | Some s \<Rightarrow> Inr s))"

lemmas metric_defs = HTTP_REQUESTS_TOTAL_def HTTP_REQUEST_DURATION_def WEBSOCKET_CONNECTIONS_ACTIVE_def
  WEBSOCKET_MESSAGES_TOTAL_def CHAT_MESSAGES_TOTAL_def CHAT_MESSAGE_PROCESSING_DURATION_def GRPC_REQUESTS_TOTAL_def
  GRPC_REQUEST_DURATION_def DB_QUERY_DURATION_SECONDS_def

lemmas metric_helpers = websocket_connected_def websocket_disconnected_def websocket_message_sent_def
  websocket_message_received_def websocket_message_persisted_def chat_message_processed_def grpc_request_completed_def
  observe_db_query_def

section \<open>Properties\<close>

definition registrable :: "Metric list \<Rightarrow> bool" where
  "registrable ms \<longleftrightarrow> distinct (map metric_name ms) \<and>
     list_all (\<lambda>m. case metric_kind m of HistogramVec (Some bs) \<Rightarrow> bs \<noteq> [] \<and> sorted_wrt (<) bs | _ \<Rightarrow> True) ms"

fun op_fits :: "MetricOp \<Rightarrow> bool" where
  "op_fits (Inc m ls) \<longleftrightarrow> (metric_kind m = CounterVec \<or> metric_kind m = Gauge) \<and> length ls = length (metric_labels m)"
| "op_fits (Dec m ls) \<longleftrightarrow> metric_kind m = Gauge \<and> length ls = length (metric_labels m)"
| "op_fits (Observe m ls d) \<longleftrightarrow> (\<exists>bs. metric_kind m = HistogramVec bs) \<and> length ls = length (metric_labels m)"

fun op_metric :: "MetricOp \<Rightarrow> Metric" where
  "op_metric (Inc m ls) = m"
| "op_metric (Dec m ls) = m"
| "op_metric (Observe m ls d) = m"



text \<open>Requests served one after the other; what they leave in the registry, and the responses.\<close>

fun serve_all ::
  "('w \<Rightarrow> HttpRequest \<Rightarrow> 'w \<times> HttpResponse) \<Rightarrow> 'w \<Rightarrow> (nat \<times> HttpRequest) list \<Rightarrow> Registry \<Rightarrow> Registry \<times> HttpResponse list" where
  "serve_all next_run w [] r = (r, [])"
| "serve_all next_run w ((d, req) # reqs) r =
     (let (w, ops, response) = metrics_middleware next_run w d req;
          (r, responses) = serve_all next_run w reqs (fold apply_op ops r)
      in (r, response # responses))"

fun plain_all :: "('w \<Rightarrow> HttpRequest \<Rightarrow> 'w \<times> HttpResponse) \<Rightarrow> 'w \<Rightarrow> (nat \<times> HttpRequest) list \<Rightarrow> HttpResponse list" where
  "plain_all next_run w [] = []"
| "plain_all next_run w ((d, req) # reqs) = (let (w, response) = next_run w req in response # plain_all next_run w reqs)"

definition requests_to :: "string \<Rightarrow> string \<Rightarrow> (nat \<times> HttpRequest) list \<Rightarrow> (nat \<times> HttpRequest) list" where
  "requests_to meth path reqs = filter (\<lambda>(d, q). req_method q = meth \<and> req_path q = path) reqs"

definition answered_with :: "string \<Rightarrow> string \<Rightarrow> nat \<Rightarrow> (nat \<times> HttpRequest) list \<Rightarrow> HttpResponse list \<Rightarrow> nat" where
  "answered_with meth path st reqs rs =
     length (filter (\<lambda>((d, q), a). req_method q = meth \<and> req_path q = path \<and> resp_status a = st) (zip reqs rs))"

lemma show_nat_inj: "show_nat m = show_nat n \<longleftrightarrow> m = n"
  by (metis digits_show_nat option.inject)

text \<open>
  The middleware is transparent and counts exactly: the responses are the ones of the service
  without it; the counter of a method, a path and a status is the number of requests with this
  method and path answered with this status; and the durations recorded for a method and a path are those
  of its requests, in order.
\<close>

theorem middleware_counts:
  "snd (serve_all next_run w reqs r) = plain_all next_run w reqs \<and>
   values_of (fst (serve_all next_run w reqs r)) (metric_name HTTP_REQUESTS_TOTAL, [meth, path, show_nat st]) =
     values_of r (metric_name HTTP_REQUESTS_TOTAL, [meth, path, show_nat st]) +
       int (answered_with meth path st reqs (plain_all next_run w reqs)) \<and>
   observations (fst (serve_all next_run w reqs r)) (metric_name HTTP_REQUEST_DURATION, [meth, path]) =
     observations r (metric_name HTTP_REQUEST_DURATION, [meth, path]) @ map fst (requests_to meth path reqs)"
proof (induction reqs arbitrary: w r)
  case Nil
  then show ?case by (simp add: answered_with_def requests_to_def)
next
  case (Cons dq reqs)
  obtain d q where dq: "dq = (d, q)" by (cases dq)
  obtain w' a where n: "next_run w q = (w', a)" by fastforce
  let ?r = "fold apply_op (fst (snd (metrics_middleware next_run w d q))) r"
  have r: "values_of ?r (metric_name HTTP_REQUESTS_TOTAL, [meth, path, show_nat st]) =
      values_of r (metric_name HTTP_REQUESTS_TOTAL, [meth, path, show_nat st]) +
        (if req_method q = meth \<and> req_path q = path \<and> resp_status a = st then 1 else 0)"
    "observations ?r (metric_name HTTP_REQUEST_DURATION, [meth, path]) =
      observations r (metric_name HTTP_REQUEST_DURATION, [meth, path]) @
        (if req_method q = meth \<and> req_path q = path then [d] else [])"
    by (auto simp: metrics_middleware_def n metric_defs show_nat_inj)
  show ?case
    using Cons.IH [of w' ?r] r
    by (auto simp: dq n metrics_middleware_def answered_with_def requests_to_def split: prod.splits)
qed

end
