(* ===== verification/Gateway_Http.thy ===== *)
theory Gateway_Http
  imports Gateway Metrics
begin

text \<open>
  The routes of the gateway (\<^verbatim>\<open>peroxo_route\<close> of \<^verbatim>\<open>peroxo/src/lib.rs\<close>) with their handlers behind the
  metrics middleware. What axum does is an argument: \<open>select\<close> picks the route of a request, \<open>ws_query\<close> and
  \<open>conv_query\<close> run the extractors of the two handlers that have them, \<open>json\<close> prints a response.
\<close>

section \<open>Routes and handlers\<close>

datatype Endpoint = WsEndpoint | MetricsEndpoint | ConversationsEndpoint

text \<open>A route with the methods it serves: \<^verbatim>\<open>any\<close> or \<^verbatim>\<open>get\<close>.\<close>

datatype MethodFilter = AnyMethod | GetMethod

definition peroxo_route :: "(string \<times> MethodFilter \<times> Endpoint) list" where
  "peroxo_route =
     [(''/ws'', AnyMethod, WsEndpoint), (''/metrics'', GetMethod, MetricsEndpoint),
      (''/conversations'', GetMethod, ConversationsEndpoint)]"

record ('w, 'st) HttpContext =
  status_to_string :: "'st \<Rightarrow> string"
  verify_rpc :: "'w \<Rightarrow> string \<Rightarrow> 'w \<times> ('st, VerifyUserTokenResponse) result"
  getsert_rpc :: "'w \<Rightarrow> GetSertConversationRequest \<Rightarrow> 'w \<times> ('st, GetSertConversationResponse) result"
  ws_query :: "HttpRequest \<Rightarrow> (http_error, (string, string) hash_map) result"
  conv_query :: "HttpRequest \<Rightarrow> (http_error, ConversationParams) result"
  json :: "ConversationResponse \<Rightarrow> string"
  scrape :: "'w \<Rightarrow> (nat, string) result"

definition http_response :: "nat \<Rightarrow> string \<Rightarrow> HttpResponse" where
  "http_response code body = \<lparr>resp_status = code, resp_body = body\<rparr>"

text \<open>
  A request at its route, in a state that has the users of the sockets upgraded so far. A rejection of an
  extractor is the response, and an upgrade is answered with 101.
\<close>

fun run_endpoint ::
  "('w, 'st) HttpContext \<Rightarrow> Endpoint \<Rightarrow> 'w \<times> TenantUserId list \<Rightarrow> HttpRequest \<Rightarrow> ('w \<times> TenantUserId list) \<times> HttpResponse" where
  "run_endpoint ctx WsEndpoint (w, ups) req =
     (case ws_query ctx req of
        Inl err \<Rightarrow> ((w, ups), http_response (fst err) (snd err))
      | Inr params \<Rightarrow>
          (case ws_handler (status_to_string ctx) (verify_rpc ctx) w params of
             (w', HttpReply code body) \<Rightarrow> ((w', ups), http_response code body)
           | (w', Upgrade uid) \<Rightarrow> ((w', ups @ [uid]), http_response 101 [])))"
| "run_endpoint ctx MetricsEndpoint (w, ups) req =
     ((w, ups), case scrape ctx w of Inl code \<Rightarrow> http_response code [] | Inr body \<Rightarrow> http_response 200 body)"
| "run_endpoint ctx ConversationsEndpoint (w, ups) req =
     (case conv_query ctx req of
        Inl err \<Rightarrow> ((w, ups), http_response (fst err) (snd err))
      | Inr params \<Rightarrow>
          (case conversation_endpoint (status_to_string ctx) (getsert_rpc ctx) w params of
             (w', code, response) \<Rightarrow> ((w', ups), http_response code (json ctx response))))"

definition gateway_http ::
  "('w, 'st) HttpContext \<Rightarrow> ((string \<times> MethodFilter \<times> Endpoint) list \<Rightarrow> HttpRequest \<Rightarrow> (nat, Endpoint) result) \<Rightarrow>
   'w \<times> TenantUserId list \<Rightarrow> nat \<Rightarrow> HttpRequest \<Rightarrow> ('w \<times> TenantUserId list) \<times> MetricOp list \<times> HttpResponse" where
  "gateway_http ctx select =
     metrics_middleware (\<lambda>s req. case select peroxo_route req of
       Inl code \<Rightarrow> (s, http_response code [])
     | Inr e \<Rightarrow> run_endpoint ctx e s req)"

section \<open>Documented behaviour of the router of axum\<close>

fun serves_method :: "MethodFilter \<Rightarrow> string \<Rightarrow> bool" where
  "serves_method AnyMethod m \<longleftrightarrow> True"
| "serves_method GetMethod m \<longleftrightarrow> m = ''GET'' \<or> m = ''HEAD''"

text \<open>Paths without parameters match exactly; a path without the method is 405, no path 404.\<close>

definition routes_requests ::
  "((string \<times> MethodFilter \<times> 'e) list \<Rightarrow> HttpRequest \<Rightarrow> (nat, 'e) result) \<Rightarrow> bool" where
  "routes_requests select \<longleftrightarrow>
     (\<forall>table req. distinct (map fst table) \<longrightarrow>
        select table req =
          (case map_of table (req_path req) of
             None \<Rightarrow> Inl 404
           | Some (f, e) \<Rightarrow> if serves_method f (req_method req) then Inr e else Inl 405))"

lemma routed_endpoint:
  assumes "routes_requests select" and "select peroxo_route req = Inr e"
  shows "(e = WsEndpoint \<longleftrightarrow> req_path req = ''/ws'') \<and> (e = MetricsEndpoint \<longleftrightarrow> req_path req = ''/metrics'') \<and>
    (e = ConversationsEndpoint \<longleftrightarrow> req_path req = ''/conversations'')"
proof -
  have "distinct (map fst peroxo_route)" by (simp add: peroxo_route_def)
  then have "select peroxo_route req = (case map_of peroxo_route (req_path req) of
      None \<Rightarrow> Inl 404 | Some (f, e) \<Rightarrow> if serves_method f (req_method req) then Inr e else Inl 405)"
    using assms(1) unfolding routes_requests_def by blast
  then show ?thesis using assms(2) by (auto simp: peroxo_route_def split: if_splits)
qed

lemma ws_upgrade:
  assumes "ws_handler show_st rpc w params = (w', Upgrade uid)"
  shows "\<exists>token r t. hm_get params ''token'' = Some token \<and> snd (rpc w token) = Inr r \<and> found r \<and>
    user_token r = Some t \<and> from_token t = Inr uid"
  using assms
  by (auto simp: ws_handler_def verify_token_def split: option.splits prod.splits sum.splits if_splits)

lemma gateway_http_response:
  assumes "gateway_http ctx select (w, ups) elapsed req = ((w', ups'), ops, response)"
  shows "select peroxo_route req = Inl (resp_status response) \<and> ups' = ups \<or>
    (\<exists>e. select peroxo_route req = Inr e \<and> run_endpoint ctx e (w, ups) req = ((w', ups'), response))"
    and "ops = [Inc HTTP_REQUESTS_TOTAL [req_method req, req_path req, show_nat (resp_status response)],
      Observe HTTP_REQUEST_DURATION [req_method req, req_path req] elapsed]"
  using assms
  by (auto simp: gateway_http_def metrics_middleware_def http_response_def Let_def split: prod.splits sum.splits)

lemma endpoint_upgrades:
  assumes "run_endpoint ctx e (w, ups) req = ((w', ups'), response)" and "ups' \<noteq> ups"
  shows "e = WsEndpoint \<and> resp_status response = 101 \<and> (\<exists>uid params token r t. ups' = ups @ [uid] \<and>
    ws_query ctx req = Inr params \<and> hm_get params ''token'' = Some token \<and> snd (verify_rpc ctx w token) = Inr r \<and>
    found r \<and> user_token r = Some t \<and> from_token t = Inr uid)"
  using assms
  by (cases e) (auto simp: http_response_def split: sum.splits prod.splits WsReply.splits dest!: ws_upgrade)

section \<open>Properties\<close>

text \<open>
  C13. The only way to a socket: a request to the gateway opens at most one WebSocket, only at the
  path \<^verbatim>\<open>/ws\<close>, only when the request has a token for which the auth service answers a user, and then for
  exactly this user; every other request leaves no socket behind. Every response passes
  unchanged through the middleware and is counted once, under its method, path and status.
\<close>

theorem upgrade_needs_token:
  assumes "routes_requests select"
    and "gateway_http ctx select (w, ups) elapsed req = ((w', ups'), ops, response)"
  shows "(ups' \<noteq> ups \<longrightarrow> req_path req = ''/ws'' \<and> resp_status response = 101 \<and>
      (\<exists>uid params token r t. ups' = ups @ [uid] \<and> ws_query ctx req = Inr params \<and>
         hm_get params ''token'' = Some token \<and> snd (verify_rpc ctx w token) = Inr r \<and> found r \<and>
         user_token r = Some t \<and> from_token t = Inr uid)) \<and>
    ops = [Inc HTTP_REQUESTS_TOTAL [req_method req, req_path req, show_nat (resp_status response)],
      Observe HTTP_REQUEST_DURATION [req_method req, req_path req] elapsed]"
proof (intro conjI impI)
  assume up: "ups' \<noteq> ups"
  with gateway_http_response(1) [OF assms(2)] obtain e where e: "select peroxo_route req = Inr e"
    "run_endpoint ctx e (w, ups) req = ((w', ups'), response)" by blast
  note ws = endpoint_upgrades [OF e(2) up]
  show "req_path req = ''/ws''" using routed_endpoint [OF assms(1) e(1)] ws by blast
  show "resp_status response = 101" using ws by blast
  show "\<exists>uid params token r t. ups' = ups @ [uid] \<and> ws_query ctx req = Inr params \<and>
      hm_get params ''token'' = Some token \<and> snd (verify_rpc ctx w token) = Inr r \<and> found r \<and>
      user_token r = Some t \<and> from_token t = Inr uid" using ws by blast
qed (rule gateway_http_response(2) [OF assms(2)])

text \<open>A gateway that knows one token.\<close>

definition example_select :: "(string \<times> MethodFilter \<times> Endpoint) list \<Rightarrow> HttpRequest \<Rightarrow> (nat, Endpoint) result" where
  "example_select table req =
     (case map_of table (req_path req) of
        None \<Rightarrow> Inl 404
      | Some (f, e) \<Rightarrow> if serves_method f (req_method req) then Inr e else Inl 405)"

definition example_context :: "(unit, string) HttpContext" where
  "example_context =
     \<lparr>status_to_string = (\<lambda>e. e),
      verify_rpc = (\<lambda>w token. (w, if token = ''tok'' then Inr \<lparr>found = True, user_token =
          Some \<lparr>UserToken.project_id = ''p'', UserToken.user_id = ''ann'', UserToken.expires_at = 9\<rparr>\<rparr>
        else Inr \<lparr>found = False, user_token = None\<rparr>)),
      getsert_rpc = (\<lambda>w q. (w, Inl ''down'')),
      ws_query = (\<lambda>q. Inr [(''token'', ''tok'')]), conv_query = (\<lambda>q. Inl (400, ''missing field'')),
      json = ConversationResponse.error_message, scrape = (\<lambda>w. Inr ''metrics'')\<rparr>"

theorem upgrade_needs_token_witness:
  "\<exists>w' ops response. gateway_http example_context example_select ((), []) 3 \<lparr>req_method = ''GET'', req_path = ''/ws''\<rparr> =
      ((w', [tenant_new ''p'' ''ann'']), ops, response) \<and> resp_status response = 101 \<and>
    ops = [Inc HTTP_REQUESTS_TOTAL [''GET'', ''/ws'', ''101''], Observe HTTP_REQUEST_DURATION [''GET'', ''/ws''] 3]"
proof -
  let ?req = "\<lparr>req_method = ''GET'', req_path = ''/ws''\<rparr>"
  have r: "routes_requests example_select" by (simp add: routes_requests_def example_select_def)
  obtain w' ops response where run: "gateway_http example_context example_select ((), []) 3 ?req =
      ((w', [tenant_new ''p'' ''ann'']), ops, response)"
    by (simp add: gateway_http_def metrics_middleware_def example_select_def peroxo_route_def example_context_def
        ws_handler_def verify_token_def hm_get_def from_token_def tenant_new_def Let_def)
  have "show_nat 101 = ''101''" by code_simp
  with upgrade_needs_token [OF r run] run show ?thesis by auto
qed

end
