(* ===== verification/Session_Outbox.thy ===== *)
theory Session_Outbox
  imports System_Order
begin

text \<open>
  The last hop to the client: the bounded channel of a session (\<^verbatim>\<open>session.rs\<close>, line 26) between the
  actors that offer messages with \<^verbatim>\<open>try_send\<close> and the send task that writes them to the socket.

  As tokio documents it, \<^verbatim>\<open>try_send\<close> on a channel whose buffer is full gives the message back, and the
  two callers in the sources drop it; \<^verbatim>\<open>recv\<close> takes messages in the order they went in. \<open>outbox\<close> runs a
  schedule of offers and of turns of the send task on such a channel and yields what the send task
  reads, which is the input of \<open>send_task\<close>.
\<close>

section \<open>The channel of a session\<close>

definition CHANNEL_BUFFER_SIZE :: nat where
  "CHANNEL_BUFFER_SIZE = 100"

text \<open>
  \<open>Offer m\<close>: an actor calls \<^verbatim>\<open>try_send\<close>. \<open>Take ok\<close>: the send task takes the next message of the
  session channel, and \<open>ok\<close> is the result of the write to the socket. \<open>TakeAck m ok\<close>: the same for the
  acknowledgement channel.
\<close>

datatype OutboxEvent = Offer ChatMessage | Take bool | TakeAck ChatMessage bool

fun outbox :: "ChatMessage list \<Rightarrow> OutboxEvent list \<Rightarrow> (SendInput \<times> bool) list \<times> ChatMessage list" where
  "outbox q [] = ([], q)"
| "outbox q (Offer m # es) = outbox (if length q < CHANNEL_BUFFER_SIZE then q @ [m] else q) es"
| "outbox [] (Take ok # es) = outbox [] es"
| "outbox (m # q) (Take ok # es) =
     (let (inputs, rest) = outbox q es in ((FromSession (Some m), ok) # inputs, rest))"
| "outbox q (TakeAck m ok # es) =
     (let (inputs, rest) = outbox q es in ((FromAck (Some m), ok) # inputs, rest))"

fun offers :: "OutboxEvent list \<Rightarrow> ChatMessage list" where
  "offers [] = []"
| "offers (Offer m # es) = m # offers es"
| "offers (_ # es) = offers es"

text \<open>The messages of the session channel among the inputs of the send task.\<close>

fun session_inputs :: "(SendInput \<times> bool) list \<Rightarrow> ChatMessage list" where
  "session_inputs [] = []"
| "session_inputs ((FromSession (Some m), ok) # is) = m # session_inputs is"
| "session_inputs (_ # is) = session_inputs is"

lemma outbox_bounded:
  "length q \<le> CHANNEL_BUFFER_SIZE \<Longrightarrow> length (snd (outbox q es)) \<le> CHANNEL_BUFFER_SIZE"
  by (induction q es rule: outbox.induct) (auto simp: split_beta)

lemma outbox_fifo: "subseq (session_inputs (fst (outbox q es)) @ snd (outbox q es)) (q @ offers es)"
proof (induction q es rule: outbox.induct)
  case (2 q m es)
  then show ?case
    by (cases "length q < CHANNEL_BUFFER_SIZE")
       (auto intro: subseq_order.trans [OF _ list_emb_append_mono [OF subseq_order.refl]])
qed (auto simp: split_beta)

lemma outbox_lossless:
  assumes "length q + length (offers es) \<le> CHANNEL_BUFFER_SIZE"
  shows "session_inputs (fst (outbox q es)) @ snd (outbox q es) = q @ offers es"
  using assms by (induction q es rule: outbox.induct) (auto simp: split_beta)

section \<open>The gateway up to the socket\<close>

text \<open>What the gateway offers to one session's channel, and the direct and room messages of a list of messages.\<close>

definition offered_to :: "session_sender \<Rightarrow> (session_sender \<times> ChatMessage) list \<Rightarrow> ChatMessage list" where
  "offered_to s xs = map snd (filter (\<lambda>(s', m). s' = s) xs)"

definition direct_texts :: "ChatMessage list \<Rightarrow> (TenantUserId \<times> string \<times> uuid) list" where
  "direct_texts = List.map_filter (\<lambda>m. case m of DirectMessage from content mid ts \<Rightarrow> Some (from, content, mid) | _ \<Rightarrow> None)"

definition room_texts :: "string \<Rightarrow> ChatMessage list \<Rightarrow> (TenantUserId \<times> string \<times> uuid) list" where
  "room_texts rid = List.map_filter (\<lambda>m. case m of
     ChatMessage.RoomMessage rid' from content mid \<Rightarrow> if rid' = rid then Some (from, content, mid) else None | _ \<Rightarrow> None)"

lemma subseq_map_filter: "subseq xs ys \<Longrightarrow> subseq (List.map_filter f xs) (List.map_filter f ys)"
  by (simp add: map_filter_def subseq_map)

lemma room_texts_offered: "room_texts rid (offered_to s xs) = room_part rid s xs"
  by (induction rid s xs rule: room_part.induct) (auto simp: room_texts_def offered_to_def map_filter_def)

lemma direct_texts_offered:
  "direct_texts (offered_to s xs) = map snd (filter (\<lambda>(s', d). s' = s) (direct_part xs))"
  by (induction xs rule: direct_part.induct) (auto simp: direct_texts_def offered_to_def map_filter_def)



end
