(* ===== verification/Rabbit.thy ===== *)
theory Rabbit
  imports Chat_Writes
begin

text \<open>
  The queues of RabbitMQ: the publisher of \<^verbatim>\<open>chat-service/src/rabbit.rs\<close>, which its feature \<^verbatim>\<open>rabbit\<close> compiles
  in, and the process \<^verbatim>\<open>rabbit_consumer\<close>, which takes the messages off the queues and writes them to
  ScyllaDB.

  The crate \<^verbatim>\<open>lapin\<close> is an argument, an \<open>Amqp\<close> with the operations the sources call; so is the crate
  \<^verbatim>\<open>serde_json\<close>, by the functions \<open>to_vec\<close> and \<open>from_slice\<close>. The stream of deliveries of a consumer is a
  list of what it yields until it ends; acknowledgements are effects, since the sources only log
  when one fails.
\<close>

section \<open>Messages\<close>

text \<open>The structs of \<^verbatim>\<open>chat-service\<close>.\<close>

record UtilsRoomMessage =
  room_id :: string
  message_id :: uuid
  "from" :: i32
  content :: string
  created_at :: millis

record SerializableRoomMessage =
  room_id :: string
  message_id :: uuid
  "from" :: i32
  content :: string
  created_at :: millis

text \<open>The structs of \<^verbatim>\<open>rabbit_consumer\<close>.\<close>

record ConsumerDirectMessage =
  conversation_id :: string
  message_id :: uuid
  sender_id :: i32
  recipient_id :: i32
  message_text :: string
  created_at :: millis

record ConsumerSerializableDirectMessage =
  conversation_id :: string
  message_id :: uuid
  sender_id :: i32
  recipient_id :: i32
  message_text :: string
  created_at :: millis

record ConsumerRoomMessage =
  room_id :: string
  message_id :: uuid
  "from" :: i32
  content :: string
  created_at :: millis

record ConsumerSerializableRoomMessage =
  room_id :: string
  message_id :: uuid
  "from" :: i32
  content :: string
  created_at :: millis

text \<open>The conversions \<^verbatim>\<open>From\<close>; the sources write both directions out.\<close>

definition serializable_room_message :: "UtilsRoomMessage \<Rightarrow> SerializableRoomMessage" where
  "serializable_room_message rm =
     \<lparr>SerializableRoomMessage.room_id = UtilsRoomMessage.room_id rm, SerializableRoomMessage.message_id = UtilsRoomMessage.message_id rm,
      SerializableRoomMessage.from = UtilsRoomMessage.from rm, SerializableRoomMessage.content = UtilsRoomMessage.content rm,
      SerializableRoomMessage.created_at = UtilsRoomMessage.created_at rm\<rparr>"

definition utils_room_message :: "SerializableRoomMessage \<Rightarrow> UtilsRoomMessage" where
  "utils_room_message srm =
     \<lparr>UtilsRoomMessage.room_id = SerializableRoomMessage.room_id srm, UtilsRoomMessage.message_id = SerializableRoomMessage.message_id srm,
      UtilsRoomMessage.from = SerializableRoomMessage.from srm, UtilsRoomMessage.content = SerializableRoomMessage.content srm,
      UtilsRoomMessage.created_at = SerializableRoomMessage.created_at srm\<rparr>"

definition consumer_serializable_dm :: "ConsumerDirectMessage \<Rightarrow> ConsumerSerializableDirectMessage" where
  "consumer_serializable_dm dm =
     \<lparr>ConsumerSerializableDirectMessage.conversation_id = ConsumerDirectMessage.conversation_id dm, ConsumerSerializableDirectMessage.message_id = ConsumerDirectMessage.message_id dm,
      ConsumerSerializableDirectMessage.sender_id = ConsumerDirectMessage.sender_id dm, ConsumerSerializableDirectMessage.recipient_id = ConsumerDirectMessage.recipient_id dm,
      ConsumerSerializableDirectMessage.message_text = ConsumerDirectMessage.message_text dm, ConsumerSerializableDirectMessage.created_at = ConsumerDirectMessage.created_at dm\<rparr>"

definition consumer_dm :: "ConsumerSerializableDirectMessage \<Rightarrow> ConsumerDirectMessage" where
  "consumer_dm sdm =
     \<lparr>ConsumerDirectMessage.conversation_id = ConsumerSerializableDirectMessage.conversation_id sdm,
      ConsumerDirectMessage.message_id = ConsumerSerializableDirectMessage.message_id sdm,
      ConsumerDirectMessage.sender_id = ConsumerSerializableDirectMessage.sender_id sdm,
      ConsumerDirectMessage.recipient_id = ConsumerSerializableDirectMessage.recipient_id sdm,
      ConsumerDirectMessage.message_text = ConsumerSerializableDirectMessage.message_text sdm,
      ConsumerDirectMessage.created_at = ConsumerSerializableDirectMessage.created_at sdm\<rparr>"

definition consumer_serializable_room :: "ConsumerRoomMessage \<Rightarrow> ConsumerSerializableRoomMessage" where
  "consumer_serializable_room rm =
     \<lparr>ConsumerSerializableRoomMessage.room_id = ConsumerRoomMessage.room_id rm, ConsumerSerializableRoomMessage.message_id = ConsumerRoomMessage.message_id rm,
      ConsumerSerializableRoomMessage.from = ConsumerRoomMessage.from rm, ConsumerSerializableRoomMessage.content = ConsumerRoomMessage.content rm,
      ConsumerSerializableRoomMessage.created_at = ConsumerRoomMessage.created_at rm\<rparr>"

definition consumer_room :: "ConsumerSerializableRoomMessage \<Rightarrow> ConsumerRoomMessage" where
  "consumer_room srm =
     \<lparr>ConsumerRoomMessage.room_id = ConsumerSerializableRoomMessage.room_id srm, ConsumerRoomMessage.message_id = ConsumerSerializableRoomMessage.message_id srm,
      ConsumerRoomMessage.from = ConsumerSerializableRoomMessage.from srm, ConsumerRoomMessage.content = ConsumerSerializableRoomMessage.content srm,
      ConsumerRoomMessage.created_at = ConsumerSerializableRoomMessage.created_at srm\<rparr>"

definition create_room_message ::
  "UuidOps \<Rightarrow> string \<Rightarrow> i32 \<Rightarrow> string \<Rightarrow> string \<Rightarrow> millis \<Rightarrow> (string, UtilsRoomMessage) result" where
  "create_room_message u rid frm cont mid ts =
     (case parse_str u mid of
        None \<Rightarrow> Inl ''invalid uuid''
      | Some i \<Rightarrow> Inr \<lparr>UtilsRoomMessage.room_id = rid, UtilsRoomMessage.message_id = i, UtilsRoomMessage.from = frm, UtilsRoomMessage.content = cont, UtilsRoomMessage.created_at = ts\<rparr>)"

section \<open>The crate lapin\<close>

datatype Confirmation = ConfirmAck | ConfirmNack | NotRequested

text \<open>
  \<open>queue_declare w ch name durable\<close>; \<open>basic_publish w ch exchange routing_key payload delivery_mode\<close>, whose
  result is awaited a second time for the \<open>confirmation\<close>.
\<close>

record ('w, 'conn, 'ch, 'conf) Amqp =
  connect_amqp :: "'w \<Rightarrow> string \<Rightarrow> 'w \<times> (string, 'conn) result"
  create_channel :: "'w \<Rightarrow> 'conn \<Rightarrow> 'w \<times> (string, 'ch) result"
  confirm_select :: "'w \<Rightarrow> 'ch \<Rightarrow> 'w \<times> (string, unit) result"
  basic_qos :: "'w \<Rightarrow> 'ch \<Rightarrow> nat \<Rightarrow> 'w \<times> (string, unit) result"
  queue_declare :: "'w \<Rightarrow> 'ch \<Rightarrow> string \<Rightarrow> bool \<Rightarrow> 'w \<times> (string, unit) result"
  basic_publish :: "'w \<Rightarrow> 'ch \<Rightarrow> string \<Rightarrow> string \<Rightarrow> bytes \<Rightarrow> nat \<Rightarrow> 'w \<times> (string, 'conf) result"
  confirmation :: "'w \<Rightarrow> 'conf \<Rightarrow> 'w \<times> (string, Confirmation) result"
  basic_consume :: "'w \<Rightarrow> 'ch \<Rightarrow> string \<Rightarrow> string \<Rightarrow> 'w \<times> (string, unit) result"

section \<open>The publisher\<close>

record 'ch MessagePublisher =
  channel :: 'ch
  queue_name :: string

definition publisher_new ::
  "('w, 'conn, 'ch, 'conf) Amqp \<Rightarrow> 'w \<Rightarrow> 'conn \<Rightarrow> string \<Rightarrow> 'w \<times> (string, 'ch MessagePublisher) result" where
  "publisher_new a w conn name =
     and_then (create_channel a w conn) (\<lambda>w ch.
     and_then (confirm_select a w ch) (\<lambda>w _.
     and_then (queue_declare a w ch name True) (\<lambda>w _.
     (w, Inr \<lparr>channel = ch, queue_name = name\<rparr>))))"

definition publish_message ::
  "('w, 'conn, 'ch, 'conf) Amqp \<Rightarrow> ('m \<Rightarrow> (string, bytes) result) \<Rightarrow> 'ch MessagePublisher \<Rightarrow> 'w \<Rightarrow> 'm \<Rightarrow>
   'w \<times> (string, unit) result" where
  "publish_message a to_vec self w m =
     and_then (w, to_vec m) (\<lambda>w payload.
     and_then (basic_publish a w (channel self) [] (queue_name self) payload 2) (\<lambda>w sent.
     and_then (confirmation a w sent) (\<lambda>w c.
     (w, case c of
           ConfirmAck \<Rightarrow> Inr ()
         | ConfirmNack \<Rightarrow> Inl ''Message was nacked by RabbitMQ''
         | NotRequested \<Rightarrow> Inl ''Publisher confirmation was not requested''))))"

definition publish_message_no_confirm ::
  "('w, 'conn, 'ch, 'conf) Amqp \<Rightarrow> ('m \<Rightarrow> (string, bytes) result) \<Rightarrow> 'ch MessagePublisher \<Rightarrow> 'w \<Rightarrow> 'm \<Rightarrow>
   'w \<times> (string, unit) result" where
  "publish_message_no_confirm a to_vec self w m =
     and_then (w, to_vec m) (\<lambda>w payload.
     and_then (basic_publish a w (channel self) [] (queue_name self) payload 2) (\<lambda>w _. (w, Inr ())))"

text \<open>The part of \<^verbatim>\<open>main\<close> of \<^verbatim>\<open>chat-service\<close> that the feature adds.\<close>

definition publishers_start ::
  "('w, 'conn, 'ch, 'conf) Amqp \<Rightarrow> 'w \<Rightarrow> string \<Rightarrow> 'w \<times> (string, 'ch MessagePublisher \<times> 'ch MessagePublisher) result" where
  "publishers_start a w url =
     and_then (connect_amqp a w url) (\<lambda>w conn.
     and_then (publisher_new a w conn ''direct_messages'') (\<lambda>w dm.
     and_then (publisher_new a w conn ''room_messages'') (\<lambda>w room. (w, Inr (dm, room)))))"

section \<open>Writing\<close>

definition q_consumer_insert_dm :: Stmt where
  "q_consumer_insert_dm = Insert (Some ''affinity'') ''direct_messages''
     [''conversation_id'', ''message_id'', ''sender_id'', ''recipient_id'', ''message_text'', ''created_at'']
     [Bind, Bind, Bind, Bind, Bind, Bind]"

definition q_consumer_update_conversation :: Stmt where
  "q_consumer_update_conversation = Update (Some ''affinity'') ''user_conversations'' [''last_message'']
     [''user_id'', ''conversation_id'']"

definition q_consumer_insert_room :: Stmt where
  "q_consumer_insert_room = Insert (Some ''affinity'') ''room_messages''
     [''room_id'', ''message_id'', ''sender_id'', ''content'', ''created_at''] [Bind, Bind, Bind, Bind, Bind]"

definition consumer_write_direct_message ::
  "('w, 'r, 'rows, 'p) Session \<Rightarrow> 'w \<Rightarrow> ConsumerDirectMessage \<Rightarrow> 'w \<times> (string, unit) result" where
  "consumer_write_direct_message session w m =
     batch session w [q_consumer_insert_dm, q_consumer_update_conversation, q_consumer_update_conversation]
       [[TextV (ConsumerDirectMessage.conversation_id m), UuidV (ConsumerDirectMessage.message_id m),
         IntV (ConsumerDirectMessage.sender_id m), IntV (ConsumerDirectMessage.recipient_id m),
         TextV (ConsumerDirectMessage.message_text m), TimestampV (ConsumerDirectMessage.created_at m)],
        [TimestampV (ConsumerDirectMessage.created_at m), IntV (ConsumerDirectMessage.sender_id m),
         TextV (ConsumerDirectMessage.conversation_id m)],
        [TimestampV (ConsumerDirectMessage.created_at m), IntV (ConsumerDirectMessage.recipient_id m),
         TextV (ConsumerDirectMessage.conversation_id m)]]"

definition consumer_write_room_message ::
  "('w, 'r, 'rows, 'p) Session \<Rightarrow> 'w \<Rightarrow> ConsumerRoomMessage \<Rightarrow> 'w \<times> (string, unit) result" where
  "consumer_write_room_message session w m =
     batch session w [q_consumer_insert_room]
       [[TextV (ConsumerRoomMessage.room_id m), UuidV (ConsumerRoomMessage.message_id m),
         IntV (ConsumerRoomMessage.from m), TextV (ConsumerRoomMessage.content m),
         TimestampV (ConsumerRoomMessage.created_at m)]]"

section \<open>The handlers\<close>

text \<open>A failed write is logged and the message counts as processed.\<close>

definition dm_process_message ::
  "('w, 'r, 'rows, 'p) Session \<Rightarrow> (bytes \<Rightarrow> (string, ConsumerSerializableDirectMessage) result) \<Rightarrow> 'w \<Rightarrow> bytes \<Rightarrow>
   'w \<times> (string, unit) result" where
  "dm_process_message session from_slice w bs =
     and_then (w, from_slice bs) (\<lambda>w msg.
       case consumer_write_direct_message session w (consumer_dm msg) of
         (w, Inl e) \<Rightarrow> (w, Inr ())
       | (w, Inr _) \<Rightarrow> (w, Inr ()))"

definition room_process_message ::
  "('w, 'r, 'rows, 'p) Session \<Rightarrow> (bytes \<Rightarrow> (string, ConsumerSerializableRoomMessage) result) \<Rightarrow> 'w \<Rightarrow> bytes \<Rightarrow>
   'w \<times> (string, unit) result" where
  "room_process_message session from_slice w bs =
     and_then (w, from_slice bs) (\<lambda>w srm.
       case consumer_write_room_message session w (consumer_room srm) of
         (w, Inl e) \<Rightarrow> (w, Inr ())
       | (w, Inr _) \<Rightarrow> (w, Inr ()))"

section \<open>The consumer\<close>

record Delivery =
  delivery_tag :: u64
  data :: bytes

datatype ConsumerEffect = Ack u64 | Sleep nat

record ('w, 'ch) MessageConsumer =
  channel :: 'ch
  queue_name :: string
  handler :: "'w \<Rightarrow> bytes \<Rightarrow> 'w \<times> (string, unit) result"

definition consumer_new ::
  "('w, 'conn, 'ch, 'conf) Amqp \<Rightarrow> 'w \<Rightarrow> 'conn \<Rightarrow> string \<Rightarrow> ('w \<Rightarrow> bytes \<Rightarrow> 'w \<times> (string, unit) result) \<Rightarrow>
   'w \<times> (string, ('w, 'ch) MessageConsumer) result" where
  "consumer_new a w conn name h =
     and_then (create_channel a w conn) (\<lambda>w ch.
     and_then (basic_qos a w ch 1) (\<lambda>w _.
     and_then (queue_declare a w ch name True) (\<lambda>w _.
     (w, Inr \<lparr>channel = ch, queue_name = name, handler = h\<rparr>))))"

text \<open>One turn of the loop of \<^verbatim>\<open>start_consuming\<close>: an item of the stream.\<close>

definition consume_item ::
  "('w \<Rightarrow> bytes \<Rightarrow> 'w \<times> (string, unit) result) \<Rightarrow> 'w \<Rightarrow> (string, Delivery) result \<Rightarrow> 'w \<times> ConsumerEffect list" where
  "consume_item h w item =
     (case item of
        Inr delivery \<Rightarrow>
          (case h w (data delivery) of
             (w, Inr _) \<Rightarrow> (w, [Ack (delivery_tag delivery)])
           | (w, Inl e) \<Rightarrow> (w, [Ack (delivery_tag delivery)]))
      | Inl e \<Rightarrow> (w, [Sleep 1]))"

fun consume_loop ::
  "('w \<Rightarrow> bytes \<Rightarrow> 'w \<times> (string, unit) result) \<Rightarrow> 'w \<Rightarrow> (string, Delivery) result list \<Rightarrow> 'w \<times> ConsumerEffect list" where
  "consume_loop h w [] = (w, [])"
| "consume_loop h w (item # items) =
     (let (w, es) = consume_item h w item; (w, fs) = consume_loop h w items in (w, es @ fs))"

definition start_consuming ::
  "('w, 'conn, 'ch, 'conf) Amqp \<Rightarrow> ('w, 'ch) MessageConsumer \<Rightarrow> 'w \<Rightarrow> (string, Delivery) result list \<Rightarrow>
   ('w \<times> ConsumerEffect list) \<times> (string, unit) result" where
  "start_consuming a self w items =
     (case basic_consume a w (MessageConsumer.channel self) (MessageConsumer.queue_name self)
            (MessageConsumer.queue_name self @ ''_consumer'') of
        (w, Inl e) \<Rightarrow> ((w, []), Inl e)
      | (w, Inr _) \<Rightarrow> (consume_loop (handler self) w items, Inr ()))"

text \<open>
  \<^verbatim>\<open>main\<close> up to \<^verbatim>\<open>tokio::join!\<close>: \<open>var\<close> reads the environment. The variable \<^verbatim>\<open>QUEUE_NAME\<close> is read and
  printed only.
\<close>

definition consumers_start ::
  "(string \<rightharpoonup> string) \<Rightarrow> ('w, 'conn, 'ch, 'conf) Amqp \<Rightarrow>
   (string \<Rightarrow> 'w \<Rightarrow> 'w \<times> (string, ('w, 'r, 'rows, 'p) Session) result) \<Rightarrow>
   (bytes \<Rightarrow> (string, ConsumerSerializableDirectMessage) result) \<Rightarrow>
   (bytes \<Rightarrow> (string, ConsumerSerializableRoomMessage) result) \<Rightarrow> 'w \<Rightarrow>
   'w \<times> (string, ('w, 'ch) MessageConsumer \<times> ('w, 'ch) MessageConsumer) result" where
  "consumers_start var a connect dm_slice room_slice w =
     (let rabbitmq_url = case var ''RABBITMQ_URL'' of Some v \<Rightarrow> v | None \<Rightarrow> ''amqp://localhost:5672'';
          scylla_hosts = case var ''SCYLLA_HOST'' of Some v \<Rightarrow> v | None \<Rightarrow> ''127.0.0.1:9042'';
          queue_name = case var ''QUEUE_NAME'' of Some v \<Rightarrow> v | None \<Rightarrow> ''direct_messages''
      in and_then (connect_amqp a w rabbitmq_url) (\<lambda>w conn.
         and_then (connect scylla_hosts w) (\<lambda>w session.
         and_then (consumer_new a w conn ''direct_messages'' (dm_process_message session dm_slice)) (\<lambda>w dm.
         and_then (consumer_new a w conn ''room_messages'' (room_process_message session room_slice)) (\<lambda>w room.
         (w, Inr (dm, room)))))))"

text \<open>
  \<^verbatim>\<open>tokio::join!\<close> of the two loops: the turns of both in the order they happen, \<^const>\<open>True\<close> for a turn of the
  consumer of direct messages.
\<close>

fun join_consumers ::
  "('w \<Rightarrow> bytes \<Rightarrow> 'w \<times> (string, unit) result) \<Rightarrow> ('w \<Rightarrow> bytes \<Rightarrow> 'w \<times> (string, unit) result) \<Rightarrow> 'w \<Rightarrow>
   (bool \<times> (string, Delivery) result) list \<Rightarrow> 'w \<times> (bool \<times> ConsumerEffect) list" where
  "join_consumers dm room w [] = (w, [])"
| "join_consumers dm room w ((b, item) # items) =
     (let (w, es) = consume_item (if b then dm else room) w item;
          (w, fs) = join_consumers dm room w items
      in (w, map (Pair b) es @ fs))"

section \<open>What a handler keeps\<close>

lemma consume_item_world: "fst (consume_item h w item) = (case item of Inl e \<Rightarrow> w | Inr dl \<Rightarrow> fst (h w (data dl)))"
  by (auto simp: consume_item_def split: sum.splits prod.splits)

lemma consume_loop_world: "fst (consume_loop h w (item # items)) = fst (consume_loop h (fst (consume_item h w item)) items)"
  by (simp split: prod.splits)

lemma join_consumers_world:
  "fst (join_consumers dm room w ((q, item) # items)) =
     fst (join_consumers dm room (fst (consume_item (if q then dm else room) w item)) items)"
  by (simp split: prod.splits)

lemmas consumer_worlds = consume_item_world consume_loop_world join_consumers_world

text \<open>
  A contract for the trait \<^verbatim>\<open>MessageHandler\<close>: processing keeps \<open>good\<close>. A consumer then keeps it over any
  stream, and so do two consumers of the same contract in any interleaving. The context \<open>c\<close> holds
  what the handler was built with.
\<close>

locale message_handler =
  fixes process_message :: "'c \<Rightarrow> 'w \<Rightarrow> bytes \<Rightarrow> 'w \<times> (string, unit) result"
    and good :: "'c \<Rightarrow> 'w \<Rightarrow> bool"
  assumes process_good: "good c w \<Longrightarrow> good c (fst (process_message c w bs))"
begin

lemma item_good: "good c w \<Longrightarrow> good c (fst (consume_item (process_message c) w item))"
  by (simp add: consume_item_world process_good split: sum.splits)

lemma loop_good: "good c w \<Longrightarrow> good c (fst (consume_loop (process_message c) w items))"
  by (induction items arbitrary: w) (simp_all add: consume_loop_world item_good del: consume_loop.simps(2))

end

locale joined_handlers = dm: message_handler dm_process good + room: message_handler room_process good
  for dm_process room_process :: "'c \<Rightarrow> 'w \<Rightarrow> bytes \<Rightarrow> 'w \<times> (string, unit) result" and good
begin

lemma join_good: "good c w \<Longrightarrow> good c (fst (join_consumers (dm_process c) (room_process c) w items))"
proof (induction items arbitrary: w)
  case (Cons qi items)
  obtain q item where qi: "qi = (q, item)" by (cases qi)
  have "good c (fst (consume_item (if q then dm_process c else room_process c) w item))"
    using dm.item_good [OF Cons.prems] room.item_good [OF Cons.prems] by simp
  then show ?case unfolding qi join_consumers_world by (rule Cons.IH)
qed simp

end

section \<open>The writes of the consumer\<close>

lemma write_refused:
  assumes "serves d b" and "\<And>now. cql_batch (keyspace b) (uuid_ok b) now (contents b w) ss vs = None"
  shows "contents b (fst (batch d w ss vs)) = contents b w \<and> \<not> is_ok (snd (batch d w ss vs))"
  using serves_batch [OF assms(1), of w ss vs] by (simp add: write_answered_def assms(2))

lemma consumer_dm_refused:
  assumes "serves d b" and "db_ok (contents b w)"
  shows "contents b (fst (consumer_write_direct_message d w m)) = contents b w \<and>
    \<not> is_ok (snd (consumer_write_direct_message d w m))"
proof -
  obtain rows where t: "contents b w ''direct_messages'' = Some (direct_messages_table, rows)"
    using db_ok_tables(1) [OF assms(2)] by blast
  have none: "cql_batch (keyspace b) (uuid_ok b) now (contents b w)
      (q_consumer_insert_dm # ss) (v # vs) = None" for now ss v vs
    by (simp add: q_consumer_insert_dm_def table_of_def t direct_messages_table_def primary_key_def)
  show ?thesis unfolding consumer_write_direct_message_def by (rule write_refused [OF assms(1) none])
qed

lemma consumer_room_refused:
  assumes "serves d b" and "db_ok (contents b w)"
  shows "contents b (fst (consumer_write_room_message d w m)) = contents b w \<and>
    \<not> is_ok (snd (consumer_write_room_message d w m))"
proof -
  obtain rows where t: "contents b w ''room_messages'' = Some (room_messages_table, rows)"
    using db_ok_tables(3) [OF assms(2)] by blast
  have none: "cql_batch (keyspace b) (uuid_ok b) now (contents b w)
      (q_consumer_insert_room # ss) (v # vs) = None" for now ss v vs
    by (simp add: q_consumer_insert_room_def table_of_def t room_messages_table_def primary_key_def)
  show ?thesis unfolding consumer_write_room_message_def by (rule write_refused [OF assms(1) none])
qed

lemma dm_process_world:
  "fst (dm_process_message d ds w bs) =
     (case ds bs of Inl e \<Rightarrow> w | Inr m \<Rightarrow> fst (consumer_write_direct_message d w (consumer_dm m)))"
  by (auto simp: dm_process_message_def split: sum.splits prod.splits)

lemma room_process_world:
  "fst (room_process_message d rs w bs) =
     (case rs bs of Inl e \<Rightarrow> w | Inr m \<Rightarrow> fst (consumer_write_room_message d w (consumer_room m)))"
  by (auto simp: room_process_message_def split: sum.splits prod.splits)

type_synonym ('w, 'r, 'rows, 'p) consumer_context =
  "('w, 'r, 'rows, 'p) Session \<times> ('w, 'rows, 'p) Backend \<times> database \<times>
   (bytes \<Rightarrow> (string, ConsumerSerializableDirectMessage) result) \<times>
   (bytes \<Rightarrow> (string, ConsumerSerializableRoomMessage) result)"

fun context_dm :: "('w, 'r, 'rows, 'p) consumer_context \<Rightarrow> 'w \<Rightarrow> bytes \<Rightarrow> 'w \<times> (string, unit) result" where
  "context_dm (d, b, db, ds, rs) = dm_process_message d ds"

fun context_room :: "('w, 'r, 'rows, 'p) consumer_context \<Rightarrow> 'w \<Rightarrow> bytes \<Rightarrow> 'w \<times> (string, unit) result" where
  "context_room (d, b, db, ds, rs) = room_process_message d rs"

fun unchanged :: "('w, 'r, 'rows, 'p) consumer_context \<Rightarrow> 'w \<Rightarrow> bool" where
  "unchanged (d, b, db, ds, rs) w \<longleftrightarrow> serves d b \<and> db_ok db \<and> contents b w = db"

interpretation dm_handler: message_handler context_dm unchanged
proof
  fix c :: "('w, 'r, 'rows, 'p) consumer_context" and w bs
  assume "unchanged c w"
  then show "unchanged c (fst (context_dm c w bs))"
    by (cases c) (auto simp: dm_process_world consumer_dm_refused split: sum.splits)
qed

interpretation room_handler: message_handler context_room unchanged
proof
  fix c :: "('w, 'r, 'rows, 'p) consumer_context" and w bs
  assume "unchanged c w"
  then show "unchanged c (fst (context_room c w bs))"
    by (cases c) (auto simp: room_process_world consumer_room_refused split: sum.splits)
qed

interpretation consumers: joined_handlers context_dm context_room unchanged
  by unfold_locales

section \<open>Properties\<close>

fun acked :: "bool \<Rightarrow> (bool \<times> ConsumerEffect) list \<Rightarrow> u64 list" where
  "acked b [] = []"
| "acked b ((b', Ack t) # es) = (if b' = b then t # acked b es else acked b es)"
| "acked b (_ # es) = acked b es"

fun tags :: "bool \<Rightarrow> (bool \<times> (string, Delivery) result) list \<Rightarrow> u64 list" where
  "tags b [] = []"
| "tags b ((b', Inr d) # items) = (if b' = b then delivery_tag d # tags b items else tags b items)"
| "tags b (_ # items) = tags b items"

lemma consume_item_effects:
  "snd (consume_item h w item) = (case item of Inr d \<Rightarrow> [Ack (delivery_tag d)] | Inl e \<Rightarrow> [Sleep 1])"
  by (auto simp: consume_item_def split: sum.splits prod.splits)

lemma join_acks:
  "acked b (snd (join_consumers dm room w items)) = tags b items"
proof (induction items arbitrary: w)
  case (Cons bi items)
  obtain b' item where bi: "bi = (b', item)" by (cases bi)
  obtain w1 es where item: "consume_item (if b' then dm else room) w item = (w1, es)" by fastforce
  have "es = (case item of Inr d \<Rightarrow> [Ack (delivery_tag d)] | Inl e \<Rightarrow> [Sleep 1])"
    using consume_item_effects [of "if b' then dm else room" w item] item by simp
  then show ?case using Cons.IH [of w1] by (auto simp: bi item split: sum.splits prod.splits)
qed simp

text \<open>
  C30. The consumers store nothing: on the tables of the migrations, every write they try is
  refused, since their statements do not name the column \<^verbatim>\<open>project_id\<close> of the primary keys; whatever
  they receive and in whatever order, the database stays as it is, while every delivery is
  acknowledged.
\<close>

theorem consumers_store_nothing:
  assumes "serves d b" and "db_ok (contents b w)"
  shows "contents b (fst (join_consumers (dm_process_message d ds) (room_process_message d rs) w items)) =
      contents b w \<and>
    (\<forall>q. acked q (snd (join_consumers (dm_process_message d ds) (room_process_message d rs) w items)) = tags q items)"
proof -
  have "unchanged (d, b, contents b w, ds, rs) w" using assms by simp
  from consumers.join_good [OF this, of items] show ?thesis
    by (simp add: join_acks)
qed

theorem consumers_store_nothing_witness:
  "fst (join_consumers (dm_process_message (mem_session None True uint) (\<lambda>bs. Inl ''no''))
      (room_process_message (mem_session None True uint) (\<lambda>bs. Inr
        \<lparr>ConsumerSerializableRoomMessage.room_id = ''lobby'', ConsumerSerializableRoomMessage.message_id = 1,
         ConsumerSerializableRoomMessage.from = 7, ConsumerSerializableRoomMessage.content = ''hi'',
         ConsumerSerializableRoomMessage.created_at = 5\<rparr>)) empty_db
      [(False, Inr \<lparr>delivery_tag = 1, data = []\<rparr>), (True, Inr \<lparr>delivery_tag = 2, data = []\<rparr>)]) = empty_db"
proof -
  have "contents (mem_backend None True uint) db = db" for db by (simp add: mem_backend_def)
  then show ?thesis
    using consumers_store_nothing [OF mem_session_serves [of None True uint], of empty_db] empty_db_ok
    by (simp del: join_consumers.simps)
qed

text \<open>
  What \<^verbatim>\<open>serde_json\<close> does for the two structs of the same fields: the bytes of the publisher are read
  back by the consumer with the same values.
\<close>

definition wire_ok ::
  "(SerializableRoomMessage \<Rightarrow> (string, bytes) result) \<Rightarrow> (bytes \<Rightarrow> (string, ConsumerSerializableRoomMessage) result) \<Rightarrow> bool" where
  "wire_ok to_vec from_slice \<longleftrightarrow> (\<forall>rid mid frm cont ts. \<exists>bs.
     to_vec \<lparr>SerializableRoomMessage.room_id = rid, SerializableRoomMessage.message_id = mid,
       SerializableRoomMessage.from = frm, SerializableRoomMessage.content = cont,
       SerializableRoomMessage.created_at = ts\<rparr> = Inr bs \<and>
     from_slice bs = Inr \<lparr>ConsumerSerializableRoomMessage.room_id = rid,
       ConsumerSerializableRoomMessage.message_id = mid, ConsumerSerializableRoomMessage.from = frm,
       ConsumerSerializableRoomMessage.content = cont, ConsumerSerializableRoomMessage.created_at = ts\<rparr>)"

lemma publish_ok_iff:
  "publish_message a to_vec self w m = (w', Inr ()) \<longleftrightarrow>
     (\<exists>bs w1 sent. to_vec m = Inr bs \<and> basic_publish a w (MessagePublisher.channel self) [] (MessagePublisher.queue_name self) bs 2 = (w1, Inr sent) \<and>
        confirmation a w1 sent = (w', Inr ConfirmAck))"
  by (auto simp: publish_message_def and_then_def split: prod.splits sum.splits Confirmation.splits)

lemma room_process_message_ok:
  "rs bs = Inr m \<Longrightarrow> room_process_message d rs w bs = (fst (consumer_write_room_message d w (consumer_room m)), Inr ())"
  by (auto simp: room_process_message_def split: sum.splits prod.splits)


text \<open>An encoding of room messages for examples, with numbers in unary.\<close>

definition put_nat :: "nat \<Rightarrow> bytes" where
  "put_nat n = replicate n 1 @ [0]"

fun get_nat :: "bytes \<Rightarrow> nat \<times> bytes" where
  "get_nat [] = (0, [])"
| "get_nat (b # bs) = (if b = 0 then (0, bs) else (let (n, r) = get_nat bs in (Suc n, r)))"

fun get_chars :: "nat \<Rightarrow> bytes \<Rightarrow> string \<times> bytes" where
  "get_chars 0 bs = ([], bs)"
| "get_chars (Suc k) bs = (let (n, bs) = get_nat bs; (s, bs) = get_chars k bs in (char_of n # s, bs))"

definition put_string :: "string \<Rightarrow> bytes" where
  "put_string s = put_nat (length s) @ concat (map (\<lambda>c. put_nat (of_char c)) s)"

definition get_string :: "bytes \<Rightarrow> string \<times> bytes" where
  "get_string bs = (let (n, bs) = get_nat bs in get_chars n bs)"

definition put_room :: "SerializableRoomMessage \<Rightarrow> (string, bytes) result" where
  "put_room m = Inr (put_string (SerializableRoomMessage.room_id m) @ put_nat (unat (SerializableRoomMessage.message_id m)) @
     put_nat (unat (SerializableRoomMessage.from m)) @ put_string (SerializableRoomMessage.content m) @
     put_nat (nat (SerializableRoomMessage.created_at m)) @ put_nat (nat (- SerializableRoomMessage.created_at m)))"

definition get_room :: "bytes \<Rightarrow> (string, ConsumerSerializableRoomMessage) result" where
  "get_room bs =
     (let (rid, bs) = get_string bs; (mid, bs) = get_nat bs; (frm, bs) = get_nat bs; (cont, bs) = get_string bs;
          (pos, bs) = get_nat bs; (neg, bs) = get_nat bs
      in Inr \<lparr>ConsumerSerializableRoomMessage.room_id = rid, ConsumerSerializableRoomMessage.message_id = of_nat mid,
           ConsumerSerializableRoomMessage.from = of_nat frm, ConsumerSerializableRoomMessage.content = cont,
           ConsumerSerializableRoomMessage.created_at = int pos - int neg\<rparr>)"

lemma get_put_nat [simp]: "get_nat (put_nat n @ bs) = (n, bs)"
  by (induction n) (simp_all add: put_nat_def)

lemma get_put_chars: "get_chars (length s) (concat (map (\<lambda>c. put_nat (of_char c)) s) @ bs) = (s, bs)"
  by (induction s) simp_all

lemma get_put_string [simp]: "get_string (put_string s @ bs) = (s, bs)"
  by (simp add: get_string_def put_string_def get_put_chars)

lemma put_room_wire: "wire_ok put_room get_room"
proof -
  have "get_nat (put_nat n) = (n, [])" for n using get_put_nat [of n "[]"] by simp
  then show ?thesis by (simp add: wire_ok_def put_room_def get_room_def)
qed


text \<open>
  The queues of the two consumers are fixed: the variable \<^verbatim>\<open>QUEUE_NAME\<close>, which \<^verbatim>\<open>main\<close> reads and reports as
  the queue it consumes from, has no influence.
\<close>

lemma queue_name_ignored:
  "consumers_start (var(''QUEUE_NAME'' \<mapsto> q)) a connect ds rs w = consumers_start var a connect ds rs w"
  "consumers_start var a connect ds rs w = (w', Inr (dm, room)) \<Longrightarrow>
   MessageConsumer.queue_name dm = ''direct_messages'' \<and> MessageConsumer.queue_name room = ''room_messages''"
  by (auto simp: consumers_start_def consumer_new_def and_then_def Let_def split: prod.splits sum.splits)

text \<open>The publishers and the consumers use the same two queues.\<close>

lemma queues_agree:
  assumes "publishers_start a w url = (w', Inr (dm, room))"
    and "consumers_start var a' connect ds rs v = (v', Inr (dm', room'))"
  shows "MessagePublisher.queue_name dm = MessageConsumer.queue_name dm' \<and>
    MessagePublisher.queue_name room = MessageConsumer.queue_name room'"
  using assms(1) queue_name_ignored(2) [OF assms(2)]
  by (auto simp: publishers_start_def publisher_new_def and_then_def split: prod.splits sum.splits)

lemma conversions_inverse:
  "utils_room_message (serializable_room_message rm) = rm" "serializable_room_message (utils_room_message srm) = srm"
  "consumer_dm (consumer_serializable_dm dm) = dm" "consumer_serializable_dm (consumer_dm sdm) = sdm"
  "consumer_room (consumer_serializable_room crm) = crm" "consumer_serializable_room (consumer_room csrm) = csrm"
  by (simp_all add: utils_room_message_def serializable_room_message_def consumer_dm_def consumer_serializable_dm_def
      consumer_room_def consumer_serializable_room_def)

end
