(* ===== verification/Socket_Addr.thy ===== *)
theory Socket_Addr
  imports Number_Text
begin

text \<open>
  Socket addresses as text: \<^verbatim>\<open>SocketAddr::from_str\<close> of the standard library (\<^verbatim>\<open>core::net::parser\<close>), which
  three of the services run on the value of \<^verbatim>\<open>GRPC_ADDR\<close> when they start.

  A reader takes the rest of the input and gives a value and what is left, or \<^const>\<open>None\<close>; a caller
  that tries something else goes on from the input it had, as \<^verbatim>\<open>read_atomically\<close> does.
\<close>

type_synonym 'a reader = "string \<Rightarrow> ('a \<times> string) option"

datatype SocketAddr =
    V4 "u8 list" u16
  | V6 "u16 list" u16 u32

section \<open>Readers\<close>

definition and_read :: "'a reader \<Rightarrow> ('a \<Rightarrow> 'b reader) \<Rightarrow> 'b reader" where
  "and_read p f s = (case p s of None \<Rightarrow> None | Some (a, r) \<Rightarrow> f a r)"

fun read_given_char :: "char \<Rightarrow> unit reader" where
  "read_given_char c [] = None"
| "read_given_char c (d # s) = (if d = c then Some ((), s) else None)"

definition read_separator :: "char \<Rightarrow> nat \<Rightarrow> 'a reader \<Rightarrow> 'a reader" where
  "read_separator sep i p = (if i > 0 then and_read (read_given_char sep) (\<lambda>_. p) else p)"

fun read_digits :: "nat \<Rightarrow> string \<Rightarrow> nat list \<times> string" where
  "read_digits radix [] = ([], [])"
| "read_digits radix (c # s) =
     (case to_digit radix c of
        None \<Rightarrow> ([], c # s)
      | Some d \<Rightarrow> (let (ds, r) = read_digits radix s in (d # ds, r)))"

text \<open>
  \<open>hi\<close> is the greatest value of the type that is read. The source multiplies and adds with overflow
  checks when there is no bound on the digits; as the value only grows, this is the check at the end.
\<close>

definition read_number :: "nat \<Rightarrow> nat option \<Rightarrow> bool \<Rightarrow> int \<Rightarrow> int reader" where
  "read_number radix max_digits allow_zero_prefix hi s =
     (let (ds, r) = read_digits radix s;
          v = foldl (\<lambda>a d. int radix * a + int d) 0 ds
      in if (case max_digits of None \<Rightarrow> False | Some k \<Rightarrow> k < length ds) then None
         else if ds = [] then None
         else if \<not> allow_zero_prefix \<and> hd ds = 0 \<and> 1 < length ds then None
         else if v \<le> hi then Some (v, r) else None)"

section \<open>Addresses\<close>

text \<open>The loop over the four groups; \<open>n\<close> groups are left and \<open>i\<close> are read.\<close>

fun read_v4_groups :: "nat \<Rightarrow> nat \<Rightarrow> int list reader" where
  "read_v4_groups 0 i s = Some ([], s)"
| "read_v4_groups (Suc n) i s =
     (case read_separator (CHR ''.'') i (read_number 10 (Some 3) False 255) s of
        None \<Rightarrow> None
      | Some (g, r) \<Rightarrow> map_option (\<lambda>(gs, r'). (g # gs, r')) (read_v4_groups n (Suc i) r))"

definition read_ipv4_addr :: "int list reader" where
  "read_ipv4_addr = read_v4_groups 4 0"

text \<open>
  A chunk of an IPv6 address: at most \<open>n\<close> more groups after \<open>i\<close> have been read, and whether it ended in an
  embedded IPv4 address, which needs room for two groups.
\<close>

fun read_groups :: "nat \<Rightarrow> nat \<Rightarrow> string \<Rightarrow> (int list \<times> bool) \<times> string" where
  "read_groups 0 i s = (([], False), s)"
| "read_groups (Suc n) i s =
     (case (if n > 0 then read_separator (CHR '':'') i read_ipv4_addr s else None) of
        Some (v4, r) \<Rightarrow> (([v4 ! 0 * 256 + v4 ! 1, v4 ! 2 * 256 + v4 ! 3], True), r)
      | None \<Rightarrow>
          (case read_separator (CHR '':'') i (read_number 16 (Some 4) True 65535) s of
             None \<Rightarrow> (([], False), s)
           | Some (g, r) \<Rightarrow> (let ((gs, v4), r') = read_groups n (Suc i) r in ((g # gs, v4), r'))))"

definition read_ipv6_addr :: "int list reader" where
  "read_ipv6_addr s =
     (let ((head, head_ipv4), r) = read_groups 8 0 s
      in if length head = 8 then Some (head, r)
         else if head_ipv4 then None
         else and_read (read_given_char (CHR '':'')) (\<lambda>_. and_read (read_given_char (CHR '':'')) (\<lambda>_ r.
           let ((tail, _), r') = read_groups (8 - (length head + 1)) 0 r
           in Some (head @ replicate (8 - length head - length tail) 0 @ tail, r'))) r)"

definition read_port :: "int reader" where
  "read_port = and_read (read_given_char (CHR '':'')) (\<lambda>_. read_number 10 None True 65535)"

definition read_scope_id :: "int reader" where
  "read_scope_id = and_read (read_given_char (CHR ''%'')) (\<lambda>_. read_number 10 None True 4294967295)"

definition read_socket_addr_v4 :: "SocketAddr reader" where
  "read_socket_addr_v4 = and_read read_ipv4_addr (\<lambda>ip. and_read read_port (\<lambda>port r. Some (V4 (map of_int ip) (of_int port), r)))"

definition read_socket_addr_v6 :: "SocketAddr reader" where
  "read_socket_addr_v6 =
     and_read (read_given_char (CHR ''['')) (\<lambda>_. and_read read_ipv6_addr (\<lambda>ip r.
       let (scope, r) = (case read_scope_id r of None \<Rightarrow> (0, r) | Some x \<Rightarrow> x)
       in and_read (read_given_char (CHR '']'')) (\<lambda>_. and_read read_port (\<lambda>port r.
            Some (V6 (map of_int ip) (of_int port) (of_int scope), r))) r))"

definition read_socket_addr :: "SocketAddr reader" where
  "read_socket_addr s = (case read_socket_addr_v4 s of Some x \<Rightarrow> Some x | None \<Rightarrow> read_socket_addr_v6 s)"

text \<open>\<^verbatim>\<open>from_str\<close>: the whole input has to be read.\<close>

definition parse_socket_addr :: "string \<Rightarrow> (string, SocketAddr) result" where
  "parse_socket_addr s =
     (case read_socket_addr s of
        Some (a, []) \<Rightarrow> Inr a
      | _ \<Rightarrow> Inl ''invalid socket address syntax'')"

section \<open>Printing\<close>

text \<open>\<^verbatim>\<open>Display\<close> of an address with four octets.\<close>

fun show_socket_addr_v4 :: "u8 \<Rightarrow> u8 \<Rightarrow> u8 \<Rightarrow> u8 \<Rightarrow> u16 \<Rightarrow> string" where
  "show_socket_addr_v4 a b c d port =
     show_nat (unat a) @ ''.'' @ show_nat (unat b) @ ''.'' @ show_nat (unat c) @ ''.'' @ show_nat (unat d) @ '':'' @ show_nat (unat port)"

text \<open>The digits a reader takes off a printed number, and what is left.\<close>

lemma read_digits_value:
  assumes "digits_value radix a s = Some n" and "rest = [] \<or> to_digit radix (hd rest) = None"
  shows "\<exists>ds. read_digits radix (s @ rest) = (ds, rest) \<and> length ds = length s \<and>
    foldl (\<lambda>a d. int radix * a + int d) (int a) ds = int n \<and> (s \<noteq> [] \<longrightarrow> to_digit radix (hd s) = Some (hd ds))"
  using assms
proof (induction s arbitrary: a)
  case Nil
  then show ?case by (cases rest) auto
next
  case (Cons c s)
  then obtain d where d: "to_digit radix c = Some d" "digits_value radix (radix * a + d) s = Some n"
    by (auto split: option.splits)
  from Cons.IH [OF d(2) Cons.prems(2)] d(1) show ?case by auto
qed

lemma show_nat_lead: "10 \<le> n \<Longrightarrow> to_digit 10 (hd (show_nat n)) \<noteq> Some 0"
proof (induction n rule: show_nat.induct)
  case (1 n)
  have "show_nat n = show_nat (n div 10) @ [digit_char (n mod 10)]" using "1.prems" by (simp add: show_nat.simps [of n])
  then show ?case
    using 1 by (cases "n div 10 < 10") (auto simp: show_nat.simps [of "n div 10"])
qed

lemma length_show_nat: "n < 10 ^ Suc k \<Longrightarrow> length (show_nat n) \<le> Suc k"
proof (induction k arbitrary: n)
  case (Suc k)
  then show ?case
    using Suc.IH [of "n div 10"] by (subst show_nat.simps) (auto simp: less_mult_imp_div_less)
qed (simp add: show_nat.simps)

lemma read_show_nat:
  assumes "rest = [] \<or> to_digit 10 (hd rest) = None" and "int n \<le> hi" and "\<forall>k \<in> set_option m. length (show_nat n) \<le> k"
  shows "read_number 10 m z hi (show_nat n @ rest) = Some (int n, rest)"
proof -
  obtain ds where ds: "read_digits 10 (show_nat n @ rest) = (ds, rest)" "length ds = length (show_nat n)"
    "foldl (\<lambda>a d. int 10 * a + int d) (int 0) ds = int n" "to_digit 10 (hd (show_nat n)) = Some (hd ds)"
    using read_digits_value [OF digits_show_nat [of n] assms(1)] by auto
  have "n < 10 \<or> hd ds \<noteq> 0" using show_nat_lead [of n] ds(4) by (cases "n < 10") auto
  moreover have "length (show_nat n) \<le> 1" if "n < 10" using length_show_nat [of n 0] that by simp
  moreover have "ds \<noteq> []" using ds(2) by auto
  ultimately show ?thesis using ds assms(2,3) by (auto simp: read_number_def Let_def split: option.splits)
qed

lemma to_digit_punctuation [simp]: "to_digit 10 CHR ''.'' = None" "to_digit 10 CHR '':'' = None"
  by (simp_all add: to_digit_def char_code_def)

lemma read_octet [simp]:
  assumes "to_digit 10 c = None"
  shows "read_number 10 (Some 3) False 255 (show_nat (unat (a :: u8)) @ c # rest) = Some (uint a, c # rest)"
proof -
  have "unat a < 256" "uint a \<le> 255" using unat_u8 [of a] unsigned_less [of a, where ?'a = int] by simp_all
  then show ?thesis using read_show_nat [of "c # rest" "unat a" 255 "Some 3" False] assms length_show_nat [of "unat a" 2] by simp
qed

lemma read_port_number [simp]:
  "read_number 10 None True 65535 (show_nat (unat (p :: u16))) = Some (uint p, [])"
proof -
  have "uint p \<le> 65535" using unsigned_less [of p, where ?'a = int] by simp
  then show ?thesis using read_show_nat [of "[]" "unat p" 65535 None True] by simp
qed

lemma read_v4_groups_four: "read_v4_groups 4 0 = read_v4_groups (Suc (Suc (Suc (Suc 0)))) 0"
  by (simp add: numeral_eq_Suc)

lemma parse_show_socket_addr: "parse_socket_addr (show_socket_addr_v4 a b c d port) = Inr (V4 [a, b, c, d] port)"
proof -
  have "read_ipv4_addr (show_socket_addr_v4 a b c d port) =
      Some ([uint a, uint b, uint c, uint d], CHR '':'' # show_nat (unat port))"
    by (simp add: read_ipv4_addr_def read_v4_groups_four read_separator_def and_read_def)
  then show ?thesis
    by (simp add: parse_socket_addr_def read_socket_addr_def read_socket_addr_v4_def and_read_def read_port_def)
qed

text \<open>
  The values the repository ships are read; a host name, an address without a port, a port above
  65535, trailing blanks, octal digits and an IPv6 address without brackets are not.
\<close>

lemma shipped_addresses:
  "parse_socket_addr ''127.0.0.1:50051'' = Inr (V4 [127, 0, 0, 1] 50051)"
  "parse_socket_addr ''[::]:50052'' = Inr (V6 [0, 0, 0, 0, 0, 0, 0, 0] 50052 0)"
  "list_all (\<lambda>s. \<not> is_ok (parse_socket_addr s))
     [''localhost:50051'', ''127.0.0.1'', ''127.0.0.1:65536'', ''127.0.0.1:50051 '', ''127.0.0.01:80'', ''::1:80'']"
  by code_simp+

end
