(* ===== verification/User_Service.thy ===== *)
theory User_Service
  imports Prelude
begin

text \<open>
  \<^verbatim>\<open>user-service/src/main.rs\<close>: the users a user is matched with. The query is in the source; PostgreSQL and
  the crate \<^verbatim>\<open>sqlx\<close> are an argument, the function \<open>fetch_all\<close> that runs it for a user. \<open>answers\<close> states what the
  query means, with the three-valued logic of SQL, and that a null cannot be read as an \<^verbatim>\<open>i32\<close>. The
  table is not defined by the repository, so its columns may be null.
\<close>

section \<open>The query\<close>

record MatchRecord =
  male_id :: "i32 option"
  female_id :: "i32 option"
  match_status :: "string option"

record MatchRow =
  other_user_id :: i32

definition match_row :: "i32 \<Rightarrow> MatchRow" where
  "match_row i = \<lparr>other_user_id = i\<rparr>"

definition match_selected :: "i32 \<Rightarrow> MatchRecord \<Rightarrow> bool" where
  "match_selected u r \<longleftrightarrow> (male_id r = Some u \<or> female_id r = Some u) \<and> match_status r = Some ''ACCEPTED''"

definition other_of :: "i32 \<Rightarrow> MatchRecord \<Rightarrow> i32 option" where
  "other_of u r = (if male_id r = Some u then female_id r else male_id r)"

definition answers :: "(i32 \<Rightarrow> (string, MatchRow list) result) \<Rightarrow> MatchRecord list \<Rightarrow> bool" where
  "answers fetch_all rows \<longleftrightarrow> (\<forall>u. case those (map (other_of u) (filter (match_selected u) rows)) of
      Some ids \<Rightarrow> fetch_all u = Inr (map match_row ids)
    | None \<Rightarrow> \<not> is_ok (fetch_all u))"

section \<open>The service\<close>

text \<open>\<^const>\<open>Inl\<close> is the message of the status \<^verbatim>\<open>internal\<close>.\<close>

definition get_matched_users :: "(i32 \<Rightarrow> (string, MatchRow list) result) \<Rightarrow> i32 \<Rightarrow> (string, i32 list) result" where
  "get_matched_users fetch_all user_id =
     (case fetch_all user_id of
        Inl e \<Rightarrow> Inl (''Database error: '' @ e)
      | Inr rows \<Rightarrow> Inr (map other_user_id rows))"

section \<open>Properties\<close>

lemma other_match_row [simp]: "other_user_id (match_row i) = i" "map (other_user_id \<circ> match_row) ids = ids"
  by (simp_all add: match_row_def comp_def)

lemma set_those: "those xs = Some ys \<Longrightarrow> set xs = Some ` set ys"
  by (induction xs arbitrary: ys) (auto split: option.splits)

lemma those_None: "those xs = None \<longleftrightarrow> None \<in> set xs"
  by (induction xs) (auto split: option.splits)

definition accepted_pair :: "MatchRecord list \<Rightarrow> i32 \<Rightarrow> i32 \<Rightarrow> bool" where
  "accepted_pair rows u v \<longleftrightarrow> (\<exists>r \<in> set rows. match_status r = Some ''ACCEPTED'' \<and>
     (male_id r = Some u \<and> female_id r = Some v \<or> male_id r = Some v \<and> female_id r = Some u))"

lemma matched_ids:
  assumes "answers fetch_all rows" and "get_matched_users fetch_all u = Inr ids"
  shows "v \<in> set ids \<longleftrightarrow> accepted_pair rows u v"
proof -
  have "those (map (other_of u) (filter (match_selected u) rows)) = Some ids"
    using assms by (auto simp: answers_def get_matched_users_def dest!: spec [of _ u] split: option.splits sum.splits)
  from set_those [OF this] have "v \<in> set ids \<longleftrightarrow> Some v \<in> other_of u ` set (filter (match_selected u) rows)"
    by auto
  then show ?thesis by (force simp: accepted_pair_def other_of_def match_selected_def split: if_splits)
qed

text \<open>
  C38. The users reported for a user are exactly those with an accepted match with it, in either
  role, and matching is symmetric: when both queries are answered, a user is reported for another
  if and only if the other is reported for it. The query fails only when an accepted match of the
  user has no second user.
\<close>

theorem matched_users_exact:
  assumes "answers fetch_all rows"
  shows "(\<forall>ids. get_matched_users fetch_all u = Inr ids \<longrightarrow> (\<forall>v. v \<in> set ids \<longleftrightarrow> accepted_pair rows u v)) \<and>
    (\<forall>ids ids'. get_matched_users fetch_all u = Inr ids \<longrightarrow> get_matched_users fetch_all v = Inr ids' \<longrightarrow>
       (v \<in> set ids \<longleftrightarrow> u \<in> set ids')) \<and>
    (is_ok (get_matched_users fetch_all u) \<longleftrightarrow>
       (\<forall>r \<in> set rows. match_selected u r \<longrightarrow> male_id r \<noteq> None \<and> female_id r \<noteq> None))"
proof (intro conjI)
  show "\<forall>ids. get_matched_users fetch_all u = Inr ids \<longrightarrow> (\<forall>v. v \<in> set ids \<longleftrightarrow> accepted_pair rows u v)"
    using matched_ids [OF assms] by blast
  have "accepted_pair rows u v \<longleftrightarrow> accepted_pair rows v u" by (auto simp: accepted_pair_def)
  then show "\<forall>ids ids'. get_matched_users fetch_all u = Inr ids \<longrightarrow> get_matched_users fetch_all v = Inr ids' \<longrightarrow>
       (v \<in> set ids \<longleftrightarrow> u \<in> set ids')"
    using matched_ids [OF assms] by blast
  have "is_ok (get_matched_users fetch_all u) \<longleftrightarrow> those (map (other_of u) (filter (match_selected u) rows)) \<noteq> None"
    using assms by (auto simp: answers_def get_matched_users_def dest!: spec [of _ u] split: option.splits sum.splits)
  also have "\<dots> \<longleftrightarrow> (\<forall>r \<in> set rows. match_selected u r \<longrightarrow> other_of u r \<noteq> None)"
    unfolding those_None by force
  also have "\<dots> \<longleftrightarrow> (\<forall>r \<in> set rows. match_selected u r \<longrightarrow> male_id r \<noteq> None \<and> female_id r \<noteq> None)"
    by (intro ball_cong imp_cong refl) (auto simp: match_selected_def other_of_def split: if_splits)
  finally show "is_ok (get_matched_users fetch_all u) \<longleftrightarrow>
       (\<forall>r \<in> set rows. match_selected u r \<longrightarrow> male_id r \<noteq> None \<and> female_id r \<noteq> None)" .
qed

definition example_matches :: "MatchRecord list" where
  "example_matches = [\<lparr>male_id = Some 1, female_id = Some 2, match_status = Some ''ACCEPTED''\<rparr>,
     \<lparr>male_id = Some 1, female_id = Some 3, match_status = Some ''PENDING''\<rparr>]"

definition table_fetch :: "MatchRecord list \<Rightarrow> i32 \<Rightarrow> (string, MatchRow list) result" where
  "table_fetch rows u = (case those (map (other_of u) (filter (match_selected u) rows)) of
      Some ids \<Rightarrow> Inr (map match_row ids) | None \<Rightarrow> Inl ''unexpected null'')"

lemma table_fetch_answers: "answers (table_fetch rows) rows"
  by (simp add: answers_def table_fetch_def split: option.splits)

theorem matched_users_exact_witness:
  "get_matched_users (table_fetch example_matches) 1 = Inr [2] \<and> accepted_pair example_matches 1 2 \<and>
   \<not> accepted_pair example_matches 1 3"
proof -
  have "get_matched_users (table_fetch example_matches) 1 = Inr [2]"
    by (simp add: get_matched_users_def table_fetch_def example_matches_def match_selected_def other_of_def)
  moreover have "(3 :: i32) \<noteq> 2" by simp
  ultimately show ?thesis using matched_users_exact [OF table_fetch_answers, of example_matches 1 2] by (metis list.set_intros(1) empty_iff set_ConsD list.set(1))
qed

end
