(* ===== verification/Process_Start.thy ===== *)
theory Process_Start
  imports Socket_Addr Migrations Auth_Service User_Service
begin

text \<open>
  The \<^verbatim>\<open>main\<close> functions of the chat, auth and user services up to the point where they serve requests
  (that of the gateway is in \<open>Gateway\<close>).

  \<open>var\<close> reads the environment (\<^const>\<open>None\<close>: the variable is not set). The crates are arguments: \<open>connect\<close> opens
  a database, \<open>open_redis\<close> a Redis client, \<open>parse_header\<close> is \<^verbatim>\<open>HeaderValue::from_str\<close>, \<open>allow_origin\<close> is
  \<^verbatim>\<open>CorsLayer::allow_origin\<close> (\<^const>\<open>None\<close>: it panics, as it does for a wildcard), and \<open>bind\<close> opens a listener.
  Logging is left out.
\<close>

section \<open>How a service starts\<close>

text \<open>The message of a panic is the one given to \<^verbatim>\<open>expect\<close>, and empty for \<^verbatim>\<open>unwrap\<close>.\<close>

datatype 's Exit = Panicked string | ExitErr string | Serving 's

datatype GrpcService = HealthService | ChatService | AuthService | UserService

record GrpcServer =
  listen :: SocketAddr
  services :: "GrpcService list"
  reported_serving :: "GrpcService list"

definition not_present :: string where
  "not_present = ''environment variable not found''"

definition var_or :: "(string \<rightharpoonup> string) \<Rightarrow> string \<Rightarrow> string \<Rightarrow> string" where
  "var_or var name dflt = (case var name of None \<Rightarrow> dflt | Some v \<Rightarrow> v)"

section \<open>The user service\<close>

record 'db AppState =
  app_db :: 'db

definition user_main ::
  "(string \<rightharpoonup> string) \<Rightarrow> ('w \<Rightarrow> string \<Rightarrow> 'w \<times> (string, 'db) result) \<Rightarrow> ('w \<Rightarrow> SocketAddr \<Rightarrow> 'w \<times> (string, unit) result) \<Rightarrow>
   'w \<Rightarrow> 'w \<times> ('db AppState \<times> GrpcServer) Exit" where
  "user_main var connect bind w =
     (case var ''GRPC_ADDR'' of
        None \<Rightarrow> (w, ExitErr not_present)
      | Some text \<Rightarrow>
          (case parse_socket_addr text of
             Inl e \<Rightarrow> (w, ExitErr e)
           | Inr grpc_addr \<Rightarrow>
               (case var ''DATABASE_URL'' of
                  None \<Rightarrow> (w, Panicked ''DATABASE_URL must be set'')
                | Some db_url \<Rightarrow>
                    (case connect w db_url of
                       (w, Inl e) \<Rightarrow> (w, ExitErr e)
                     | (w, Inr pg) \<Rightarrow>
                         (case bind w grpc_addr of
                            (w, Inl e) \<Rightarrow> (w, ExitErr e)
                          | (w, Inr _) \<Rightarrow>
                              (w, Serving (\<lparr>app_db = pg\<rparr>,
                                 \<lparr>listen = grpc_addr, services = [HealthService, UserService],
                                  reported_serving = [UserService]\<rparr>)))))))"

section \<open>The chat service\<close>

text \<open>For the default build; the publishers of the feature \<^verbatim>\<open>rabbit\<close> are in \<open>Rabbit\<close>.\<close>

record ('w, 'r, 'rows, 'p) ChatServiceImpl =
  impl_session :: "('w, 'r, 'rows, 'p) Session"
  impl_queries :: 'p

definition chat_service_new :: "('w, 'r, 'rows, 'p) Session \<Rightarrow> 'p \<Rightarrow> ('w, 'r, 'rows, 'p) ChatServiceImpl" where
  "chat_service_new s q = \<lparr>impl_session = s, impl_queries = q\<rparr>"

definition chat_main ::
  "(string \<rightharpoonup> string) \<Rightarrow> ('w, 'r, 'rows, 'p) connector \<Rightarrow> ('w \<Rightarrow> SocketAddr \<Rightarrow> 'w \<times> (string, unit) result) \<Rightarrow>
   'w \<Rightarrow> 'w \<times> (('w, 'r, 'rows, 'p) ChatServiceImpl \<times> GrpcServer) Exit" where
  "chat_main var connect bind w =
     (let scylla_host = var_or var ''SCYLLA_HOST'' ''127.0.0.1:9042''
      in case var ''GRPC_ADDR'' of
           None \<Rightarrow> (w, ExitErr not_present)
         | Some grpc_addr \<Rightarrow>
             (case service_start connect w scylla_host of
                (w, Inl e) \<Rightarrow> (w, ExitErr e)
              | (w, Inr (s, q)) \<Rightarrow>
                  (case parse_socket_addr grpc_addr of
                     Inl e \<Rightarrow> (w, ExitErr e)
                   | Inr addr \<Rightarrow>
                       (case bind w addr of
                          (w, Inl e) \<Rightarrow> (w, ExitErr e)
                        | (w, Inr _) \<Rightarrow>
                            (w, Serving (chat_service_new s q,
                               \<lparr>listen = addr, services = [HealthService, ChatService],
                                reported_serving = [ChatService]\<rparr>))))))"

section \<open>Trimming\<close>

text \<open>The characters with the property \<^verbatim>\<open>White_Space\<close>, as their UTF-8 bytes.\<close>

definition white_space_bytes :: "nat list list" where
  "white_space_bytes =
     map (\<lambda>c. [c]) [9, 10, 11, 12, 13, 32] @ [[194, 133], [194, 160], [225, 154, 128]] @
     map (\<lambda>c. [226, 128, c]) ([128..<139] @ [168, 169, 175]) @ [[226, 129, 159], [227, 128, 128]]"

definition strip_any :: "nat list list \<Rightarrow> nat list \<Rightarrow> nat list option" where
  "strip_any encs s = map_option (\<lambda>e. drop (length e) s) (find (\<lambda>e. take (length e) s = e) encs)"

function trim_front :: "nat list list \<Rightarrow> nat list \<Rightarrow> nat list" where
  "trim_front encs s =
     (case strip_any encs s of
        Some r \<Rightarrow> if length r < length s then trim_front encs r else s
      | None \<Rightarrow> s)"
  by pat_completeness auto
termination by (relation "measure (\<lambda>(encs, s). length s)") auto

declare trim_front.simps [simp del]

text \<open>\<^verbatim>\<open>str::trim\<close>: at the end, the same with everything reversed.\<close>

definition trim :: "string \<Rightarrow> string" where
  "trim s = map char_of (rev (trim_front (map rev white_space_bytes) (rev (trim_front white_space_bytes (map of_char s)))))"

section \<open>The auth service\<close>

definition start_grpc_server ::
  "('w \<Rightarrow> SocketAddr \<Rightarrow> 'w \<times> (string, unit) result) \<Rightarrow> 'w \<Rightarrow> SocketAddr \<Rightarrow> 'w \<times> (string, GrpcServer) result" where
  "start_grpc_server bind w addr =
     and_then (bind w addr) (\<lambda>w _. (w, Inr \<lparr>listen = addr, services = [AuthService], reported_serving = []\<rparr>))"

datatype Method = GET | POST

datatype AuthHandler = GenerateTenant | GenerateUserToken | VerifyUserToken

definition auth_routes :: "(string \<times> Method \<times> AuthHandler) list" where
  "auth_routes =
     [(''/generate-tenant'', GET, GenerateTenant), (''/generate-user-token'', POST, GenerateUserToken),
      (''/verify-user-token'', POST, VerifyUserToken)]"

text \<open>\<open>grpc_task\<close> is the address the spawned \<^verbatim>\<open>start_grpc_server\<close> gets; its failure is only logged.\<close>

record ('db, 'redis, 'cors) AuthProcess =
  auth_pool :: 'db
  auth_redis :: 'redis
  grpc_task :: SocketAddr
  google_client_id :: "string option"
  cors_layer :: 'cors
  http_routes :: "(string \<times> Method \<times> AuthHandler) list"
  http_listen :: string

definition allowed_origins :: "(string \<Rightarrow> 'h option) \<Rightarrow> string \<Rightarrow> 'h list option" where
  "allowed_origins parse_header origins_raw = those (map (\<lambda>s. parse_header (trim s)) (split_on (CHR '','') origins_raw))"

definition auth_main ::
  "(string \<rightharpoonup> string) \<Rightarrow> ('w \<Rightarrow> string \<Rightarrow> 'w \<times> (string, 'db) result) \<Rightarrow> (string \<Rightarrow> (string, 'redis) result) \<Rightarrow>
   (string \<Rightarrow> 'h option) \<Rightarrow> ('h list \<Rightarrow> 'cors option) \<Rightarrow> ('w \<Rightarrow> string \<Rightarrow> 'w \<times> (string, unit) result) \<Rightarrow>
   'w \<Rightarrow> 'w \<times> ('db, 'redis, 'cors) AuthProcess Exit" where
  "auth_main var connect open_redis parse_header allow_origin bind w =
     (case var ''DATABASE_URL'' of
        None \<Rightarrow> (w, Panicked ''DATABASE_URL must be set in .env file'')
      | Some database_url \<Rightarrow>
          (case connect w database_url of
             (w, Inl e) \<Rightarrow> (w, ExitErr e)
           | (w, Inr pg) \<Rightarrow>
               (case open_redis (var_or var ''REDIS_URL'' ''redis://127.0.0.1:6379'') of
                  Inl e \<Rightarrow> (w, ExitErr e)
                | Inr redis \<Rightarrow>
                    (case parse_socket_addr (var_or var ''GRPC_ADDR'' ''127.0.0.1:50051'') of
                       Inl e \<Rightarrow> (w, ExitErr e)
                     | Inr grpc_addr \<Rightarrow>
                         (case allowed_origins parse_header (var_or var ''ALLOWED_ORIGINS'' ''https://docs.mutref.tech'') of
                            None \<Rightarrow> (w, Panicked ''invalid origin in ALLOWED_ORIGINS'')
                          | Some origins \<Rightarrow>
                              (case allow_origin origins of
                                 None \<Rightarrow> (w, Panicked [])
                               | Some layer \<Rightarrow>
                                   (case bind w ''0.0.0.0:3004'' of
                                      (w, Inl e) \<Rightarrow> (w, Panicked [])
                                    | (w, Inr _) \<Rightarrow>
                                        (w, Serving \<lparr>auth_pool = pg, auth_redis = redis, grpc_task = grpc_addr,
                                           google_client_id = var ''GOOGLE_CLIENT_ID'', cors_layer = layer,
                                           http_routes = auth_routes, http_listen = ''0.0.0.0:3004''\<rparr>))))))))"

section \<open>What a service needs to start\<close>

lemma user_serves_iff:
  "user_main var connect bind w = (w', Serving (app, server)) \<longleftrightarrow>
   (\<exists>text addr url w1 pg. var ''GRPC_ADDR'' = Some text \<and> parse_socket_addr text = Inr addr \<and>
      var ''DATABASE_URL'' = Some url \<and> connect w url = (w1, Inr pg) \<and> bind w1 addr = (w', Inr ()) \<and>
      app = \<lparr>app_db = pg\<rparr> \<and>
      server = \<lparr>listen = addr, services = [HealthService, UserService], reported_serving = [UserService]\<rparr>)"
  by (auto simp: user_main_def split: option.splits sum.splits prod.splits)

lemma chat_serves_iff:
  "chat_main var connect bind w = (w', Serving (impl, server)) \<longleftrightarrow>
   (\<exists>text addr w1 s q. var ''GRPC_ADDR'' = Some text \<and>
      service_start connect w (var_or var ''SCYLLA_HOST'' ''127.0.0.1:9042'') = (w1, Inr (s, q)) \<and>
      parse_socket_addr text = Inr addr \<and> bind w1 addr = (w', Inr ()) \<and> impl = \<lparr>impl_session = s, impl_queries = q\<rparr> \<and>
      server = \<lparr>listen = addr, services = [HealthService, ChatService], reported_serving = [ChatService]\<rparr>)"
  by (auto simp: chat_main_def chat_service_new_def Let_def split: option.splits sum.splits prod.splits)

lemma auth_serves_iff:
  "auth_main var connect open_redis parse_header allow_origin bind w = (w', Serving p) \<longleftrightarrow>
   (\<exists>url w1 pg redis addr origins layer. var ''DATABASE_URL'' = Some url \<and> connect w url = (w1, Inr pg) \<and>
      open_redis (var_or var ''REDIS_URL'' ''redis://127.0.0.1:6379'') = Inr redis \<and>
      parse_socket_addr (var_or var ''GRPC_ADDR'' ''127.0.0.1:50051'') = Inr addr \<and>
      allowed_origins parse_header (var_or var ''ALLOWED_ORIGINS'' ''https://docs.mutref.tech'') = Some origins \<and>
      allow_origin origins = Some layer \<and> bind w1 ''0.0.0.0:3004'' = (w', Inr ()) \<and>
      p = \<lparr>auth_pool = pg, auth_redis = redis, grpc_task = addr, google_client_id = var ''GOOGLE_CLIENT_ID'',
           cors_layer = layer, http_routes = auth_routes, http_listen = ''0.0.0.0:3004''\<rparr>)"
  by (auto simp: auth_main_def split: option.splits sum.splits prod.splits)

text \<open>The auth service registers no health service, so a gRPC health probe of it is never answered.\<close>

lemma auth_grpc_no_health:
  "start_grpc_server bind w addr = (w', Inr server) \<Longrightarrow> listen server = addr \<and> HealthService \<notin> set (services server)"
  by (auto simp: start_grpc_server_def and_then_def split: prod.splits sum.splits)

section \<open>Trimming and the allowed origins\<close>

lemma strip_blank [simp]:
  "strip_any white_space_bytes (32 # s) = Some s" "strip_any (map rev white_space_bytes) (32 # s) = Some s"
  by (simp_all add: strip_any_def white_space_bytes_def)

lemma trim_front_blanks:
  assumes "encs \<in> {white_space_bytes, map rev white_space_bytes}"
  shows "trim_front encs (replicate n 32 @ s) = trim_front encs s"
proof (induction n)
  case (Suc n)
  have "strip_any encs (32 # replicate n 32 @ s) = Some (replicate n 32 @ s)" using assms by auto
  then show ?case using Suc.IH by (simp add: trim_front.simps [of encs "32 # replicate n 32 @ s"])
qed simp

lemma white_space_blank: "e \<in> set white_space_bytes \<Longrightarrow> 32 \<in> set e \<Longrightarrow> e = [32]"
  by (auto simp: white_space_bytes_def)

lemma strip_any_None: "strip_any encs s = None \<longleftrightarrow> (\<forall>e \<in> set encs. take (length e) s \<noteq> e)"
  by (auto simp: strip_any_def find_None_iff)

lemma strip_any_None_blanks:
  assumes "strip_any white_space_bytes s = None" and "s \<noteq> []"
  shows "strip_any white_space_bytes (s @ replicate n 32) = None"
proof -
  have "take (length e) (s @ replicate n 32) \<noteq> e" if e: "e \<in> set white_space_bytes" for e
  proof
    assume *: "take (length e) (s @ replicate n 32) = e"
    show False
    proof (cases "length e \<le> length s")
      case True
      then show False using * e assms(1) by (simp add: strip_any_None)
    next
      case False
      then have e': "e = s @ replicate (min (length e - length s) n) 32" using * by (simp add: take_replicate)
      have "replicate (min (length e - length s) n) (32 :: nat) \<noteq> []" using e' False by (metis append_Nil2 order_refl)
      then have "32 \<in> set e" by (subst e') (simp add: in_set_replicate)
      then have "e = [32]" by (rule white_space_blank [OF e])
      then show False using False assms(2) by (cases s) auto
    qed
  qed
  then show ?thesis by (simp add: strip_any_None)
qed

text \<open>A text that neither begins nor ends with white space, with any number of blanks around it.\<close>

definition trimmed :: "string \<Rightarrow> bool" where
  "trimmed s \<longleftrightarrow> s \<noteq> [] \<and> strip_any white_space_bytes (map of_char s) = None \<and>
     strip_any (map rev white_space_bytes) (rev (map of_char s)) = None"

lemma trim_front_None: "strip_any encs s = None \<Longrightarrow> trim_front encs s = s"
  by (simp add: trim_front.simps [of encs s])

lemma trim_padded:
  assumes "trimmed s"
  shows "trim (replicate m (CHR '' '') @ s @ replicate n (CHR '' '')) = s"
proof -
  let ?b = "map of_char s :: nat list"
  have b: "map of_char (replicate m (CHR '' '') @ s @ replicate n (CHR '' '')) = replicate m 32 @ ?b @ replicate n (32 :: nat)"
    by simp
  have "trim_front white_space_bytes (replicate m 32 @ ?b @ replicate n 32) = ?b @ replicate n 32"
    using assms strip_any_None_blanks [of ?b n] by (simp add: trim_front_blanks trim_front_None trimmed_def)
  moreover have "trim_front (map rev white_space_bytes) (rev (?b @ replicate n 32)) = rev ?b"
    using assms by (simp add: trim_front_blanks trim_front_None trimmed_def)
  ultimately show ?thesis by (simp add: trim_def b comp_def del: map_append)
qed

section \<open>Properties\<close>

text \<open>
  The allowed origins are read as they are listed: a value of \<^verbatim>\<open>ALLOWED_ORIGINS\<close> that lists origins
  between commas, with any number of blanks around each of them, gives exactly those origins in their
  order, and the service panics when one of them is not a header value.
\<close>

theorem allowed_origins_listed:
  assumes "xs \<noteq> []" and "list_all (\<lambda>(m, s, n). trimmed s \<and> CHR '','' \<notin> set s) xs"
  shows "allowed_origins parse_header
      (join_with (CHR '','') (map (\<lambda>(m, s, n). replicate m (CHR '' '') @ s @ replicate n (CHR '' '')) xs)) =
    those (map (\<lambda>(m, s, n). parse_header s) xs)"
proof -
  let ?pad = "\<lambda>(m, s, n). replicate m (CHR '' '') @ s @ replicate n (CHR '' '')"
  have "split_on (CHR '','') (join_with (CHR '','') (map ?pad xs)) = map ?pad xs"
    using assms by (intro split_join) (auto simp: list_all_iff)
  moreover have "map (\<lambda>s. parse_header (trim s)) (map ?pad xs) = map (\<lambda>(m, s, n). parse_header s) xs"
    using assms(2) by (auto simp: list_all_iff trim_padded)
  ultimately show ?thesis unfolding allowed_origins_def by (simp only:)
qed

theorem allowed_origins_listed_witness:
  "allowed_origins Some ''https://a, https://b '' = Some [''https://a'', ''https://b'']"
proof -
  have "list_all (\<lambda>(m, s, n). trimmed s \<and> CHR '','' \<notin> set s) [(0 :: nat, ''https://a'', 0 :: nat), (1, ''https://b'', 1)]"
    by code_simp
  from allowed_origins_listed [OF _ this, of Some] show ?thesis by simp
qed

text \<open>
  C37. The address of the configuration is the address that is served: when \<^verbatim>\<open>GRPC_ADDR\<close> is an IPv4 address
  with a port in the usual notation, a service that starts listens for gRPC on exactly this address;
  when it is not a socket address, none of the services starts, and the chat service
  finds out only after it has run its migrations.
\<close>

theorem configured_address_served:
  "(var ''GRPC_ADDR'' = Some (show_socket_addr_v4 a b c d port) \<longrightarrow>
      (\<forall>w' app server. user_main var connect bind w = (w', Serving (app, server)) \<longrightarrow> listen server = V4 [a, b, c, d] port) \<and>
      (\<forall>w' impl server. chat_main var connector bind v = (w', Serving (impl, server)) \<longrightarrow> listen server = V4 [a, b, c, d] port) \<and>
      (\<forall>w' p. auth_main var connect open_redis parse_header allow_origin bind_http w = (w', Serving p) \<longrightarrow>
         grpc_task p = V4 [a, b, c, d] port)) \<and>
   (var ''GRPC_ADDR'' = Some text \<longrightarrow> \<not> is_ok (parse_socket_addr text) \<longrightarrow>
      user_main var connect bind w = (w, ExitErr ''invalid socket address syntax'') \<and>
      (\<forall>w' p. auth_main var connect open_redis parse_header allow_origin bind_http w \<noteq> (w', Serving p)) \<and>
      (\<forall>w' s q. service_start connector v (var_or var ''SCYLLA_HOST'' ''127.0.0.1:9042'') = (w', Inr (s, q)) \<longrightarrow>
         chat_main var connector bind v = (w', ExitErr ''invalid socket address syntax'')))"
proof (intro conjI impI)
  assume "var ''GRPC_ADDR'' = Some (show_socket_addr_v4 a b c d port)"
  then show "\<forall>w' app server. user_main var connect bind w = (w', Serving (app, server)) \<longrightarrow> listen server = V4 [a, b, c, d] port"
    "\<forall>w' impl server. chat_main var connector bind v = (w', Serving (impl, server)) \<longrightarrow> listen server = V4 [a, b, c, d] port"
    "\<forall>w' p. auth_main var connect open_redis parse_header allow_origin bind_http w = (w', Serving p) \<longrightarrow>
         grpc_task p = V4 [a, b, c, d] port"
    using parse_show_socket_addr [of a b c d port]
    by (auto simp: user_serves_iff chat_serves_iff auth_serves_iff var_or_def simp del: show_socket_addr_v4.simps)
next
  assume g: "var ''GRPC_ADDR'' = Some text" "\<not> is_ok (parse_socket_addr text)"
  then have "parse_socket_addr text = Inl ''invalid socket address syntax''"
    by (auto simp: parse_socket_addr_def split: option.splits list.splits prod.splits)
  then show "user_main var connect bind w = (w, ExitErr ''invalid socket address syntax'')"
    "\<forall>w' p. auth_main var connect open_redis parse_header allow_origin bind_http w \<noteq> (w', Serving p)"
    "\<forall>w' s q. service_start connector v (var_or var ''SCYLLA_HOST'' ''127.0.0.1:9042'') = (w', Inr (s, q)) \<longrightarrow>
         chat_main var connector bind v = (w', ExitErr ''invalid socket address syntax'')"
    using g(1) by (auto simp: user_main_def chat_main_def auth_serves_iff var_or_def Let_def)
qed

theorem configured_address_served_witness:
  "\<exists>server. user_main (map_of [(''GRPC_ADDR'', ''10.0.0.1:80''), (''DATABASE_URL'', ''d'')])
      (\<lambda>w _. (w, Inr ())) (\<lambda>w _. (w, Inr ())) () = ((), Serving (\<lparr>app_db = ()\<rparr>, server)) \<and>
    listen server = V4 [10, 0, 0, 1] 80"
proof -
  let ?var = "map_of [(''GRPC_ADDR'', ''10.0.0.1:80''), (''DATABASE_URL'', ''d'')]"
  have addr: "?var ''GRPC_ADDR'' = Some (show_socket_addr_v4 10 0 0 1 80)" by code_simp
  have "is_ok (parse_socket_addr ''10.0.0.1:80'')" by code_simp
  then obtain server where u: "user_main ?var (\<lambda>w _. (w, Inr ())) (\<lambda>w _. (w, Inr ())) () = ((), Serving (\<lparr>app_db = ()\<rparr>, server))"
    by (auto simp: user_main_def is_ok_iff)
  have "listen server = V4 [10, 0, 0, 1] 80"
    by (rule configured_address_served [of ?var 10 0 0 1 80, THEN conjunct1, THEN mp, OF addr, THEN conjunct1, rule_format, OF u])
  with u show ?thesis by blast
qed

end
