(* ===== verification/Spec2Isabelle.thy ===== *)
theory Spec2Isabelle
  imports Deployment_Safety Chat_Start Gateway_Http Session_Outbox Rabbit Process_Start
begin

text \<open>
  \<^bold>\<open>A verification of PerOXO.\<close>

  PerOXO is a multi-tenant chat backend in Rust. Its parts and how they meet:

  \<^item> The \<^emph>\<open>gateway\<close> \<^verbatim>\<open>peroxo\<close> holds the WebSockets. A request for a socket carries a token, which the
    gateway has the auth service check (\<^verbatim>\<open>lib.rs\<close>); the socket is then served by a user session
    (\<^verbatim>\<open>actors/user_session\<close>) that registers with the one message router (\<^verbatim>\<open>actors/message_router\<close>). The
    router owns the table of connected users and spawns one room actor per room
    (\<^verbatim>\<open>actors/room_actor.rs\<close>). Messages are delivered through the channels in these tables and stored
    by spawned tasks through the persistence service (\<^verbatim>\<open>actors/persistance_actor\<close>).
  \<^item> The \<^emph>\<open>chat service\<close> \<^verbatim>\<open>chat-service\<close> is a gRPC server in front of ScyllaDB: it writes messages and
    answers pages of history, missed messages, and the conversation of two users.
  \<^item> The \<^emph>\<open>auth service\<close> \<^verbatim>\<open>auth-service\<close> creates tenants for Google users, issues user tokens to the
    holders of a tenant's secret key, and checks tokens for the gateway.
  \<^item> With the feature \<^verbatim>\<open>mongo_db\<close> the gateway stores direct messages in MongoDB instead. With the feature
    \<^verbatim>\<open>rabbit\<close> the chat service has publishers for two RabbitMQ queues, which the process \<^verbatim>\<open>rabbit_consumer\<close>
    writes to ScyllaDB. The \<^emph>\<open>user service\<close> \<^verbatim>\<open>user-service\<close> answers who is matched with a user.

  \<^bold>\<open>Theories and code.\<close> Sources are modelled as in the default build (feature \<^verbatim>\<open>persistence\<close> on,
  \<^verbatim>\<open>mongo_db\<close> and \<^verbatim>\<open>rabbit\<close> off), and what the two other features add in the theories \<open>Mongo\<close> and \<open>Rabbit\<close>.

  \<^item> \<open>Prelude\<close>: machine types, \<^verbatim>\<open>HashMap\<close>, \<^verbatim>\<open>Vec::retain\<close>, methods of \<^verbatim>\<open>str\<close>, results and their sequencing,
    the crate \<^verbatim>\<open>uuid\<close> as an argument.
  \<^item> \<open>Interfaces\<close>: the locales \<open>actor\<close>, \<open>growing_actor\<close>, \<open>registry\<close> and \<open>paged_source\<close>, with the lemmas
    that hold for every component that meets them.
  \<^item> \<open>Chat_Types\<close> (\<^verbatim>\<open>peroxo/src/tenant.rs\<close>, \<^verbatim>\<open>chat.rs\<close>, the messages of the actors) and \<open>Chat_Proto\<close>
    (\<^verbatim>\<open>chat_service.proto\<close>): the data.
  \<^item> \<open>Room_Actor\<close>, \<open>Message_Router\<close>, \<open>User_Session\<close>: the actors. A handler is a function from the state
    and a message to the new state and the list of its effects (sends, replies, spawned tasks) in
    program order; the loop of an actor is the fold of its step, and a panic is an error value.
    Spawned tasks are definitions of their own, from the outcome they await to their effects.
    \<open>room\<close> and \<open>router\<close> interpret \<open>growing_actor\<close>, \<open>room_members\<close> and \<open>router_users\<close> interpret \<open>registry\<close>.
  \<^item> \<open>Gateway_System\<close>: the actors together. A state holds the router with its mailbox, the sessions with
    their phase, the rooms with theirs, the spawned tasks and the answers of oneshot channels; a move
    is one turn of one task, by the definitions of the actors, and \<open>reachable\<close> closes the start under moves in any order.
    \<open>System_Provenance\<close> and \<open>System_Lifecycle\<close>: its two invariants. \<open>System_Progress\<close>: what they give.
    \<open>System_Order\<close>: what is delivered and in which order, against a sequential specification that replays the
    handled messages (\<open>spec_replay\<close>) and, per room, the handled posts. \<open>System_Acks\<close> and \<open>System_Answers\<close>:
    reply channels and acknowledgements. \<open>System_Reads\<close>: reads and their answers. \<open>System_Rooms\<close>: progress of the rooms.
    \<open>Session_Outbox\<close>: the bounded channel between the actors and a session's send task.
  \<^item> \<open>Persistence\<close>: the gateway's client of the chat service with its two retry loops, both
    interpretations of the locale \<open>retry_loop\<close>.
  \<^item> \<open>Cql\<close>: the syntax of the statements, the driver as an argument, and \<open>serves\<close>, the documented behaviour
    of a database that answers. \<open>Migrations\<close>: the tables and the start of the chat service.
    \<open>Chat_Queries\<close>: \<^verbatim>\<open>queries.rs\<close>. \<open>Chat_History\<close> and \<open>Chat_Writes\<close>: what its reads and writes do.
    \<open>Chat_Service\<close>: the gRPC handlers; \<open>dm_pages\<close> and \<open>room_pages\<close> interpret \<open>paged_source\<close>.
    \<open>Chat_Start\<close>: what the migrations and the start of the service establish.
  \<^item> \<open>Chat_Network\<close>: the gateway's client connected to the handlers of the chat service, over a network
    that loses requests and answers. \<open>Deployment\<close>: gateway and chat service as one system. A state holds the
    gateway of \<open>Gateway_System\<close>, the database and the failed attempts of each write task; a move is a move of
    the gateway, one attempt of a write task (a turn of the loop of \<open>Persistence\<close>, by a lemma of
    \<open>retry_loop\<close>), one read, or one of the two database operations of a conversation request.
    \<open>Deployment_Safety\<close>: what holds in every state of it.
  \<^item> \<open>Auth_Service\<close>: tokens, rate limiter, tenants, Google's tokens, HTTP and gRPC handlers.
  \<^item> \<open>Gateway\<close>: the check of the token, the WebSocket endpoint, the conversation endpoint, the
    shared state in both builds, and \<^verbatim>\<open>main\<close>. \<open>Gateway_Http\<close>: \<^verbatim>\<open>peroxo_route\<close>, the endpoints behind the
    metrics middleware. \<open>Metrics\<close>: \<^verbatim>\<open>metrics.rs\<close>. \<open>Number_Text\<close>: numbers as text and
    the node id of \<^verbatim>\<open>uuid_util.rs\<close>.
  \<^item> \<open>Mongo\<close>: the documents, the transaction that persists a message and the paged read; \<open>mongo_pages\<close>
    interprets \<open>paged_source\<close> with ids ordered as text.
  \<^item> \<open>Rabbit\<close>: the publisher of \<^verbatim>\<open>chat-service/src/rabbit.rs\<close> and the process \<^verbatim>\<open>rabbit_consumer\<close>; \<open>message_handler\<close> is
    the contract of its handlers, \<open>dm_handler\<close>, \<open>room_handler\<close> and \<open>consumers\<close> its interpretations.
  \<^item> \<open>User_Service\<close>: the query for matched users.
  \<^item> \<open>Socket_Addr\<close>: \<^verbatim>\<open>SocketAddr::from_str\<close> of the standard library. \<open>Process_Start\<close>: the \<^verbatim>\<open>main\<close> functions of the chat,
    auth and user services, \<^verbatim>\<open>start_grpc_server\<close>, and the allowed origins.
  \<^item> This theory: the gateway in front of the chat service, from its start on, and in front of the auth
    service.

  \<^bold>\<open>What the theorems show.\<close>

  \<^item> Across services, in every interleaving of the gateway's tasks, their attempts and lost calls:
    from an empty database on, what is stored was sent, by an authenticated user and in its own project;
    what is acknowledged as \<^verbatim>\<open>Persisted\<close> is stored; what is read back was stored or sent; a direct message gets
    its verdict after at most four attempts. For one message: it is stored exactly once in spite of retries and
    lost answers, and its acknowledgement says so. The identity of a token is the identity under which
    the router hears the connection, and there is no socket without a token.
  \<^item> The gateway in every interleaving: direct and room messages are offered only where they were
    sent, under the identity of the session that sent them; the table of users follows the sessions;
    the gauge counts the connected users; the router can always empty its mailbox, and then every
    registration is answered. The direct messages offered to clients are exactly those of the sequential
    specification, in its order; rooms are first in, first out for each client, and a room can always
    deliver what waits in its mailbox. Every reply channel belongs to one message, its acknowledgement
    names that message, is never lost for a direct message, and says \<^verbatim>\<open>Persisted\<close> only after the
    successful write of it. A session's channel holds at most a hundred messages and keeps their order.
  \<^item> Router and rooms: the online list and the user table agree, the tables refine abstract
    first-registration-wins maps, actors never panic, each recipient or member is offered a message
    exactly once, each room gets its messages in order, senders get one acknowledgement.
  \<^item> Sessions: registration first and removal last, ids assigned by the server, only text frames
    are handled, messages written in order.
  \<^item> Chat service: a write adds the message to one history and is idempotent; following cursors reads
    a whole history; a sync answers exactly the missed messages; a pair of users has one
    conversation unless two requests race; invalid requests are refused before the database is
    touched; the migrations create the tables, keep what exists and can be repeated; reads fail on the session
    the service starts with.
  \<^item> Auth service: when a token is accepted and for how long, who gets one, the bound of the rate
    limiter and its lock-out, the conditions for a new tenant.
  \<^item> MongoDB: persisting is all or nothing; without entries of user conversations it always fails;
    following cursors reads a whole history; user ids survive exactly when they are numbers.
  \<^item> RabbitMQ: a room message survives the queue; every delivery is acknowledged once; on the tables
    of the migrations no write of the consumers is accepted.
  \<^item> Metrics never panic and count exactly; matched users are symmetric; a MAC address is read back.
  \<^item> Start: the exact conditions under which each service starts; a configured IPv4 address is the one
    served; a bad address stops every service; listed origins are read as they are listed.

  \<^bold>\<open>Hypotheses.\<close> Code outside the repository is an argument. What a theorem needs of it is named:
  \<open>uuid_ops\<close> (printing and parsing of ids), \<open>serves\<close> (CQL and its driver), \<open>redis_stores\<close> and
  \<open>redis_counts\<close> (Redis), \<open>codec_ok\<close> and \<open>wire_ok\<close> (serde), \<open>mongo_serves\<close> and \<open>mongo_reads\<close> (MongoDB), \<open>answers\<close>
  (PostgreSQL), \<open>defines_tables\<close> and \<open>connects\<close> (definitions of tables and new sessions), \<open>routes_requests\<close> (axum's
  router), \<open>hash_iter\<close> (the order of a \<^verbatim>\<open>HashMap\<close>). \<open>site_ok\<close> collects those of a deployment. Each is met by an instance in memory that the witnesses
  use.

  \<^bold>\<open>Loops and bounds.\<close> The loops of the actors and of the socket are recursion over the list of
  their inputs; the retry loops are total with the number of attempts left as measure; \<open>attempts\<close> takes a bound, and four, one
  more than the retries, is shown to give exactly the loop. The walk
  through pages in \<open>paged_source\<close> has a bound on the number of requests; the theorem shows that one
  request more than there are pages is enough, whatever the history.

  \<^bold>\<open>Not modelled.\<close> The conversions of direct messages in \<^verbatim>\<open>chat-service/src/rabbit.rs\<close>, which do not
  type-check against the current records (the feature \<^verbatim>\<open>rabbit\<close> does not compile); how axum dispatches a
  request, and the server loops of axum and tonic, which are library code (the documented dispatch is a
  hypothesis of \<open>Gateway_Http\<close>; the routes of the auth service are a table); the consistency level of the database sessions; logging; tests and
  build scripts. In \<open>Gateway_System\<close> deliveries are what is offered to a session's channel; the channel
  itself, which drops what does not fit, is \<open>Session_Outbox\<close>, for any schedule of one session.
\<close>

section \<open>The gateway and the chat service together\<close>



section \<open>The system from its start\<close>

text \<open>A gateway beside a chat service that has started.\<close>

definition started_site ::
  "UuidOps \<Rightarrow> ('st \<Rightarrow> string) \<Rightarrow> (string \<Rightarrow> (string, ChatMessage) result) \<Rightarrow>
   ((TenantUserId, session_sender) hash_map \<Rightarrow> (TenantUserId \<times> session_sender) list) \<Rightarrow>
   ('w, 'r, 'rows, 'p) Session \<times> 'p \<Rightarrow> ('w, 'r, 'rows, 'p, 'st) Site" where
  "started_site u show_st parse iter service =
     \<lparr>site_uuid = u, site_session = fst service, site_queries = snd service, site_status = show_st,
      site_parse = parse, site_iter = iter\<rparr>"

lemma started_site_simps [simp]:
  "site_uuid (started_site u show_st parse iter service) = u"
  "site_parse (started_site u show_st parse iter service) = parse"
  "site_iter (started_site u show_st parse iter service) = iter"
  by (simp_all add: started_site_def)

lemma started_site_ok:
  assumes "connects connect b" and "fits (contents b w0)" and "uuid_ops u" and "hash_iter iter"
  shows "\<exists>w service. service_start connect w0 node = (w, Inr service) \<and> contents b w = schema ++ contents b w0 \<and>
    site_ok (started_site u show_st parse iter service) (b\<lparr>keyspace := None\<rparr>) w"
proof -
  obtain w d queries where "service_start connect w0 node = (w, Inr (d, queries))" "serves d (b\<lparr>keyspace := None\<rparr>)"
    "statement_of b queries = q_fetch_after" "contents b w = schema ++ contents b w0"
    using service_start_effect [OF assms(1), of w0 node] by blast
  then show ?thesis using assms(2-4) by (auto simp: site_ok_def started_site_def fits_def)
qed

lemma schema_histories [simp]: "history tk schema pid conv = []" "room_history tk schema pid rid = []"
  by (simp_all add: history_def room_history_def schema_def)



section \<open>The gateway and the auth service together\<close>

text \<open>
  The call \<^verbatim>\<open>VerifyUserToken\<close> answered by the auth service at the time \<open>now\<close>; a panic of the handler reaches
  the client as the status \<open>aborted\<close>.
\<close>

definition auth_rpc ::
  "'w Redis \<Rightarrow> TokenCodec \<Rightarrow> u64 option \<Rightarrow> string \<Rightarrow> 'w \<Rightarrow> string \<Rightarrow> 'w \<times> (string, VerifyUserTokenResponse) result" where
  "auth_rpc redis codec now aborted w token =
     (case grpc_verify_user_token redis codec now w token of
        (w', Inl p) \<Rightarrow> (w', Inl aborted)
      | (w', Inr r) \<Rightarrow> (w', r))"

lemma user_token_stored:
  assumes "generate_user_token_handler pool r codec rnd now w payload = (w1, Inr (Inr token))"
  shows "\<exists>w0. store_user_token r codec rnd now w0 (GenerateUserTokenRequest.project_id payload)
    (GenerateUserTokenRequest.user_id payload) = (w1, Inr (Inr token))"
  using assms
  by (auto simp: generate_user_token_handler_def split: prod.splits sum.splits option.splits if_splits)

text \<open>
  C3. Identity from the token to the router: a WebSocket request with a token the auth service issued
  is upgraded for exactly the project and user the token was issued for, until ten minutes after
  its issue, and refused with 401 afterwards; and whatever the client of the upgraded socket sends,
  every message that reaches the router speaks for that user. Hypotheses: Redis and serde behave as
  documented and Redis still holds the token's text.
\<close>

theorem token_identity_end_to_end:
  assumes "redis_stores r v" and "codec_ok codec"
    and "generate_user_token_handler pool r codec rnd (Some t0) w payload = (w1, Inr (Inr token))"
    and "value v w2 token = value v w1 token" and "unat t0 + 600 < 2 ^ 64"
    and "hm_get params ''token'' = Some token"
  defines "uid \<equiv> tenant_new (GenerateUserTokenRequest.project_id payload) (GenerateUserTokenRequest.user_id payload)"
  shows "snd (ws_handler show_st (auth_rpc r codec (Some t1) aborted) w2 params) =
      (if unat t1 \<le> unat t0 + 600 then Upgrade uid else HttpReply 401 ''Invalid token'') \<and>
    (\<forall>m \<in> set (routed (dm_socket parse uid s c is_open response items)). acts_for uid s m)"
proof
  obtain w0 where "store_user_token r codec rnd (Some t0) w0 (GenerateUserTokenRequest.project_id payload)
    (GenerateUserTokenRequest.user_id payload) = (w1, Inr (Inr token))"
    using user_token_stored [OF assms(3)] by blast
  from issued_token_verdict [OF assms(1,2) this assms(4,5), of t1]
  obtain w3 where "verify_user_token r codec (Some t1) w2 token = (w3, Inr (Inr
      (if unat t1 \<le> unat t0 + 600
       then Some \<lparr>StoredToken.project_id = GenerateUserTokenRequest.project_id payload,
                  StoredToken.user_id = GenerateUserTokenRequest.user_id payload,
                  StoredToken.expires_at = t0 + 600\<rparr>
       else None)))"
    by (metis prod.collapse)
  then show "snd (ws_handler show_st (auth_rpc r codec (Some t1) aborted) w2 params) =
      (if unat t1 \<le> unat t0 + 600 then Upgrade uid else HttpReply 401 ''Invalid token'')"
    using assms(6)
    by (simp add: ws_handler_def verify_token_def auth_rpc_def grpc_verify_user_token_def from_token_def
        tenant_new_def uid_def)
next
  show "\<forall>m \<in> set (routed (dm_socket parse uid s c is_open response items)). acts_for uid s m"
    using connection_acts_for unfolding dm_socket_def by blast
qed

definition example_payload :: GenerateUserTokenRequest where
  "example_payload = \<lparr>GenerateUserTokenRequest.user_id = ''ann'', GenerateUserTokenRequest.project_id = ''p'',
     GenerateUserTokenRequest.secret_api_key = ''key''\<rparr>"

theorem token_identity_end_to_end_witness:
  "snd (ws_handler (\<lambda>s. s) (auth_rpc mem_redis example_codec (Some 604) ''aborted'')
     (fst (generate_user_token_handler example_postgres mem_redis example_codec ''abc'' (Some 3)
        (Map.empty, (\<lambda>_. 0), (\<lambda>_. False)) example_payload))
     [(''token'', ''pxtok_abc'')]) = HttpReply 401 ''Invalid token''"
proof -
  obtain w1 where "store_user_token mem_redis example_codec ''abc'' (Some 3)
      (Map.empty, (\<lambda>_. 0), (\<lambda>_. False)) ''p'' ''ann'' = (w1, Inr (Inr ''pxtok_abc''))"
    using store_user_token_effect [OF mem_redis_ok(1) example_codec_ok, of "''abc''" 3
        "(Map.empty, (\<lambda>_. 0), (\<lambda>_. False))" "''p''" "''ann''"] by auto
  then have w1: "generate_user_token_handler example_postgres mem_redis example_codec ''abc'' (Some 3)
      (Map.empty, (\<lambda>_. 0), (\<lambda>_. False)) example_payload = (w1, Inr (Inr ''pxtok_abc''))"
    by (simp add: generate_user_token_handler_def get_secret_key_by_project_id_def example_postgres_def
        example_payload_def)
  have "hm_get [(''token'', ''pxtok_abc'')] ''token'' = Some ''pxtok_abc''" by (simp add: hm_get_def)
  from token_identity_end_to_end [OF mem_redis_ok(1) example_codec_ok w1 refl _ this, of "\<lambda>s. s" 604 "''aborted''"]
  show ?thesis using w1 by simp
qed

end
